(* ===== verification/Prelude.thy ===== *)
theory Prelude
  imports Main "HOL-Library.Word"
begin

text \<open>
  What every theory of the development shares: the lemma collections, the names of the
  model's machine types, Go's 64-bit signed wrap-around, Go's error values with
  \<open>errors.Is\<close>, and generic facts on lists and maps.

  A Go string is a byte sequence; HOL's \<open>char\<close> is a byte, so \<open>string\<close> is used for
  Go's \<open>string\<close> and \<open>[]byte\<close> alike and \<open>length\<close> is Go's \<open>len\<close>.
\<close>

named_theorems go_defs \<open>definitions of Go library functions, unfolded on demand\<close>
named_theorems conv_simps \<open>equations of the proto-to-domain conversions\<close>
named_theorems hub_simps \<open>field equations of the hub operations\<close>

type_synonym i32 = "32 word"
type_synonym u32 = "32 word"
type_synonym i64 = "64 word"
type_synonym u64 = "64 word"

text \<open>The bit pattern of an IEEE-754 double. The program carries prices and never computes with them.\<close>

type_synonym float64 = "64 word"

subsection \<open>Signed 64-bit arithmetic on int\<close>

text \<open>Go's \<open>int\<close> and \<open>int64\<close> wrap around silently: the value of a sum or product is the
  representative modulo \<open>2 ^ 64\<close> in the signed range.\<close>

definition wrap_int64 :: "int \<Rightarrow> int" where
  "wrap_int64 x = (x + 2 ^ 63) mod 2 ^ 64 - 2 ^ 63"

definition in_int64 :: "int \<Rightarrow> bool" where
  "in_int64 x \<longleftrightarrow> - (2 ^ 63) \<le> x \<and> x < 2 ^ 63"

lemma wrap_int64_id [simp]: "in_int64 x \<Longrightarrow> wrap_int64 x = x"
  by (simp add: wrap_int64_def in_int64_def)

lemma wrap_int64_range: "in_int64 (wrap_int64 x)"
proof -
  have "0 \<le> (x + 2 ^ 63) mod 2 ^ 64" and "(x + 2 ^ 63) mod 2 ^ 64 < 2 ^ 64"
    by simp_all
  then show ?thesis by (simp add: wrap_int64_def in_int64_def)
qed

subsection \<open>Error values\<close>

text \<open>
  The package-level error variables the code compares against with \<open>errors.Is\<close>, and the
  gRPC status codes it distinguishes.
\<close>

datatype sentinel =
    Price_ErrNotFound
  | Indexer_ErrNotFound
  | Oracle_ErrNotFound
  | Oracle_ErrInvalidArgument
  | IO_EOF
  | Context_Canceled
  | Context_DeadlineExceeded
  | HTTP_ErrServerClosed

datatype grpc_code =
    C_OK | C_Canceled | C_Unknown | C_InvalidArgument | C_DeadlineExceeded | C_NotFound
  | C_AlreadyExists | C_PermissionDenied | C_ResourceExhausted | C_FailedPrecondition
  | C_Aborted | C_OutOfRange | C_Unimplemented | C_Internal | C_Unavailable | C_DataLoss
  | C_Unauthenticated

text \<open>
  An error is a sentinel, a plain text (\<open>errors.New\<close>, \<open>fmt.Errorf\<close> without \<open>%w\<close>), a gRPC
  status, a text wrapping another error (\<open>fmt.Errorf\<close> with \<open>%w\<close>) or a joined list.
\<close>

datatype go_error =
    ErrSentinel sentinel
  | ErrText string
  | ErrStatus grpc_code string
  | ErrWrap string go_error
  | ErrJoin "go_error list"

text \<open>\<open>errors.Is\<close>: the error or one it wraps is the target.\<close>

fun errors_Is :: "go_error \<Rightarrow> sentinel \<Rightarrow> bool" where
  "errors_Is (ErrSentinel s) t = (s = t)"
| "errors_Is (ErrText _) t = False"
| "errors_Is (ErrStatus _ _) t = False"
| "errors_Is (ErrWrap _ e) t = errors_Is e t"
| "errors_Is (ErrJoin es) t = list_ex (\<lambda>e. errors_Is e t) es"

text \<open>\<open>status.FromError\<close>: the code carried by the error or by one it wraps.\<close>

fun status_FromError :: "go_error \<Rightarrow> grpc_code option" where
  "status_FromError (ErrStatus c _) = Some c"
| "status_FromError (ErrWrap _ e) = status_FromError e"
| "status_FromError _ = None"

type_synonym 'a go_result = "go_error + 'a"

text \<open>Remembering the first of several errors: \<open>if err != nil && firstErr == nil { firstErr = err }\<close>.\<close>

definition note_err :: "go_error option \<Rightarrow> go_error option \<Rightarrow> go_error option" where
  "note_err err firstErr = (if err \<noteq> None \<and> firstErr = None then err else firstErr)"

definition first_err :: "go_error option list \<Rightarrow> go_error option" where
  "first_err es = (case filter (\<lambda>e. e \<noteq> None) es of [] \<Rightarrow> None | e # _ \<Rightarrow> e)"

lemma fold_note_err: "fold note_err es fe = first_err (fe # es)"
  by (induction es arbitrary: fe) (simp_all add: first_err_def note_err_def)

lemma first_err_Nil [simp]: "first_err [] = None"
  by (simp add: first_err_def)

lemma first_err_Cons [simp]: "first_err (e # es) = (case e of None \<Rightarrow> first_err es | Some _ \<Rightarrow> e)"
  by (cases e) (simp_all add: first_err_def)

lemma first_err_None_iff: "first_err es = None \<longleftrightarrow> list_all (\<lambda>e. e = None) es"
  by (induction es) (auto split: option.splits)

text \<open>Actions on a state that may report an error, run one after the other whatever they report.\<close>

type_synonym 's action = "'s \<Rightarrow> go_error option \<times> 's"

fun run_each :: "'s action list \<Rightarrow> 's \<Rightarrow> go_error option list \<times> 's" where
  "run_each [] s = ([], s)"
| "run_each (a # as) s = (let (e, s1) = a s; (es, s2) = run_each as s1 in (e # es, s2))"

lemma run_each_append:
  "run_each (as @ bs) s = (let (es, s1) = run_each as s; (fs, s2) = run_each bs s1 in (es @ fs, s2))"
  by (induction as arbitrary: s) (simp_all add: Let_def split_beta)

lemma length_run_each [simp]: "length (fst (run_each as s)) = length as"
  by (induction as arbitrary: s) (simp_all add: Let_def split_beta)

subsection \<open>Generic facts\<close>

lemma find_Some_iff_first:
  "find P xs = Some x \<longleftrightarrow> (\<exists>i < length xs. xs ! i = x \<and> P x \<and> (\<forall>j < i. \<not> P (xs ! j)))"
  by (auto simp: find_Some_iff)

lemma find_distinct_key:
  assumes "distinct (map f xs)" and "x \<in> set xs"
  shows "find (\<lambda>y. f y = f x) xs = Some x"
  using assms
proof (induction xs)
  case Nil
  then show ?case by simp
next
  case (Cons y ys)
  show ?case
  proof (cases "x = y")
    case True
    then show ?thesis by simp
  next
    case False
    with Cons.prems have "x \<in> set ys" by simp
    with Cons.prems(1) have "f y \<noteq> f x" by (auto simp: image_iff)
    with Cons.IH Cons.prems(1) \<open>x \<in> set ys\<close> show ?thesis by simp
  qed
qed

lemma find_key_None: "find (\<lambda>y. f y = k) xs = None \<longleftrightarrow> k \<notin> f ` set xs"
  by (auto simp: find_None_iff)

lemma map_of_map_key:
  "map_of (map (\<lambda>x. (f x, g x)) xs) k = map_option g (find (\<lambda>x. f x = k) xs)"
  by (induction xs) auto

text \<open>A Go map filled by a loop: a later entry for the same key wins.\<close>

fun map_fill :: "('k \<rightharpoonup> 'v) \<Rightarrow> ('k \<times> 'v) list \<Rightarrow> ('k \<rightharpoonup> 'v)" where
  "map_fill m [] = m"
| "map_fill m ((k, v) # kvs) = map_fill (m(k \<mapsto> v)) kvs"

lemma map_fill_eq: "map_fill m kvs = m ++ map_of (rev kvs)"
proof (induction kvs arbitrary: m)
  case Nil
  then show ?case by simp
next
  case (Cons kv kvs)
  obtain k v where kv: "kv = (k, v)" by (cases kv)
  have "map_fill m (kv # kvs) = m(k \<mapsto> v) ++ map_of (rev kvs)"
    by (simp only: kv map_fill.simps Cons.IH)
  also have "\<dots> = m ++ map_of (rev (kv # kvs))"
    by (rule ext) (simp add: kv map_add_def split: option.split)
  finally show ?case .
qed

lemma map_fill_distinct:
  assumes "distinct (map fst kvs)"
  shows "map_fill Map.empty kvs = map_of kvs"
proof -
  from assms have "map_of (rev kvs) = map_of kvs"
    by (intro map_of_eqI) (auto simp: rev_map [symmetric])
  then show ?thesis by (simp add: map_fill_eq)
qed

text \<open>Counting entries whose partner satisfies a test depends on the tests' outcomes only.\<close>

lemma count_zip_cong:
  assumes "map f xs = map g ys"
  shows "length (filter (\<lambda>(a, x). Q a \<and> f x) (zip as xs)) = length (filter (\<lambda>(a, y). Q a \<and> g y) (zip as ys))"
proof -
  have "length (filter (\<lambda>(a, b). Q a \<and> b) (zip as (map h zs))) = length (filter (\<lambda>(a, z). Q a \<and> h z) (zip as zs))" for h :: "'x \<Rightarrow> bool" and zs
    by (simp add: zip_map2 filter_map comp_def split_beta')
  from this [of f xs] this [of g ys] assms show ?thesis by simp
qed

subsection \<open>Step relations\<close>

definition reachable :: "('s \<Rightarrow> bool) \<Rightarrow> ('s \<Rightarrow> 's \<Rightarrow> bool) \<Rightarrow> 's \<Rightarrow> bool" where
  "reachable init step s \<longleftrightarrow> (\<exists>s0. init s0 \<and> step\<^sup>*\<^sup>* s0 s)"

lemma reachable_init: "init s \<Longrightarrow> reachable init step s"
  by (auto simp: reachable_def)

lemma reachable_step: "reachable init step s \<Longrightarrow> step s t \<Longrightarrow> reachable init step t"
  by (auto simp: reachable_def intro: rtranclp.rtrancl_into_rtrancl)

text \<open>A property of the initial states that every step keeps holds in every reachable state.\<close>

locale invariant_system =
  fixes init :: "'s \<Rightarrow> bool"
    and step :: "'s \<Rightarrow> 's \<Rightarrow> bool"
    and inv :: "'s \<Rightarrow> bool"
  assumes inv_init: "init s \<Longrightarrow> inv s"
    and inv_step: "inv s \<Longrightarrow> step s t \<Longrightarrow> inv t"
begin

lemma inv_steps: "step\<^sup>*\<^sup>* s t \<Longrightarrow> inv s \<Longrightarrow> inv t"
  by (induction rule: rtranclp_induct) (auto intro: inv_step)

lemma inv_reachable: "reachable init step s \<Longrightarrow> inv s"
  by (auto simp: reachable_def intro: inv_steps inv_init)

end

text \<open>
  A refinement: under the concrete invariant every concrete step is an abstract step or none, seen
  through the abstraction function.
\<close>

locale simulation = invariant_system init step inv
  for init :: "'s \<Rightarrow> bool" and step :: "'s \<Rightarrow> 's \<Rightarrow> bool" and inv :: "'s \<Rightarrow> bool" +
  fixes ainit :: "'a \<Rightarrow> bool"
    and astep :: "'a \<Rightarrow> 'a \<Rightarrow> bool"
    and abs :: "'s \<Rightarrow> 'a"
  assumes sim_init: "init s \<Longrightarrow> ainit (abs s)"
    and sim_step: "inv s \<Longrightarrow> step s t \<Longrightarrow> astep\<^sup>=\<^sup>= (abs s) (abs t)"
begin

lemma sim_steps: "step\<^sup>*\<^sup>* s t \<Longrightarrow> inv s \<Longrightarrow> astep\<^sup>*\<^sup>* (abs s) (abs t)"
proof (induction rule: rtranclp_induct)
  case (step t u)
  then have "astep\<^sup>=\<^sup>= (abs t) (abs u)" using inv_steps sim_step by blast
  with step show ?case by auto
qed simp

lemma sim_reachable: "reachable init step s \<Longrightarrow> reachable ainit astep (abs s)"
  unfolding reachable_def using sim_init sim_steps inv_init by blast

end

text \<open>A system whose steps use up work: from a state with \<open>n\<close> units no run is longer than \<open>n\<close>.\<close>

locale working_system =
  fixes step :: "'s \<Rightarrow> 's \<Rightarrow> bool" and inv :: "'s \<Rightarrow> bool" and work :: "'s \<Rightarrow> nat"
  assumes work_inv: "inv s \<Longrightarrow> step s t \<Longrightarrow> inv t"
    and work_less: "inv s \<Longrightarrow> step s t \<Longrightarrow> work t < work s"
begin

lemma work_run: "(step ^^ n) s t \<Longrightarrow> inv s \<Longrightarrow> inv t \<and> n + work t \<le> work s"
proof (induction n arbitrary: t)
  case (Suc n)
  then obtain u where "(step ^^ n) s u" "step u t" by (auto elim: relpowp_Suc_E)
  with Suc.IH Suc.prems(2) work_inv work_less show ?case by fastforce
qed simp

end

end
