(* ===== verification/Go_Strings.thy ===== *)
theory Go_Strings
  imports Prelude "HOL-Library.Sublist"
begin

text \<open>
  The parts of Go's \<open>strings\<close>, \<open>strconv\<close> and \<open>encoding/hex\<close> packages the service calls, on
  byte strings: \<open>TrimSpace\<close>, \<open>TrimRight\<close>, \<open>ToLower\<close>, \<open>ToUpper\<close>, \<open>EqualFold\<close>, \<open>Index\<close> of a
  byte, \<open>Atoi\<close>, \<open>Itoa\<close> and \<open>EncodeToString\<close>.

  \<open>TrimSpace\<close> removes the UTF-8 encodings of every rune of \<open>unicode.IsSpace\<close>, so it is exact
  on any byte string. \<open>ToLower\<close>, \<open>ToUpper\<close> and \<open>EqualFold\<close> change the case of ASCII letters
  and leave the other bytes alone: exact on ASCII strings. The code uses their result only to
  compare with \<open>0x\<close>-prefixed hex strings and catalog ids; a non-ASCII rune that Unicode case
  mapping sends to ASCII becomes \<open>i\<close>, \<open>k\<close> or \<open>s\<close>, none of which is a hex digit or \<open>x\<close>, so such
  a comparison fails in Go as it does here.
\<close>

subsection \<open>Bytes\<close>

definition byte_val :: "char \<Rightarrow> nat" where
  "byte_val c = of_char c"

definition is_digit_byte :: "char \<Rightarrow> bool" where
  "is_digit_byte c \<longleftrightarrow> 48 \<le> byte_val c \<and> byte_val c \<le> 57"

definition is_upper_byte :: "char \<Rightarrow> bool" where
  "is_upper_byte c \<longleftrightarrow> 65 \<le> byte_val c \<and> byte_val c \<le> 90"

definition is_lower_byte :: "char \<Rightarrow> bool" where
  "is_lower_byte c \<longleftrightarrow> 97 \<le> byte_val c \<and> byte_val c \<le> 122"

definition lower_byte :: "char \<Rightarrow> char" where
  "lower_byte c = (if is_upper_byte c then char_of (byte_val c + 32) else c)"

definition upper_byte :: "char \<Rightarrow> char" where
  "upper_byte c = (if is_lower_byte c then char_of (byte_val c - 32) else c)"

definition ToLower :: "string \<Rightarrow> string" where
  "ToLower s = map lower_byte s"

definition ToUpper :: "string \<Rightarrow> string" where
  "ToUpper s = map upper_byte s"

definition EqualFold :: "string \<Rightarrow> string \<Rightarrow> bool" where
  "EqualFold s t \<longleftrightarrow> ToLower s = ToLower t"

subsection \<open>Trimming\<close>

text \<open>The UTF-8 encodings of the runes of \<open>unicode.IsSpace\<close>.\<close>

definition space_runes :: "string list" where
  "space_runes =
     [[CHR 0x20], [CHR 0x09], [CHR 0x0A], [CHR 0x0B], [CHR 0x0C], [CHR 0x0D],
      [CHR 0xC2, CHR 0x85], [CHR 0xC2, CHR 0xA0], [CHR 0xE1, CHR 0x9A, CHR 0x80],
      [CHR 0xE2, CHR 0x80, CHR 0x80], [CHR 0xE2, CHR 0x80, CHR 0x81],
      [CHR 0xE2, CHR 0x80, CHR 0x82], [CHR 0xE2, CHR 0x80, CHR 0x83],
      [CHR 0xE2, CHR 0x80, CHR 0x84], [CHR 0xE2, CHR 0x80, CHR 0x85],
      [CHR 0xE2, CHR 0x80, CHR 0x86], [CHR 0xE2, CHR 0x80, CHR 0x87],
      [CHR 0xE2, CHR 0x80, CHR 0x88], [CHR 0xE2, CHR 0x80, CHR 0x89],
      [CHR 0xE2, CHR 0x80, CHR 0x8A], [CHR 0xE2, CHR 0x80, CHR 0xA8],
      [CHR 0xE2, CHR 0x80, CHR 0xA9], [CHR 0xE2, CHR 0x80, CHR 0xAF],
      [CHR 0xE2, CHR 0x81, CHR 0x9F], [CHR 0xE3, CHR 0x80, CHR 0x80]]"

text \<open>Length of the first pattern of the list that \<open>s\<close> starts with, 0 if there is none.\<close>

definition head_len :: "string list \<Rightarrow> string \<Rightarrow> nat" where
  "head_len pats s =
     (case find (\<lambda>p. take (length p) s = p) pats of Some p \<Rightarrow> length p | None \<Rightarrow> 0)"

function trim_head :: "string list \<Rightarrow> string \<Rightarrow> string" where
  "trim_head pats s =
     (if s = [] \<or> head_len pats s = 0 then s else trim_head pats (drop (head_len pats s) s))"
  by pat_completeness auto
termination
  by (relation "measure (\<lambda>(pats, s). length s)") auto

declare trim_head.simps [simp del]

definition TrimSpace :: "string \<Rightarrow> string" where
  "TrimSpace s = rev (trim_head (map rev space_runes) (rev (trim_head space_runes s)))"

text \<open>\<open>strings.TrimRight\<close> with a one-byte cutset.\<close>

definition TrimRight :: "string \<Rightarrow> char \<Rightarrow> string" where
  "TrimRight s c = rev (dropWhile (\<lambda>x. x = c) (rev s))"

text \<open>\<open>strings.Index(s, sep) >= 0\<close> followed by \<open>s[:i]\<close>, for a one-byte separator.\<close>

definition before_byte :: "char \<Rightarrow> string \<Rightarrow> string" where
  "before_byte c s = takeWhile (\<lambda>x. x \<noteq> c) s"

subsection \<open>Decimal and hexadecimal conversions\<close>

fun dec_val :: "nat \<Rightarrow> string \<Rightarrow> nat" where
  "dec_val acc [] = acc"
| "dec_val acc (c # cs) = dec_val (10 * acc + (byte_val c - 48)) cs"

text \<open>
  \<open>strconv.Atoi\<close> on a 64-bit platform: an optional sign, at least one digit, nothing else, and
  the value in the range of \<open>int\<close>; any other input is an error.
\<close>

definition atoi_digits :: "string \<Rightarrow> nat option" where
  "atoi_digits s = (if s \<noteq> [] \<and> list_all is_digit_byte s then Some (dec_val 0 s) else None)"

definition Atoi :: "string \<Rightarrow> int option" where
  "Atoi s =
     (let neg = (s \<noteq> [] \<and> hd s = CHR ''-'');
          ds = (if s \<noteq> [] \<and> (hd s = CHR ''-'' \<or> hd s = CHR ''+'') then tl s else s)
      in case atoi_digits ds of
           None \<Rightarrow> None
         | Some n \<Rightarrow> (let v = (if neg then - int n else int n)
                      in if in_int64 v then Some v else None))"

definition digit_byte :: "nat \<Rightarrow> char" where
  "digit_byte d = char_of (48 + d)"

fun show_nat :: "nat \<Rightarrow> string" where
  "show_nat n = (if n < 10 then [digit_byte n] else show_nat (n div 10) @ [digit_byte (n mod 10)])"

declare show_nat.simps [simp del]

definition Itoa :: "int \<Rightarrow> string" where
  "Itoa x = (if x < 0 then CHR ''-'' # show_nat (nat (- x)) else show_nat (nat x))"

definition hex_digit :: "nat \<Rightarrow> char" where
  "hex_digit d = (if d < 10 then char_of (48 + d) else char_of (87 + d))"

definition EncodeToString :: "string \<Rightarrow> string" where
  "EncodeToString bs =
     concat (map (\<lambda>b. [hex_digit (byte_val b div 16), hex_digit (byte_val b mod 16)]) bs)"

subsection \<open>Case mapping\<close>

lemma byte_val_less [simp]: "byte_val c < 256"
  by (simp add: byte_val_def)

lemma byte_val_char_of [simp]: "n < 256 \<Longrightarrow> byte_val (char_of n) = n"
  by (simp add: byte_val_def)

lemma char_of_byte_val [simp]: "char_of (byte_val c) = c"
  by (simp add: byte_val_def)

lemma byte_val_inject: "byte_val c = byte_val d \<longleftrightarrow> c = d"
  by (metis char_of_byte_val)

lemma lower_byte_idem [simp]: "lower_byte (lower_byte c) = lower_byte c"
  by (simp add: lower_byte_def is_upper_byte_def)

lemma lower_byte_not_upper: "\<not> is_upper_byte (lower_byte c)"
  by (simp add: lower_byte_def is_upper_byte_def)

lemma lower_byte_id: "\<not> is_upper_byte c \<Longrightarrow> lower_byte c = c"
  by (simp add: lower_byte_def)

lemma lower_upper_byte [simp]: "lower_byte (upper_byte c) = lower_byte c"
proof (cases "is_lower_byte c")
  case True
  have "byte_val (char_of (byte_val c - 32)) = byte_val c - 32"
    by (intro byte_val_char_of less_imp_diff_less byte_val_less)
  with True show ?thesis
    by (auto simp: lower_byte_def upper_byte_def is_upper_byte_def is_lower_byte_def)
qed (simp add: upper_byte_def)

lemma ToLower_idem [simp]: "ToLower (ToLower s) = ToLower s"
  by (simp add: ToLower_def)

lemma ToLower_ToUpper [simp]: "ToLower (ToUpper s) = ToLower s"
  by (simp add: ToLower_def ToUpper_def)

lemma length_ToLower [simp]: "length (ToLower s) = length s"
  by (simp add: ToLower_def)

lemma ToLower_id: "list_all (\<lambda>c. \<not> is_upper_byte c) s \<Longrightarrow> ToLower s = s"
  by (induction s) (simp_all add: ToLower_def lower_byte_id)

lemma ToLower_eq_Nil [simp]: "ToLower s = [] \<longleftrightarrow> s = []"
  by (simp add: ToLower_def)

lemma EqualFold_refl [simp]: "EqualFold s s"
  by (simp add: EqualFold_def)

lemma EqualFold_sym: "EqualFold s t \<longleftrightarrow> EqualFold t s"
  by (auto simp: EqualFold_def)

subsection \<open>Trimming removes exactly the surrounding space\<close>

lemma head_len_le: "head_len pats s \<le> length s"
proof (cases "find (\<lambda>p. take (length p) s = p) pats")
  case None
  then show ?thesis by (simp add: head_len_def)
next
  case (Some p)
  then have "take (length p) s = p" by (auto simp: find_Some_iff)
  then have "length p \<le> length s" by (metis length_take min.cobounded1)
  with Some show ?thesis by (simp add: head_len_def)
qed

lemma head_len_0_iff:
  assumes "[] \<notin> set pats"
  shows "head_len pats s = 0 \<longleftrightarrow> (\<forall>p \<in> set pats. \<not> prefix p s)"
proof -
  have pre: "take (length p) s = p \<longleftrightarrow> prefix p s" for p
    by (metis append_eq_conv_conj prefix_def take_is_prefix)
  show ?thesis
  proof (cases "find (\<lambda>p. take (length p) s = p) pats")
    case None
    then have "\<forall>p \<in> set pats. \<not> prefix p s" by (auto simp: find_None_iff pre)
    with None show ?thesis by (simp add: head_len_def)
  next
    case (Some p)
    then have "p \<in> set pats" and "prefix p s"
      by (auto simp: find_Some_iff pre)
    with assms Some show ?thesis by (auto simp: head_len_def)
  qed
qed

lemma trim_head_stop: "s = [] \<or> head_len pats s = 0 \<Longrightarrow> trim_head pats s = s"
  by (subst trim_head.simps) simp

lemma trim_head_result:
  "trim_head pats s = [] \<or> head_len pats (trim_head pats s) = 0"
proof (induction pats s rule: trim_head.induct)
  case (1 pats s)
  then show ?case
    by (cases "s = [] \<or> head_len pats s = 0") (auto simp: trim_head.simps [of pats s])
qed

lemma trim_head_suffix: "\<exists>us. s = us @ trim_head pats s"
proof (induction pats s rule: trim_head.induct)
  case (1 pats s)
  show ?case
  proof (cases "s = [] \<or> head_len pats s = 0")
    case True
    then show ?thesis by (auto simp: trim_head_stop)
  next
    case False
    with 1 obtain us where "drop (head_len pats s) s = us @ trim_head pats (drop (head_len pats s) s)"
      by blast
    then have "s = (take (head_len pats s) s @ us) @ trim_head pats (drop (head_len pats s) s)"
      by (metis append.assoc append_take_drop_id)
    with False show ?thesis by (metis trim_head.simps)
  qed
qed

lemma trim_head_idem: "trim_head pats (trim_head pats s) = trim_head pats s"
  by (rule trim_head_stop) (rule trim_head_result)

text \<open>A string no byte of which starts or ends a space rune is left alone.\<close>

definition plain_byte :: "char \<Rightarrow> bool" where
  "plain_byte c \<longleftrightarrow> 32 < byte_val c \<and> byte_val c < 128"

lemma space_runes_head: "p \<in> set space_runes \<Longrightarrow> \<not> plain_byte (hd p) \<and> \<not> plain_byte (last p) \<and> p \<noteq> []"
  by (auto simp: space_runes_def plain_byte_def byte_val_def)

lemma trim_head_plain:
  assumes "\<forall>p \<in> set pats. p \<noteq> [] \<and> \<not> plain_byte (hd p)" and "s = [] \<or> plain_byte (hd s)"
  shows "trim_head pats s = s"
proof (cases "s = []")
  case False
  have "\<not> prefix p s" if "p \<in> set pats" for p
  proof
    assume "prefix p s"
    with assms(1) that have "hd p = hd s" by (auto simp: prefix_def)
    with assms that False show False by auto
  qed
  with assms(1) have "head_len pats s = 0" by (subst head_len_0_iff) auto
  then show ?thesis by (simp add: trim_head_stop)
qed (simp add: trim_head_stop)

lemma TrimSpace_plain:
  assumes "s = [] \<or> (plain_byte (hd s) \<and> plain_byte (last s))"
  shows "TrimSpace s = s"
proof -
  have 1: "trim_head space_runes s = s"
    by (rule trim_head_plain) (use assms space_runes_head in auto)
  have 2: "trim_head (map rev space_runes) (rev s) = rev s"
    by (rule trim_head_plain) (use assms space_runes_head in \<open>auto simp: hd_rev\<close>)
  show ?thesis by (simp add: TrimSpace_def 1 2)
qed

lemma TrimSpace_Nil [simp]: "TrimSpace [] = []"
  by (simp add: TrimSpace_plain)

lemma is_digit_plain: "is_digit_byte c \<Longrightarrow> plain_byte c"
  by (simp add: is_digit_byte_def plain_byte_def)

lemma TrimSpace_digits: "list_all is_digit_byte s \<Longrightarrow> TrimSpace s = s"
  by (intro TrimSpace_plain) (cases "s = []"; simp add: is_digit_plain list_all_iff)

subsection \<open>Decimal conversions are inverse\<close>

lemma dec_val_append: "dec_val acc (xs @ ys) = dec_val (dec_val acc xs) ys"
  by (induction xs arbitrary: acc) simp_all

lemma digit_byte_digit: "d < 10 \<Longrightarrow> is_digit_byte (digit_byte d) \<and> byte_val (digit_byte d) = 48 + d"
  by (simp add: digit_byte_def is_digit_byte_def)

lemma show_nat_ne [simp]: "show_nat n \<noteq> []"
  by (subst show_nat.simps) simp

lemma show_nat_digits: "list_all is_digit_byte (show_nat n)"
proof (induction n rule: show_nat.induct)
  case (1 n)
  then show ?case
    by (cases "n < 10") (simp_all add: show_nat.simps [of n] digit_byte_digit)
qed

lemma dec_val_show_nat: "dec_val 0 (show_nat n) = n"
proof (induction n rule: show_nat.induct)
  case (1 n)
  then show ?case
    by (cases "n < 10") (simp_all add: show_nat.simps [of n] dec_val_append digit_byte_digit)
qed

lemma hd_show_nat: "hd (show_nat n) \<noteq> CHR ''-'' \<and> hd (show_nat n) \<noteq> CHR ''+''"
proof -
  have "is_digit_byte (hd (show_nat n))"
    using show_nat_digits [of n] show_nat_ne [of n] by (cases "show_nat n") auto
  then show ?thesis by (auto simp: is_digit_byte_def byte_val_def)
qed

lemma Atoi_Itoa: "in_int64 x \<Longrightarrow> Atoi (Itoa x) = Some x"
  by (simp add: Atoi_def Itoa_def atoi_digits_def show_nat_digits dec_val_show_nat hd_show_nat Let_def)

lemma Atoi_range: "Atoi s = Some v \<Longrightarrow> in_int64 v"
  by (auto simp: Atoi_def Let_def split: option.splits if_splits)

subsection \<open>Hexadecimal encoding\<close>

lemma hex_digit_lower: "d < 16 \<Longrightarrow> \<not> is_upper_byte (hex_digit d)"
  by (simp add: hex_digit_def is_upper_byte_def)

lemma hex_digit_plain: "d < 16 \<Longrightarrow> plain_byte (hex_digit d)"
  by (simp add: hex_digit_def plain_byte_def)

lemma hex_digit_inj: "d < 16 \<Longrightarrow> e < 16 \<Longrightarrow> hex_digit d = hex_digit e \<longleftrightarrow> d = e"
  by (auto simp: hex_digit_def byte_val_inject [symmetric])

lemma length_EncodeToString [simp]: "length (EncodeToString bs) = 2 * length bs"
  by (induction bs) (simp_all add: EncodeToString_def)

lemma EncodeToString_lower: "list_all (\<lambda>c. \<not> is_upper_byte c) (EncodeToString bs)"
  by (induction bs) (auto simp: EncodeToString_def hex_digit_lower less_mult_imp_div_less)

lemma EncodeToString_plain: "list_all plain_byte (EncodeToString bs)"
  by (induction bs) (auto simp: EncodeToString_def hex_digit_plain less_mult_imp_div_less)

lemma EncodeToString_inj: "EncodeToString bs = EncodeToString cs \<Longrightarrow> bs = cs"
proof (induction bs arbitrary: cs)
  case Nil
  then show ?case by (cases cs) (simp_all add: EncodeToString_def)
next
  case (Cons b bs)
  then obtain c cs' where cs: "cs = c # cs'" by (cases cs) (auto simp: EncodeToString_def)
  have lt: "byte_val x div 16 < 16" for x by (simp add: less_mult_imp_div_less)
  from Cons.prems have "byte_val b div 16 = byte_val c div 16" and "byte_val b mod 16 = byte_val c mod 16"
    by (simp_all add: cs EncodeToString_def hex_digit_inj lt)
  then have "byte_val b = byte_val c" by (metis div_mult_mod_eq)
  with Cons show ?case by (simp add: cs EncodeToString_def byte_val_inject)
qed

end
