(* ===== verification/Assets.thy ===== *)
theory Assets
  imports Go_Strings
begin

text \<open>
  The asset catalog of \<open>internal/models/asset.go\<close> and the on-chain id tables of
  \<open>internal/models/assetid.go\<close>. The Keccak-256 hash of go-ethereum is the parameter \<open>keccak\<close>
  of the tables; \<open>keccak_contract\<close> states what the tables rely on: digests of 32 bytes,
  different for the ten tickers of the catalog.
\<close>

subsection \<open>Catalog\<close>

type_synonym AssetClass = string

definition AssetClassCrypto :: AssetClass where
  "AssetClassCrypto = ''crypto''"

definition AssetClassRWA :: AssetClass where
  "AssetClassRWA = ''rwa''"

record Asset =
  a_ID :: string
  a_Symbol :: string
  a_Name :: string
  a_Class :: AssetClass
  a_AggregatorAddress :: string

definition mk_asset :: "string \<Rightarrow> string \<Rightarrow> string \<Rightarrow> AssetClass \<Rightarrow> Asset" where
  "mk_asset i s n c =
     \<lparr>a_ID = i, a_Symbol = s, a_Name = n, a_Class = c, a_AggregatorAddress = ''''\<rparr>"

definition AssetCatalog :: "Asset list" where
  "AssetCatalog =
     [mk_asset ''weth'' ''WETH'' ''Wrapped Ether'' AssetClassCrypto,
      mk_asset ''wbtc'' ''WBTC'' ''Wrapped Bitcoin'' AssetClassCrypto,
      mk_asset ''link'' ''LINK'' ''Chainlink'' AssetClassCrypto,
      mk_asset ''uni'' ''UNI'' ''Uniswap'' AssetClassCrypto,
      mk_asset ''aave'' ''AAVE'' ''Aave'' AssetClassCrypto,
      mk_asset ''xau'' ''XAU'' ''Gold (troy ounce)'' AssetClassRWA,
      mk_asset ''xag'' ''XAG'' ''Silver (troy ounce)'' AssetClassRWA,
      mk_asset ''spx'' ''SPX'' ''S&P 500 Index'' AssetClassRWA,
      mk_asset ''wti'' ''WTI'' ''Crude Oil (WTI)'' AssetClassRWA,
      mk_asset ''hg'' ''HG'' ''Copper (HG)'' AssetClassRWA]"

text \<open>The byte loop: \<open>c += 'a' - 'A'\<close> for \<open>'A' <= c <= 'Z'\<close>.\<close>

definition NormaliseAssetID :: "string \<Rightarrow> string" where
  "NormaliseAssetID s =
     map (\<lambda>c. if byte_val (CHR ''A'') \<le> byte_val c \<and> byte_val c \<le> byte_val (CHR ''Z'')
              then char_of (byte_val c + (byte_val (CHR ''a'') - byte_val (CHR ''A'')))
              else c) s"

fun find_asset_loop :: "string \<Rightarrow> Asset list \<Rightarrow> Asset option" where
  "find_asset_loop i [] = None"
| "find_asset_loop i (a # as) = (if a_ID a = i then Some a else find_asset_loop i as)"

definition FindAsset :: "string \<Rightarrow> Asset option" where
  "FindAsset i = find_asset_loop (NormaliseAssetID i) AssetCatalog"

definition AssetIDs :: "string list" where
  "AssetIDs = map a_ID AssetCatalog"

definition ValidateAssetID :: "string \<Rightarrow> go_error option" where
  "ValidateAssetID i =
     (case FindAsset i of
        None \<Rightarrow> Some (ErrText (''asset '' @ [CHR 0x22] @ i @ [CHR 0x22] @ '' is not tracked''))
      | Some _ \<Rightarrow> None)"

subsection \<open>On-chain ids\<close>

type_synonym keccak256 = "string \<Rightarrow> string"

definition asset_hash :: "keccak256 \<Rightarrow> Asset \<Rightarrow> string" where
  "asset_hash keccak a = ''0x'' @ EncodeToString (keccak (ToUpper (a_Symbol a)))"

text \<open>The package \<open>init\<close>: one pass over the catalog fills both maps.\<close>

fun init_tables :: "keccak256 \<Rightarrow> Asset list \<Rightarrow> (string \<rightharpoonup> string) \<times> (string \<rightharpoonup> Asset) \<Rightarrow>
    (string \<rightharpoonup> string) \<times> (string \<rightharpoonup> Asset)" where
  "init_tables keccak [] tabs = tabs"
| "init_tables keccak (a # as) (byID, byHash) =
     (let h = asset_hash keccak a
      in init_tables keccak as (byID(a_ID a \<mapsto> h), byHash(h \<mapsto> a)))"

definition assetIDHashByID :: "keccak256 \<Rightarrow> string \<rightharpoonup> string" where
  "assetIDHashByID keccak = fst (init_tables keccak AssetCatalog (Map.empty, Map.empty))"

definition assetByIDHashLower :: "keccak256 \<Rightarrow> string \<rightharpoonup> Asset" where
  "assetByIDHashLower keccak = snd (init_tables keccak AssetCatalog (Map.empty, Map.empty))"

definition AssetIDHash :: "keccak256 \<Rightarrow> string \<Rightarrow> string option" where
  "AssetIDHash keccak i = assetIDHashByID keccak (NormaliseAssetID i)"

definition AssetByIDHash :: "keccak256 \<Rightarrow> string \<Rightarrow> Asset option" where
  "AssetByIDHash keccak h = assetByIDHashLower keccak (ToLower (TrimSpace h))"

definition keccak_contract :: "keccak256 \<Rightarrow> bool" where
  "keccak_contract keccak \<longleftrightarrow>
     (\<forall>bs. length (keccak bs) = 32) \<and>
     distinct (map (\<lambda>a. keccak (ToUpper (a_Symbol a))) AssetCatalog)"

text \<open>A concrete 32-byte function that meets the contract, for the witnesses: the input padded.\<close>

definition pad32 :: keccak256 where
  "pad32 bs = take 32 (bs @ replicate 32 (CHR 0x00))"

subsection \<open>Facts about the catalog\<close>

lemma NormaliseAssetID_eq [simp]: "NormaliseAssetID s = ToLower s"
  by (simp add: NormaliseAssetID_def ToLower_def lower_byte_def is_upper_byte_def byte_val_def)

lemma catalog_distinct_ids: "distinct (map a_ID AssetCatalog)"
  by (simp add: AssetCatalog_def mk_asset_def)

lemma catalog_lower: "list_all (\<lambda>a. ToLower (a_ID a) = a_ID a \<and> ToLower (a_Symbol a) = a_ID a) AssetCatalog"
  by code_simp

lemma catalog_lower_ids: "a \<in> set AssetCatalog \<Longrightarrow> ToLower (a_ID a) = a_ID a"
  using catalog_lower by (simp add: list_all_iff)

lemma catalog_symbol_id: "a \<in> set AssetCatalog \<Longrightarrow> ToLower (a_Symbol a) = a_ID a"
  using catalog_lower by (simp add: list_all_iff)

lemma catalog_no_address: "a \<in> set AssetCatalog \<Longrightarrow> a_AggregatorAddress a = ''''"
  by (auto simp: AssetCatalog_def mk_asset_def)

lemma catalog_id_inj: "a \<in> set AssetCatalog \<Longrightarrow> b \<in> set AssetCatalog \<Longrightarrow> a_ID a = a_ID b \<Longrightarrow> a = b"
  using catalog_distinct_ids by (simp add: distinct_map inj_on_def)

lemma find_asset_loop_find: "find_asset_loop i as = find (\<lambda>a. a_ID a = i) as"
  by (induction as) simp_all

lemma FindAsset_Some_iff:
  "FindAsset i = Some a \<longleftrightarrow> a \<in> set AssetCatalog \<and> ToLower i = a_ID a"
proof
  assume "FindAsset i = Some a"
  then show "a \<in> set AssetCatalog \<and> ToLower i = a_ID a"
    by (auto simp: FindAsset_def find_asset_loop_find find_Some_iff)
next
  assume "a \<in> set AssetCatalog \<and> ToLower i = a_ID a"
  then show "FindAsset i = Some a"
    using find_distinct_key [OF catalog_distinct_ids, of a]
    by (simp add: FindAsset_def find_asset_loop_find)
qed

lemma FindAsset_lower [simp]: "FindAsset (ToLower i) = FindAsset i"
  by (simp add: FindAsset_def)

lemma FindAsset_catalog: "a \<in> set AssetCatalog \<Longrightarrow> FindAsset (a_ID a) = Some a"
  by (simp add: FindAsset_Some_iff catalog_lower_ids)

lemma FindAsset_None_iff: "FindAsset i = None \<longleftrightarrow> ToLower i \<notin> set AssetIDs"
  by (auto simp: FindAsset_def find_asset_loop_find AssetIDs_def find_None_iff) (metis imageI)

subsection \<open>The two tables are inverse\<close>

lemma init_tables_fill:
  "init_tables keccak as (m, n) =
     (map_fill m (map (\<lambda>a. (a_ID a, asset_hash keccak a)) as),
      map_fill n (map (\<lambda>a. (asset_hash keccak a, a)) as))"
  by (induction as arbitrary: m n) (simp_all add: Let_def)

lemma asset_hash_inj_catalog:
  assumes "keccak_contract keccak"
  shows "distinct (map (asset_hash keccak) AssetCatalog)"
proof -
  have "inj_on (asset_hash keccak) (set AssetCatalog)"
    using assms by (auto simp: keccak_contract_def inj_on_def asset_hash_def distinct_map
        dest: EncodeToString_inj)
  then show ?thesis
    using catalog_distinct_ids by (simp add: distinct_map)
qed

lemma length_asset_hash: "keccak_contract keccak \<Longrightarrow> length (asset_hash keccak a) = 66"
  by (simp add: asset_hash_def keccak_contract_def)

lemma asset_hash_lower: "ToLower (asset_hash keccak a) = asset_hash keccak a"
proof (rule ToLower_id)
  have "\<not> is_upper_byte (CHR ''0'')" and "\<not> is_upper_byte (CHR ''x'')"
    by (simp_all add: is_upper_byte_def byte_val_def)
  then show "list_all (\<lambda>c. \<not> is_upper_byte c) (asset_hash keccak a)"
    by (simp add: asset_hash_def EncodeToString_lower)
qed

lemma asset_hash_trim: "keccak_contract keccak \<Longrightarrow> TrimSpace (asset_hash keccak a) = asset_hash keccak a"
proof (rule TrimSpace_plain)
  let ?e = "EncodeToString (keccak (ToUpper (a_Symbol a)))"
  assume "keccak_contract keccak"
  then have "?e \<noteq> []" by (auto simp: keccak_contract_def simp flip: length_greater_0_conv)
  moreover from this have "plain_byte (last ?e)"
    using EncodeToString_plain [of "keccak (ToUpper (a_Symbol a))"] by (simp add: list_all_iff)
  ultimately show "asset_hash keccak a = [] \<or>
      plain_byte (hd (asset_hash keccak a)) \<and> plain_byte (last (asset_hash keccak a))"
    by (simp add: asset_hash_def plain_byte_def byte_val_def)
qed

lemma AssetIDHash_eq: "AssetIDHash keccak i = map_option (asset_hash keccak) (FindAsset i)"
  by (simp add: AssetIDHash_def assetIDHashByID_def init_tables_fill map_fill_distinct
      catalog_distinct_ids comp_def map_of_map_key FindAsset_def find_asset_loop_find)

lemma AssetByIDHash_Some_iff:
  assumes "keccak_contract keccak"
  shows "AssetByIDHash keccak h = Some a \<longleftrightarrow>
    a \<in> set AssetCatalog \<and> ToLower (TrimSpace h) = asset_hash keccak a"
proof -
  note dist = asset_hash_inj_catalog [OF assms]
  have "AssetByIDHash keccak h = find (\<lambda>a. asset_hash keccak a = ToLower (TrimSpace h)) AssetCatalog"
    by (simp add: AssetByIDHash_def assetByIDHashLower_def init_tables_fill map_fill_distinct
        dist comp_def map_of_map_key option.map_ident)
  then show ?thesis
    using find_distinct_key [OF dist, of a] by (auto simp: find_Some_iff)
qed

lemma AssetByIDHash_hash:
  "keccak_contract keccak \<Longrightarrow> a \<in> set AssetCatalog \<Longrightarrow> AssetByIDHash keccak (asset_hash keccak a) = Some a"
  by (simp add: AssetByIDHash_Some_iff asset_hash_trim asset_hash_lower)

lemma pad32_contract: "keccak_contract pad32"
  by (simp add: keccak_contract_def pad32_def AssetCatalog_def mk_asset_def ToUpper_def upper_byte_def
      is_lower_byte_def byte_val_def min_def)

subsection \<open>Properties\<close>

text \<open>
  Asset resolution is exact and case-insensitive: \<open>FindAsset\<close> returns the one catalog
  entry whose id is the lowercased argument, so every id and every symbol resolves in any case,
  it fails exactly on the ids \<open>AssetIDs\<close> does not list, and \<open>ValidateAssetID\<close> reports an error
  exactly then.
\<close>

theorem asset_resolution:
  "(FindAsset i = Some a \<longleftrightarrow> a \<in> set AssetCatalog \<and> ToLower i \<in> {a_ID a, ToLower (a_Symbol a)})
   \<and> (FindAsset i = None \<longleftrightarrow> ToLower i \<notin> set AssetIDs)
   \<and> (ValidateAssetID i = None \<longleftrightarrow> FindAsset i \<noteq> None)
   \<and> distinct AssetIDs"
proof (intro conjI)
  show "FindAsset i = Some a \<longleftrightarrow> a \<in> set AssetCatalog \<and> ToLower i \<in> {a_ID a, ToLower (a_Symbol a)}"
    by (auto simp: FindAsset_Some_iff catalog_symbol_id)
  show "FindAsset i = None \<longleftrightarrow> ToLower i \<notin> set AssetIDs"
    by (rule FindAsset_None_iff)
  show "ValidateAssetID i = None \<longleftrightarrow> FindAsset i \<noteq> None"
    by (simp add: ValidateAssetID_def split: option.split)
  show "distinct AssetIDs"
    using catalog_distinct_ids by (simp add: AssetIDs_def)
qed



end
