(* ===== verification/Models.thy ===== *)
theory Models
  imports Assets
begin

text \<open>
  The domain types of \<open>internal/models\<close> and their proto-to-domain conversions: \<open>price.go\<close>,
  \<open>event.go\<close>, \<open>request.go\<close>, \<open>submission.go\<close> and \<open>health.go\<close>.

  A proto message pointer is an \<open>option\<close> (\<open>None\<close> is nil) and the generated getters are
  nil-safe, so a getter on \<open>None\<close> gives the field's zero value. A proto enum is an int32 and
  may hold values the schema does not list. \<open>time.Time\<close> is its pair of seconds since
  January 1 of year 1 (an int64) and nanoseconds; \<open>timestamppb.AsTime\<close> is \<open>time.Unix\<close> on the
  two fields, with Go's normalisation of the nanoseconds and its int64 wrap-around.
\<close>

subsection \<open>Time\<close>

record Time =
  t_sec :: i64
  t_nsec :: int

definition zero_Time :: Time where
  "zero_Time = \<lparr>t_sec = 0, t_nsec = 0\<rparr>"

definition unixToInternal :: int where
  "unixToInternal = 62135596800"

text \<open>Go's integer division truncates towards zero.\<close>

definition go_quot :: "int \<Rightarrow> int \<Rightarrow> int" where
  "go_quot a b = sgn a * sgn b * (\<bar>a\<bar> div \<bar>b\<bar>)"

definition unixTime :: "i64 \<Rightarrow> int \<Rightarrow> Time" where
  "unixTime sec nsec = \<lparr>t_sec = sec + word_of_int unixToInternal, t_nsec = nsec\<rparr>"

definition time_Unix :: "i64 \<Rightarrow> int \<Rightarrow> Time" where
  "time_Unix sec nsec =
     (if nsec < 0 \<or> nsec \<ge> 1000000000
      then (let n = go_quot nsec 1000000000;
                sec' = sec + word_of_int n;
                nsec' = nsec - n * 1000000000
            in if nsec' < 0 then unixTime (sec' - 1) (nsec' + 1000000000) else unixTime sec' nsec')
      else unixTime sec nsec)"

record pb_Timestamp =
  ts_seconds :: i64
  ts_nanos :: i32

definition GetSeconds :: "pb_Timestamp option \<Rightarrow> i64" where
  "GetSeconds ts = (case ts of None \<Rightarrow> 0 | Some t \<Rightarrow> ts_seconds t)"

definition GetNanos :: "pb_Timestamp option \<Rightarrow> i32" where
  "GetNanos ts = (case ts of None \<Rightarrow> 0 | Some t \<Rightarrow> ts_nanos t)"

definition AsTime :: "pb_Timestamp option \<Rightarrow> Time" where
  "AsTime ts = time_Unix (GetSeconds ts) (sint (GetNanos ts))"

text \<open>
  The guard shared by \<open>request.go\<close> and \<open>submission.go\<close>:
  \<open>ts != nil && (ts.GetSeconds() != 0 || ts.GetNanos() != 0)\<close>, then a pointer to \<open>ts.AsTime()\<close>.
\<close>

definition time_ptr :: "pb_Timestamp option \<Rightarrow> Time option" where
  "time_ptr ts =
     (if ts \<noteq> None \<and> (GetSeconds ts \<noteq> 0 \<or> GetNanos ts \<noteq> 0) then Some (AsTime ts) else None)"

subsection \<open>Prices\<close>

record pb_SourceContribution =
  psc_source :: string
  psc_price :: float64
  psc_fetched_at :: "pb_Timestamp option"
  psc_source_observed_at :: "pb_Timestamp option"
  psc_age_sec :: i64
  psc_included :: bool

definition zero_pb_SourceContribution :: pb_SourceContribution where
  "zero_pb_SourceContribution =
     \<lparr>psc_source = '''', psc_price = 0, psc_fetched_at = None, psc_source_observed_at = None,
      psc_age_sec = 0, psc_included = False\<rparr>"

record pb_AggregatedPrice =
  pap_asset_id :: string
  pap_median_price :: float64
  pap_aggregated_at :: "pb_Timestamp option"
  pap_sources :: "pb_SourceContribution option list"

record SourceContribution =
  sc_Source :: string
  sc_Price :: float64
  sc_FetchedAt :: Time
  sc_SourceObservedAt :: Time
  sc_AgeSec :: i64
  sc_Included :: bool

text \<open>A Go slice: \<open>None\<close> is the nil slice, which JSON writes as null and not as an empty array.\<close>

type_synonym 'a slice = "'a list option"

record AggregatedPrice =
  ap_AssetID :: string
  ap_MedianPrice :: float64
  ap_AggregatedAt :: Time
  ap_Sources :: "SourceContribution slice"

definition zero_AggregatedPrice :: AggregatedPrice where
  "zero_AggregatedPrice =
     \<lparr>ap_AssetID = '''', ap_MedianPrice = 0, ap_AggregatedAt = zero_Time, ap_Sources = None\<rparr>"

definition SourceContributionFromProto :: "pb_SourceContribution option \<Rightarrow> SourceContribution" where
  "SourceContributionFromProto s0 =
     (let s = (case s0 of None \<Rightarrow> zero_pb_SourceContribution | Some s \<Rightarrow> s)
      in \<lparr>sc_Source = psc_source s,
          sc_Price = psc_price s,
          sc_FetchedAt = AsTime (psc_fetched_at s),
          sc_SourceObservedAt = AsTime (psc_source_observed_at s),
          sc_AgeSec = psc_age_sec s,
          sc_Included = psc_included s\<rparr>)"

definition AggregatedPriceFromProto :: "pb_AggregatedPrice option \<Rightarrow> AggregatedPrice" where
  "AggregatedPriceFromProto p0 =
     (case p0 of
        None \<Rightarrow> zero_AggregatedPrice
      | Some p \<Rightarrow>
          \<lparr>ap_AssetID = pap_asset_id p,
           ap_MedianPrice = pap_median_price p,
           ap_AggregatedAt = AsTime (pap_aggregated_at p),
           ap_Sources = Some (map SourceContributionFromProto (pap_sources p))\<rparr>)"

text \<open>\<open>AssetSummary\<close> embeds \<open>Asset\<close>; pointers are options.\<close>

record AssetSummary =
  as_Asset :: Asset
  as_LatestPrice :: "AggregatedPrice option"
  as_LastOnChainPrice :: string
  as_LastOnChainAt :: "Time option"
  as_LastOnChainTx :: string

record PriceDetail =
  pd_Asset :: Asset
  pd_AggregatedPrice :: AggregatedPrice
  pd_LastOnChainPrice :: string
  pd_LastOnChainAt :: "Time option"
  pd_LastOnChainTx :: string
  pd_LastRoundID :: string
  pd_Sources :: "SourceContribution slice"

subsection \<open>Events\<close>

type_synonym EventKind = string

definition EventKindUnspecified :: EventKind where "EventKindUnspecified = ''''"
definition EventKindPriceRequested :: EventKind where "EventKindPriceRequested = ''PRICE_REQUESTED''"
definition EventKindPriceFulfilled :: EventKind where "EventKindPriceFulfilled = ''PRICE_FULFILLED''"
definition EventKindAssetRegistered :: EventKind where "EventKindAssetRegistered = ''ASSET_REGISTERED''"

type_synonym pb_EventKind = i32

definition EVENT_KIND_UNSPECIFIED :: pb_EventKind where "EVENT_KIND_UNSPECIFIED = 0"
definition EVENT_KIND_PRICE_REQUESTED :: pb_EventKind where "EVENT_KIND_PRICE_REQUESTED = 1"
definition EVENT_KIND_PRICE_FULFILLED :: pb_EventKind where "EVENT_KIND_PRICE_FULFILLED = 2"
definition EVENT_KIND_ASSET_REGISTERED :: pb_EventKind where "EVENT_KIND_ASSET_REGISTERED = 3"

lemmas event_kind_defs =
  EventKindUnspecified_def EventKindPriceRequested_def EventKindPriceFulfilled_def
  EventKindAssetRegistered_def EVENT_KIND_UNSPECIFIED_def EVENT_KIND_PRICE_REQUESTED_def
  EVENT_KIND_PRICE_FULFILLED_def EVENT_KIND_ASSET_REGISTERED_def

definition EventKindFromProto :: "pb_EventKind \<Rightarrow> EventKind" where
  "EventKindFromProto k =
     (if k = EVENT_KIND_PRICE_REQUESTED then EventKindPriceRequested
      else if k = EVENT_KIND_PRICE_FULFILLED then EventKindPriceFulfilled
      else if k = EVENT_KIND_ASSET_REGISTERED then EventKindAssetRegistered
      else if k = EVENT_KIND_UNSPECIFIED then EventKindUnspecified
      else EventKindUnspecified)"

definition EventKindToProto :: "EventKind \<Rightarrow> pb_EventKind" where
  "EventKindToProto k =
     (if k = EventKindPriceRequested then EVENT_KIND_PRICE_REQUESTED
      else if k = EventKindPriceFulfilled then EVENT_KIND_PRICE_FULFILLED
      else if k = EventKindAssetRegistered then EVENT_KIND_ASSET_REGISTERED
      else if k = EventKindUnspecified then EVENT_KIND_UNSPECIFIED
      else EVENT_KIND_UNSPECIFIED)"

record pb_EventMeta =
  pem_contract_address :: string
  pem_tx_hash :: string
  pem_block_hash :: string
  pem_block_number :: u64
  pem_log_index :: u32
  pem_observed_at :: "pb_Timestamp option"
  pem_confirmations :: u32

record EventMeta =
  em_ContractAddress :: string
  em_TxHash :: string
  em_BlockHash :: string
  em_BlockNumber :: u64
  em_LogIndex :: u32
  em_ObservedAt :: Time
  em_Confirmations :: u32

definition zero_EventMeta :: EventMeta where
  "zero_EventMeta =
     \<lparr>em_ContractAddress = '''', em_TxHash = '''', em_BlockHash = '''', em_BlockNumber = 0,
      em_LogIndex = 0, em_ObservedAt = zero_Time, em_Confirmations = 0\<rparr>"

record PriceRequestedEvent =
  pr_ReqID :: string
  pr_AssetID :: string
  pr_Requester :: string

record PriceFulfilledEvent =
  pf_ReqID :: string
  pf_AssetID :: string
  pf_Price :: string
  pf_Timestamp :: string
  pf_RoundID :: string

record AssetRegisteredEvent =
  ar_AssetID :: string
  ar_Aggregator :: string

record pb_PriceRequestedEvent =
  ppr_req_id :: string
  ppr_asset_id :: string
  ppr_requester :: string

record pb_PriceFulfilledEvent =
  ppf_req_id :: string
  ppf_asset_id :: string
  ppf_price :: string
  ppf_timestamp :: string
  ppf_round_id :: string

record pb_AssetRegisteredEvent =
  par_asset_id :: string
  par_aggregator :: string

text \<open>
  The oneof: an interface holding a pointer to a wrapper struct with a message pointer. The
  outer \<open>None\<close> is a nil wrapper pointer, the inner one a nil message.
\<close>

datatype pb_payload =
    Event_PriceRequested "pb_PriceRequestedEvent option option"
  | Event_PriceFulfilled "pb_PriceFulfilledEvent option option"
  | Event_AssetRegistered "pb_AssetRegisteredEvent option option"

record pb_Event =
  pe_meta :: "pb_EventMeta option"
  pe_kind :: pb_EventKind
  pe_payload :: "pb_payload option"

record Event =
  e_Meta :: EventMeta
  e_Kind :: EventKind
  e_PriceRequested :: "PriceRequestedEvent option"
  e_PriceFulfilled :: "PriceFulfilledEvent option"
  e_AssetRegistered :: "AssetRegisteredEvent option"

definition zero_Event :: Event where
  "zero_Event =
     \<lparr>e_Meta = zero_EventMeta, e_Kind = '''', e_PriceRequested = None, e_PriceFulfilled = None,
      e_AssetRegistered = None\<rparr>"

definition eventMetaFromProto :: "pb_EventMeta option \<Rightarrow> EventMeta" where
  "eventMetaFromProto m0 =
     (case m0 of
        None \<Rightarrow> zero_EventMeta
      | Some m \<Rightarrow>
          \<lparr>em_ContractAddress = pem_contract_address m,
           em_TxHash = pem_tx_hash m,
           em_BlockHash = pem_block_hash m,
           em_BlockNumber = pem_block_number m,
           em_LogIndex = pem_log_index m,
           em_ObservedAt = AsTime (pem_observed_at m),
           em_Confirmations = pem_confirmations m\<rparr>)"

definition EventFromProto :: "pb_Event option \<Rightarrow> Event" where
  "EventFromProto e0 =
     (case e0 of
        None \<Rightarrow> zero_Event
      | Some e \<Rightarrow>
          (let out = zero_Event\<lparr>e_Meta := eventMetaFromProto (pe_meta e),
                                e_Kind := EventKindFromProto (pe_kind e)\<rparr>
           in case pe_payload e of
                Some (Event_PriceRequested (Some (Some p))) \<Rightarrow>
                  out\<lparr>e_PriceRequested := Some \<lparr>pr_ReqID = ppr_req_id p,
                                                pr_AssetID = ppr_asset_id p,
                                                pr_Requester = ppr_requester p\<rparr>\<rparr>
              | Some (Event_PriceFulfilled (Some (Some p))) \<Rightarrow>
                  out\<lparr>e_PriceFulfilled := Some \<lparr>pf_ReqID = ppf_req_id p,
                                                pf_AssetID = ppf_asset_id p,
                                                pf_Price = ppf_price p,
                                                pf_Timestamp = ppf_timestamp p,
                                                pf_RoundID = ppf_round_id p\<rparr>\<rparr>
              | Some (Event_AssetRegistered (Some (Some p))) \<Rightarrow>
                  out\<lparr>e_AssetRegistered := Some \<lparr>ar_AssetID = par_asset_id p,
                                                 ar_Aggregator = par_aggregator p\<rparr>\<rparr>
              | _ \<Rightarrow> out))"

subsection \<open>Requests\<close>

type_synonym RequestStatusKind = string

definition RequestStatusUnspecified :: RequestStatusKind where "RequestStatusUnspecified = ''''"
definition RequestStatusPending :: RequestStatusKind where "RequestStatusPending = ''pending''"
definition RequestStatusFulfilled :: RequestStatusKind where "RequestStatusFulfilled = ''fulfilled''"
definition RequestStatusFailed :: RequestStatusKind where "RequestStatusFailed = ''failed''"

text \<open>\<open>RequestStatus_STATUS_*\<close> are 0 to 3, \<open>SubmissionStatus_STATUS_*\<close> are 0 to 5.\<close>

definition RequestStatusFromProto :: "i32 \<Rightarrow> RequestStatusKind" where
  "RequestStatusFromProto s =
     (if s = 1 then RequestStatusPending
      else if s = 2 then RequestStatusFulfilled
      else if s = 3 then RequestStatusFailed
      else if s = 0 then RequestStatusUnspecified
      else RequestStatusUnspecified)"

record pb_RequestStatus =
  prs_req_id :: string
  prs_asset_id :: string
  prs_status :: i32
  prs_requester :: string
  prs_requested_tx_hash :: string
  prs_fulfilled_tx_hash :: string
  prs_fulfilled_price :: string
  prs_requested_at :: "pb_Timestamp option"
  prs_fulfilled_at :: "pb_Timestamp option"

record RequestSummary =
  rs_ReqID :: string
  rs_AssetID :: string
  rs_Status :: RequestStatusKind
  rs_Requester :: string
  rs_RequestedTxHash :: string
  rs_FulfilledTxHash :: string
  rs_FulfilledPrice :: string
  rs_RequestedAt :: "Time option"
  rs_FulfilledAt :: "Time option"

definition zero_RequestSummary :: RequestSummary where
  "zero_RequestSummary =
     \<lparr>rs_ReqID = '''', rs_AssetID = '''', rs_Status = '''', rs_Requester = '''',
      rs_RequestedTxHash = '''', rs_FulfilledTxHash = '''', rs_FulfilledPrice = '''',
      rs_RequestedAt = None, rs_FulfilledAt = None\<rparr>"

definition RequestSummaryFromProto :: "pb_RequestStatus option \<Rightarrow> RequestSummary" where
  "RequestSummaryFromProto r0 =
     (case r0 of
        None \<Rightarrow> zero_RequestSummary
      | Some r \<Rightarrow>
          \<lparr>rs_ReqID = prs_req_id r,
           rs_AssetID = prs_asset_id r,
           rs_Status = RequestStatusFromProto (prs_status r),
           rs_Requester = prs_requester r,
           rs_RequestedTxHash = prs_requested_tx_hash r,
           rs_FulfilledTxHash = prs_fulfilled_tx_hash r,
           rs_FulfilledPrice = prs_fulfilled_price r,
           rs_RequestedAt = time_ptr (prs_requested_at r),
           rs_FulfilledAt = time_ptr (prs_fulfilled_at r)\<rparr>)"

subsection \<open>Submissions\<close>

type_synonym SubmissionStatusKind = string

definition SubmissionStatusUnspecified :: SubmissionStatusKind where "SubmissionStatusUnspecified = ''''"
definition SubmissionStatusPending :: SubmissionStatusKind where "SubmissionStatusPending = ''pending''"
definition SubmissionStatusConfirmed :: SubmissionStatusKind where "SubmissionStatusConfirmed = ''confirmed''"
definition SubmissionStatusFailed :: SubmissionStatusKind where "SubmissionStatusFailed = ''failed''"
definition SubmissionStatusDropped :: SubmissionStatusKind where "SubmissionStatusDropped = ''dropped''"
definition SubmissionStatusExpired :: SubmissionStatusKind where "SubmissionStatusExpired = ''expired''"

lemmas status_defs =
  RequestStatusUnspecified_def RequestStatusPending_def RequestStatusFulfilled_def
  RequestStatusFailed_def SubmissionStatusUnspecified_def SubmissionStatusPending_def
  SubmissionStatusConfirmed_def SubmissionStatusFailed_def SubmissionStatusDropped_def
  SubmissionStatusExpired_def

definition SubmissionStatusKindFromProto :: "i32 \<Rightarrow> SubmissionStatusKind" where
  "SubmissionStatusKindFromProto s =
     (if s = 1 then SubmissionStatusPending
      else if s = 2 then SubmissionStatusConfirmed
      else if s = 3 then SubmissionStatusFailed
      else if s = 4 then SubmissionStatusDropped
      else if s = 5 then SubmissionStatusExpired
      else if s = 0 then SubmissionStatusUnspecified
      else SubmissionStatusUnspecified)"

record pb_SubmissionStatus =
  pss_req_id :: string
  pss_asset_id :: string
  pss_tx_hash :: string
  pss_submitted_price :: string
  pss_submitted_at :: "pb_Timestamp option"
  pss_status :: i32
  pss_retry_count :: u32
  pss_last_error :: string

record SubmissionStatus =
  ss_ReqID :: string
  ss_AssetID :: string
  ss_TxHash :: string
  ss_SubmittedPrice :: string
  ss_SubmittedAt :: "Time option"
  ss_Status :: SubmissionStatusKind
  ss_RetryCount :: u32
  ss_LastError :: string

definition zero_SubmissionStatus :: SubmissionStatus where
  "zero_SubmissionStatus =
     \<lparr>ss_ReqID = '''', ss_AssetID = '''', ss_TxHash = '''', ss_SubmittedPrice = '''',
      ss_SubmittedAt = None, ss_Status = '''', ss_RetryCount = 0, ss_LastError = ''''\<rparr>"

definition SubmissionStatusFromProto :: "pb_SubmissionStatus option \<Rightarrow> SubmissionStatus" where
  "SubmissionStatusFromProto s0 =
     (case s0 of
        None \<Rightarrow> zero_SubmissionStatus
      | Some s \<Rightarrow>
          \<lparr>ss_ReqID = pss_req_id s,
           ss_AssetID = pss_asset_id s,
           ss_TxHash = pss_tx_hash s,
           ss_SubmittedPrice = pss_submitted_price s,
           ss_SubmittedAt = time_ptr (pss_submitted_at s),
           ss_Status = SubmissionStatusKindFromProto (pss_status s),
           ss_RetryCount = pss_retry_count s,
           ss_LastError = pss_last_error s\<rparr>)"

subsection \<open>Health\<close>

record AuthorResponse =
  au_Name :: string
  au_Links :: "(string \<times> string) list"

record HealthResponse =
  hr_Status :: string
  hr_Service :: string
  hr_Version :: string
  hr_Author :: AuthorResponse

subsection \<open>Conversion facts\<close>

lemma go_quot_nonneg: "0 \<le> a \<Longrightarrow> 0 < b \<Longrightarrow> go_quot a b = a div b"
  by (cases "a = 0") (simp_all add: go_quot_def)

lemma go_quot_neg: "a < 0 \<Longrightarrow> 0 < b \<Longrightarrow> go_quot a b = - ((- a) div b)"
  by (simp add: go_quot_def)

text \<open>Go's two-step normalisation is floor division of the nanoseconds.\<close>

lemma time_Unix_floor:
  "time_Unix sec nsec = unixTime (sec + word_of_int (nsec div 1000000000)) (nsec mod 1000000000)"
proof (cases "nsec < 0")
  case True
  define m where "m = (- nsec) mod 1000000000"
  define q where "q = (- nsec) div 1000000000"
  have ns: "nsec = - (q * 1000000000 + m)" and m: "0 \<le> m" "m < 1000000000"
    by (simp_all add: m_def q_def)
  have quot: "go_quot nsec 1000000000 = - q"
    using True by (simp add: go_quot_neg q_def)
  show ?thesis
  proof (cases "m = 0")
    case True
    with ns have "nsec = - q * 1000000000" by simp
    then have "nsec div 1000000000 = - q" and "nsec mod 1000000000 = 0"
      by (simp_all only: nonzero_mult_div_cancel_right mod_mult_self2_is_0 numeral_neq_zero not_False_eq_True)
    with True \<open>nsec < 0\<close> ns quot show ?thesis by (simp add: time_Unix_def Let_def)
  next
    case False
    with m have r: "nsec = 1000000000 * (- q - 1) + (1000000000 - m)" "0 \<le> 1000000000 - m"
        "1000000000 - m < 1000000000"
      by (simp_all add: ns)
    have d: "nsec div 1000000000 = - q - 1" and e: "nsec mod 1000000000 = 1000000000 - m"
      by (rule int_div_pos_eq [OF r], rule int_mod_pos_eq [OF r])
    have "unixTime (sec + word_of_int (nsec div 1000000000)) (nsec mod 1000000000)
        = unixTime (sec + word_of_int (- q) - 1) (1000000000 - m)"
      unfolding d e by (simp add: algebra_simps)
    with False m ns quot \<open>nsec < 0\<close> show ?thesis
      by (simp add: time_Unix_def Let_def)
  qed
next
  case False
  then show ?thesis
    by (cases "nsec < 1000000000")
      (simp_all add: time_Unix_def Let_def go_quot_nonneg minus_div_mult_eq_mod not_less)
qed

lemma sint_word_of_int_in_range:
  "in_int64 x \<Longrightarrow> sint (word_of_int x :: i64) = x"
  by (simp add: sint_sbintrunc' in_int64_def signed_take_bit_int_eq_self)

lemma EventKind_roundtrip_domain:
  "k \<in> {EventKindUnspecified, EventKindPriceRequested, EventKindPriceFulfilled, EventKindAssetRegistered}
     \<longleftrightarrow> EventKindFromProto (EventKindToProto k) = k"
  by (auto simp: EventKindFromProto_def EventKindToProto_def event_kind_defs)

lemma time_ptr_None_iff: "time_ptr ts = None \<longleftrightarrow> GetSeconds ts = 0 \<and> GetNanos ts = 0"
  by (cases ts) (auto simp: time_ptr_def GetSeconds_def GetNanos_def)

lemma AggregatedPriceFromProto_Some [conv_simps]:
  "ap_AssetID (AggregatedPriceFromProto (Some p)) = pap_asset_id p"
  "ap_MedianPrice (AggregatedPriceFromProto (Some p)) = pap_median_price p"
  "ap_Sources (AggregatedPriceFromProto (Some p)) = Some (map SourceContributionFromProto (pap_sources p))"
  by (simp_all add: AggregatedPriceFromProto_def)

lemma EventFromProto_frame [conv_simps]:
  "e_Meta (EventFromProto (Some e)) = eventMetaFromProto (pe_meta e)"
  "e_Kind (EventFromProto (Some e)) = EventKindFromProto (pe_kind e)"
  by (simp_all add: EventFromProto_def Let_def zero_Event_def split: option.split pb_payload.split)

lemma EventKindFromProto_iff:
  "EventKindFromProto k = EventKindPriceRequested \<longleftrightarrow> k = EVENT_KIND_PRICE_REQUESTED"
  "EventKindFromProto k = EventKindPriceFulfilled \<longleftrightarrow> k = EVENT_KIND_PRICE_FULFILLED"
  "EventKindFromProto k = EventKindAssetRegistered \<longleftrightarrow> k = EVENT_KIND_ASSET_REGISTERED"
  by (simp_all add: EventKindFromProto_def event_kind_defs)

lemma submission_status_inj:
  "SubmissionStatusKindFromProto m = SubmissionStatusKindFromProto n
     \<longleftrightarrow> m = n \<or> (m \<notin> {1, 2, 3, 4, 5} \<and> n \<notin> {1, 2, 3, 4, 5})"
  by (cases "m = 1"; cases "m = 2"; cases "m = 3"; cases "m = 4"; cases "m = 5")
    (simp_all add: SubmissionStatusKindFromProto_def status_defs)

lemma request_status_inj:
  "RequestStatusFromProto m = RequestStatusFromProto n
     \<longleftrightarrow> m = n \<or> (m \<notin> {1, 2, 3} \<and> n \<notin> {1, 2, 3})"
  by (cases "m = 1"; cases "m = 2"; cases "m = 3")
    (simp_all add: RequestStatusFromProto_def status_defs)

text \<open>The payload pointer an event's oneof selects, as the kind that goes with it.\<close>

definition payload_kind :: "pb_Event \<Rightarrow> pb_EventKind" where
  "payload_kind e =
     (case pe_payload e of
        Some (Event_PriceRequested (Some (Some _))) \<Rightarrow> EVENT_KIND_PRICE_REQUESTED
      | Some (Event_PriceFulfilled (Some (Some _))) \<Rightarrow> EVENT_KIND_PRICE_FULFILLED
      | Some (Event_AssetRegistered (Some (Some _))) \<Rightarrow> EVENT_KIND_ASSET_REGISTERED
      | _ \<Rightarrow> EVENT_KIND_UNSPECIFIED)"

lemma EventFromProto_pointers:
  "e_PriceRequested (EventFromProto (Some e)) \<noteq> None \<longleftrightarrow> payload_kind e = EVENT_KIND_PRICE_REQUESTED"
  "e_PriceFulfilled (EventFromProto (Some e)) \<noteq> None \<longleftrightarrow> payload_kind e = EVENT_KIND_PRICE_FULFILLED"
  "e_AssetRegistered (EventFromProto (Some e)) \<noteq> None \<longleftrightarrow> payload_kind e = EVENT_KIND_ASSET_REGISTERED"
  by (auto simp: EventFromProto_def payload_kind_def Let_def zero_Event_def event_kind_defs
      split: option.splits pb_payload.splits)

subsection \<open>Properties\<close>

text \<open>
  A protobuf timestamp converts to the same instant: seconds and nanoseconds of the
  resulting time, counted from January 1 of year 1, add up to the timestamp's own plus the fixed
  offset of the Unix epoch, with the nanoseconds normalised, whatever sign the nanos field has,
  as long as the seconds stay clear of the int64 boundary.
\<close>

theorem AsTime_instant:
  assumes "in_int64 (sint (GetSeconds ts) - 3)"
    and "in_int64 (sint (GetSeconds ts) + unixToInternal + 3)"
  shows "sint (t_sec (AsTime ts)) * 1000000000 + t_nsec (AsTime ts)
           = (sint (GetSeconds ts) + unixToInternal) * 1000000000 + sint (GetNanos ts)
         \<and> 0 \<le> t_nsec (AsTime ts) \<and> t_nsec (AsTime ts) < 1000000000"
proof -
  define s where "s = sint (GetSeconds ts)"
  define n where "n = sint (GetNanos ts)"
  have "- (2 ^ 31) \<le> n" "n < 2 ^ 31"
    using sint_range_size [of "GetNanos ts"] by (simp_all add: n_def word_size)
  then have q: "- 3 \<le> n div 1000000000" "n div 1000000000 \<le> 3"
    by simp_all
  with assms have range: "in_int64 (s + n div 1000000000 + unixToInternal)"
    by (simp add: in_int64_def s_def unixToInternal_def)
  have "t_sec (AsTime ts) = word_of_int (s + n div 1000000000 + unixToInternal)"
    by (simp add: AsTime_def time_Unix_floor unixTime_def s_def n_def of_int_add)
  then have sec: "sint (t_sec (AsTime ts)) = s + n div 1000000000 + unixToInternal"
    using range by (simp only: sint_word_of_int_in_range)
  have nsec: "t_nsec (AsTime ts) = n mod 1000000000"
    by (simp add: AsTime_def time_Unix_floor unixTime_def n_def)
  have "(n div 1000000000) * 1000000000 + n mod 1000000000 = n" by simp
  then show ?thesis
    by (simp add: sec nsec algebra_simps flip: s_def n_def)
qed

theorem AsTime_instant_witness:
  "(let ts = Some \<lparr>ts_seconds = 1748345200, ts_nanos = - 5\<rparr>
    in in_int64 (sint (GetSeconds ts) - 3)
       \<and> in_int64 (sint (GetSeconds ts) + unixToInternal + 3)
       \<and> sint (t_sec (AsTime ts)) * 1000000000 + t_nsec (AsTime ts)
           = (sint (GetSeconds ts) + unixToInternal) * 1000000000 + sint (GetNanos ts))"
  using AsTime_instant [of "Some \<lparr>ts_seconds = 1748345200, ts_nanos = - 5\<rparr>"]
  by (simp add: GetSeconds_def GetNanos_def in_int64_def unixToInternal_def)

text \<open>
  The event-kind enum survives the trip through the domain strings for the values of
  the schema, and every other wire value is read as unspecified; the domain kinds survive the
  opposite trip.
\<close>

theorem EventKind_roundtrip:
  "EventKindToProto (EventKindFromProto n) = (if n \<in> {0, 1, 2, 3} then n else 0)
   \<and> (EventKindFromProto (EventKindToProto k) = k \<longleftrightarrow>
        k \<in> {EventKindUnspecified, EventKindPriceRequested, EventKindPriceFulfilled,
              EventKindAssetRegistered})"
  by (auto simp: EventKindFromProto_def EventKindToProto_def event_kind_defs)

text \<open>
  A converted event carries exactly the payload its oneof selects: at most one of the
  three payload pointers is set, and where the upstream keeps its promise that the kind mirrors the
  oneof, the domain kind names that pointer.
\<close>

theorem EventFromProto_payload:
  assumes "payload_kind e = pe_kind e"
  shows "(e_PriceRequested (EventFromProto (Some e)) \<noteq> None
            \<longleftrightarrow> e_Kind (EventFromProto (Some e)) = EventKindPriceRequested)
       \<and> (e_PriceFulfilled (EventFromProto (Some e)) \<noteq> None
            \<longleftrightarrow> e_Kind (EventFromProto (Some e)) = EventKindPriceFulfilled)
       \<and> (e_AssetRegistered (EventFromProto (Some e)) \<noteq> None
            \<longleftrightarrow> e_Kind (EventFromProto (Some e)) = EventKindAssetRegistered)"
  using assms by (simp only: EventFromProto_pointers EventFromProto_frame EventKindFromProto_iff simp_thms)

theorem EventFromProto_payload_witness:
  "(let e = \<lparr>pe_meta = None, pe_kind = 3,
             pe_payload = Some (Event_AssetRegistered
               (Some (Some \<lparr>par_asset_id = ''0xab'', par_aggregator = ''0xcd''\<rparr>)))\<rparr>
    in payload_kind e = pe_kind e
       \<and> (e_AssetRegistered (EventFromProto (Some e)) \<noteq> None
            \<longleftrightarrow> e_Kind (EventFromProto (Some e)) = EventKindAssetRegistered))"
  using EventFromProto_payload [of "\<lparr>pe_meta = None, pe_kind = 3,
             pe_payload = Some (Event_AssetRegistered
               (Some (Some \<lparr>par_asset_id = ''0xab'', par_aggregator = ''0xcd''\<rparr>)))\<rparr>"]
  by (simp add: payload_kind_def event_kind_defs Let_def)

text \<open>
  A submission's or request's time pointer is nil exactly for an absent or zero
  timestamp, and every domain status string except the empty one comes from one wire value only.
\<close>

theorem status_conversion_faithful:
  "(ss_SubmittedAt (SubmissionStatusFromProto (Some s)) = None
      \<longleftrightarrow> GetSeconds (pss_submitted_at s) = 0 \<and> GetNanos (pss_submitted_at s) = 0)
   \<and> (rs_FulfilledAt (RequestSummaryFromProto (Some r)) = None
      \<longleftrightarrow> GetSeconds (prs_fulfilled_at r) = 0 \<and> GetNanos (prs_fulfilled_at r) = 0)
   \<and> (SubmissionStatusKindFromProto m = SubmissionStatusKindFromProto n
      \<longleftrightarrow> m = n \<or> (m \<notin> {1, 2, 3, 4, 5} \<and> n \<notin> {1, 2, 3, 4, 5}))
   \<and> (RequestStatusFromProto m = RequestStatusFromProto n
      \<longleftrightarrow> m = n \<or> (m \<notin> {1, 2, 3} \<and> n \<notin> {1, 2, 3}))"
  by (intro conjI submission_status_inj request_status_inj)
    (simp_all add: SubmissionStatusFromProto_def RequestSummaryFromProto_def time_ptr_None_iff)

end
