(* ===== verification/Go_Duration.thy ===== *)
theory Go_Duration
  imports Go_Strings
begin

text \<open>
  Go's \<open>time.ParseDuration\<close>, the reader of every timeout, keep-alive and backoff string of the
  configuration: an optional sign, then one or more numbers with an optional fraction and a unit.
  The result is a nanosecond count; \<open>None\<close> is an error. The nanoseconds of a fraction are
  computed exactly and rounded down, where Go multiplies float64 values, so the last nanosecond
  of a fraction may differ.
\<close>

definition duration_unit :: "string \<Rightarrow> nat option" where
  "duration_unit u =
     (if u = ''ns'' then Some 1
      else if u = ''us'' \<or> u = [CHR 0xC2, CHR 0xB5] @ ''s'' \<or> u = [CHR 0xCE, CHR 0xBC] @ ''s'' then Some 1000
      else if u = ''ms'' then Some 1000000
      else if u = ''s'' then Some 1000000000
      else if u = ''m'' then Some 60000000000
      else if u = ''h'' then Some 3600000000000
      else None)"

definition num_byte :: "char \<Rightarrow> bool" where
  "num_byte c \<longleftrightarrow> c = CHR ''.'' \<or> is_digit_byte c"

text \<open>One component: \<open>(nanoseconds, rest)\<close>.\<close>

definition duration_part :: "string \<Rightarrow> (nat \<times> string) option" where
  "duration_part s =
     (let ds = takeWhile is_digit_byte s;
          r1 = dropWhile is_digit_byte s;
          dot = (r1 \<noteq> [] \<and> hd r1 = CHR ''.'');
          fs = (if dot then takeWhile is_digit_byte (tl r1) else []);
          r2 = (if dot then dropWhile is_digit_byte (tl r1) else r1);
          u = takeWhile (\<lambda>c. \<not> num_byte c) r2;
          r3 = dropWhile (\<lambda>c. \<not> num_byte c) r2;
          v = dec_val 0 ds
      in if ds = [] \<and> fs = [] \<or> v > 2 ^ 63 then None
         else case duration_unit u of
           None \<Rightarrow> None
         | Some unit \<Rightarrow>
             if v > 2 ^ 63 div unit then None
             else (let w = v * unit + dec_val 0 fs * unit div 10 ^ length fs
                   in if w > 2 ^ 63 then None else Some (w, r3)))"

text \<open>The loop; every component consumes at least one byte, so the length of the input is fuel enough.\<close>

fun duration_loop :: "nat \<Rightarrow> nat \<Rightarrow> string \<Rightarrow> nat option" where
  "duration_loop fuel d [] = Some d"
| "duration_loop 0 d (c # cs) = None"
| "duration_loop (Suc fuel) d (c # cs) =
     (if \<not> num_byte c then None
      else case duration_part (c # cs) of
        None \<Rightarrow> None
      | Some (v, r) \<Rightarrow> (if d + v > 2 ^ 63 then None else duration_loop fuel (d + v) r))"

definition ParseDuration :: "string \<Rightarrow> int option" where
  "ParseDuration s0 =
     (let neg = (s0 \<noteq> [] \<and> hd s0 = CHR ''-'');
          s = (if s0 \<noteq> [] \<and> (hd s0 = CHR ''-'' \<or> hd s0 = CHR ''+'') then tl s0 else s0)
      in if s = ''0'' then Some 0
         else if s = [] then None
         else case duration_loop (length s) 0 s of
           None \<Rightarrow> None
         | Some d \<Rightarrow> (if neg then Some (- int d) else if d > 2 ^ 63 - 1 then None else Some (int d)))"

subsection \<open>Facts\<close>

lemma duration_unit_pos: "duration_unit u = Some n \<Longrightarrow> 0 < n \<and> u \<noteq> []"
  by (auto simp: duration_unit_def split: if_splits)

lemma length_dropWhile_tl: "length (dropWhile P (tl xs)) \<le> length xs"
  using length_dropWhile_le [of P "tl xs"] by simp

lemma duration_part_shrinks:
  assumes "duration_part s = Some (v, r)"
  shows "length r < length s"
proof -
  define r1 where "r1 = dropWhile is_digit_byte s"
  define r2 where "r2 = (if r1 \<noteq> [] \<and> hd r1 = CHR ''.'' then dropWhile is_digit_byte (tl r1) else r1)"
  have le: "length r2 \<le> length s"
    using length_dropWhile_le [of is_digit_byte s] length_dropWhile_tl [of is_digit_byte r1]
    by (auto simp: r2_def r1_def)
  have "takeWhile (\<lambda>c. \<not> num_byte c) r2 \<noteq> []" and r: "r = dropWhile (\<lambda>c. \<not> num_byte c) r2"
    using assms duration_unit_pos
    by (auto simp: duration_part_def Let_def r2_def r1_def split: option.splits if_splits)
  then have "length r < length r2"
    by (metis append_Nil length_append less_add_same_cancel2 length_greater_0_conv takeWhile_dropWhile_id)
  with le show ?thesis by simp
qed

text \<open>Enough fuel: more fuel than the input is long never changes the result.\<close>

lemma duration_loop_fuel:
  "length s \<le> fuel \<Longrightarrow> length s \<le> fuel' \<Longrightarrow> duration_loop fuel d s = duration_loop fuel' d s"
proof (induction fuel arbitrary: fuel' d s)
  case 0
  then show ?case by simp
next
  case (Suc fuel)
  show ?case
  proof (cases s)
    case (Cons c cs)
    with Suc.prems obtain g where g: "fuel' = Suc g" by (cases fuel') auto
    have "duration_loop fuel e r = duration_loop g e r" if "duration_part s = Some (v, r)" for v r e
      using Suc.IH [of r g e] Suc.prems duration_part_shrinks [OF that] by (simp add: g)
    then show ?thesis by (auto simp: Cons g split: option.split)
  qed simp
qed

lemma duration_loop_bound: "duration_loop fuel d s = Some r \<Longrightarrow> d \<le> 2 ^ 63 \<Longrightarrow> r \<le> 2 ^ 63"
  by (induction fuel d s rule: duration_loop.induct) (auto split: if_splits option.splits)

lemma ParseDuration_range: "ParseDuration s = Some d \<Longrightarrow> in_int64 d"
proof -
  assume d: "ParseDuration s = Some d"
  have le: "n \<le> 2 ^ 63" if "duration_loop k 0 t = Some n" for k t n
    using duration_loop_bound [OF that] by simp
  from d show ?thesis
    by (auto simp: ParseDuration_def Let_def in_int64_def split: if_splits option.splits dest!: le)
qed

lemma ParseDuration_defaults:
  "ParseDuration ''15s'' = Some 15000000000"
  "ParseDuration ''60s'' = Some 60000000000"
  "ParseDuration ''30s'' = Some 30000000000"
  "ParseDuration ''10s'' = Some 10000000000"
  "ParseDuration ''5s'' = Some 5000000000"
  by (simp_all add: ParseDuration_def duration_part_def duration_unit_def num_byte_def
      is_digit_byte_def byte_val_def Let_def)

end
