(* ===== verification/Config.thy ===== *)
theory Config
  imports Go_Duration
begin

text \<open>
  The configuration of \<open>config/scheme.go\<close> and its defaults of \<open>config/init.go\<close>. \<open>Unmarshal\<close>
  reads a scheme out of a key/value store by the \<open>mapstructure\<close> tags of the structs; the store
  stands for viper after defaults, file, environment and flags are merged, with every value
  already converted to its field's type.
\<close>

subsection \<open>Scheme\<close>

record HTTPConfig =
  http_Host :: string
  http_Port :: int
  http_ReadTimeout :: string
  http_WriteTimeout :: string
  http_IdleTimeout :: string
  http_CORSOrigins :: "string list"
  http_CORSAllowAll :: bool
  http_TrustedProxies :: "string list"

record HealthzConfig =
  hz_Host :: string
  hz_Port :: int

record RedisConfig =
  redis_Addr :: string
  redis_Password :: string
  redis_DB :: int

record KeepAliveConfig =
  ka_Time :: string
  ka_Timeout :: string
  ka_PermitWithoutStream :: bool

record SubscribeConfig =
  sub_AssetIDs :: "string list"
  sub_ReconnectBackoff :: string

record GRPCClientConfig =
  g_PriceServiceAddr :: string
  g_IndexerServiceAddr :: string
  g_OracleServiceAddr :: string
  g_DialTimeout :: string
  g_KeepAlive :: KeepAliveConfig
  g_UseTLS :: bool
  g_Subscribe :: SubscribeConfig

record RateLimitConfig =
  rl_Enabled :: bool
  rl_RequestsPerMinute :: int
  rl_BurstSize :: int

record AuthorConfig =
  author_Name :: string
  author_Links :: "(string \<times> string) list"

record TelemetryConfig =
  tel_LogLevel :: string
  tel_LogFormat :: string

record Scheme =
  s_HTTP :: HTTPConfig
  s_Healthz :: HealthzConfig
  s_Redis :: RedisConfig
  s_GRPCClient :: GRPCClientConfig
  s_RateLimit :: RateLimitConfig
  s_Author :: AuthorConfig
  s_Telemetry :: TelemetryConfig
  s_Env :: string

subsection \<open>Validation\<close>

text \<open>One entry per failed check, in the order of the checks; \<open>errors.Join\<close> of none is nil.\<close>

definition validate_errs :: "Scheme \<Rightarrow> go_error list" where
  "validate_errs s =
     (let hp = http_Port (s_HTTP s); zp = hz_Port (s_Healthz s); g = s_GRPCClient s; rl = s_RateLimit s
      in
      (if hp \<le> 0 \<or> hp > 65535
       then [ErrText (''http.port must be between 1 and 65535, got '' @ Itoa hp)] else []) @
      (if zp \<le> 0 \<or> zp > 65535
       then [ErrText (''healthz.port must be between 1 and 65535, got '' @ Itoa zp)] else []) @
      (if hp = zp
       then [ErrText (''http.port and healthz.port must differ (both = '' @ Itoa hp @ '')'')] else []) @
      (if redis_Addr (s_Redis s) = '''' then [ErrText ''redis.addr is required''] else []) @
      (if g_PriceServiceAddr g = '''' then [ErrText ''grpc_client.price_service_addr is required''] else []) @
      (if g_IndexerServiceAddr g = '''' then [ErrText ''grpc_client.indexer_service_addr is required''] else []) @
      (if g_OracleServiceAddr g = '''' then [ErrText ''grpc_client.oracle_service_addr is required''] else []) @
      (if rl_Enabled rl \<and> rl_RequestsPerMinute rl \<le> 0
       then [ErrText (''rate_limit.requests_per_minute must be > 0 when enabled, got ''
                      @ Itoa (rl_RequestsPerMinute rl))] else []) @
      (if author_Name (s_Author s) = ''''
       then [ErrText ''author.name is required (drives the /api/v1/health credential block)''] else []))"

definition errors_Join :: "go_error list \<Rightarrow> go_error option" where
  "errors_Join es = (if es = [] then None else Some (ErrJoin es))"

definition Validate :: "Scheme \<Rightarrow> go_error option" where
  "Validate s = errors_Join (validate_errs s)"

subsection \<open>Defaults\<close>

datatype cfg_value =
    VString string
  | VInt int
  | VBool bool
  | VStrings "string list"
  | VMap "(string \<times> string) list"

definition setDefaults :: "(string \<times> cfg_value) list" where
  "setDefaults =
     [(''env'', VString ''prod''),
      (''http.host'', VString ''0.0.0.0''),
      (''http.port'', VInt 8080),
      (''http.read_timeout'', VString ''15s''),
      (''http.write_timeout'', VString ''15s''),
      (''http.idle_timeout'', VString ''60s''),
      (''http.cors_origins'', VStrings []),
      (''http.cors_allow_all'', VBool False),
      (''http.trusted_proxies'', VStrings []),
      (''healthz.host'', VString ''0.0.0.0''),
      (''healthz.port'', VInt 8081),
      (''redis.addr'', VString ''localhost:6379''),
      (''redis.password'', VString ''''),
      (''redis.db'', VInt 0),
      (''grpc_client.price_service_addr'', VString ''localhost:50051''),
      (''grpc_client.indexer_service_addr'', VString ''localhost:50052''),
      (''grpc_client.oracle_service_addr'', VString ''localhost:50053''),
      (''grpc_client.dial_timeout'', VString ''10s''),
      (''grpc_client.use_tls'', VBool False),
      (''grpc_client.keep_alive.time'', VString ''30s''),
      (''grpc_client.keep_alive.timeout'', VString ''10s''),
      (''grpc_client.keep_alive.permit_without_stream'', VBool True),
      (''grpc_client.subscribe.asset_ids'', VStrings []),
      (''grpc_client.subscribe.reconnect_backoff'', VString ''5s''),
      (''rate_limit.enabled'', VBool True),
      (''rate_limit.requests_per_minute'', VInt 60),
      (''rate_limit.burst_size'', VInt 10),
      (''author.name'', VString ''''),
      (''author.links'', VMap []),
      (''telemetry.log_level'', VString ''info''),
      (''telemetry.log_format'', VString ''json'')]"

definition get_string :: "(string \<rightharpoonup> cfg_value) \<Rightarrow> string \<Rightarrow> string" where
  "get_string st k = (case st k of Some (VString v) \<Rightarrow> v | _ \<Rightarrow> '''')"

definition get_int :: "(string \<rightharpoonup> cfg_value) \<Rightarrow> string \<Rightarrow> int" where
  "get_int st k = (case st k of Some (VInt v) \<Rightarrow> v | _ \<Rightarrow> 0)"

definition get_bool :: "(string \<rightharpoonup> cfg_value) \<Rightarrow> string \<Rightarrow> bool" where
  "get_bool st k = (case st k of Some (VBool v) \<Rightarrow> v | _ \<Rightarrow> False)"

definition get_strings :: "(string \<rightharpoonup> cfg_value) \<Rightarrow> string \<Rightarrow> string list" where
  "get_strings st k = (case st k of Some (VStrings v) \<Rightarrow> v | _ \<Rightarrow> [])"

definition get_map :: "(string \<rightharpoonup> cfg_value) \<Rightarrow> string \<Rightarrow> (string \<times> string) list" where
  "get_map st k = (case st k of Some (VMap v) \<Rightarrow> v | _ \<Rightarrow> [])"

lemmas get_defs = get_string_def get_int_def get_bool_def get_strings_def get_map_def

definition Unmarshal :: "(string \<rightharpoonup> cfg_value) \<Rightarrow> Scheme" where
  "Unmarshal st =
     \<lparr>s_HTTP = \<lparr>http_Host = get_string st ''http.host'', http_Port = get_int st ''http.port'',
                http_ReadTimeout = get_string st ''http.read_timeout'',
                http_WriteTimeout = get_string st ''http.write_timeout'',
                http_IdleTimeout = get_string st ''http.idle_timeout'',
                http_CORSOrigins = get_strings st ''http.cors_origins'',
                http_CORSAllowAll = get_bool st ''http.cors_allow_all'',
                http_TrustedProxies = get_strings st ''http.trusted_proxies''\<rparr>,
      s_Healthz = \<lparr>hz_Host = get_string st ''healthz.host'', hz_Port = get_int st ''healthz.port''\<rparr>,
      s_Redis = \<lparr>redis_Addr = get_string st ''redis.addr'', redis_Password = get_string st ''redis.password'',
                 redis_DB = get_int st ''redis.db''\<rparr>,
      s_GRPCClient =
        \<lparr>g_PriceServiceAddr = get_string st ''grpc_client.price_service_addr'',
         g_IndexerServiceAddr = get_string st ''grpc_client.indexer_service_addr'',
         g_OracleServiceAddr = get_string st ''grpc_client.oracle_service_addr'',
         g_DialTimeout = get_string st ''grpc_client.dial_timeout'',
         g_KeepAlive = \<lparr>ka_Time = get_string st ''grpc_client.keep_alive.time'',
                        ka_Timeout = get_string st ''grpc_client.keep_alive.timeout'',
                        ka_PermitWithoutStream = get_bool st ''grpc_client.keep_alive.permit_without_stream''\<rparr>,
         g_UseTLS = get_bool st ''grpc_client.use_tls'',
         g_Subscribe = \<lparr>sub_AssetIDs = get_strings st ''grpc_client.subscribe.asset_ids'',
                        sub_ReconnectBackoff = get_string st ''grpc_client.subscribe.reconnect_backoff''\<rparr>\<rparr>,
      s_RateLimit = \<lparr>rl_Enabled = get_bool st ''rate_limit.enabled'',
                     rl_RequestsPerMinute = get_int st ''rate_limit.requests_per_minute'',
                     rl_BurstSize = get_int st ''rate_limit.burst_size''\<rparr>,
      s_Author = \<lparr>author_Name = get_string st ''author.name'', author_Links = get_map st ''author.links''\<rparr>,
      s_Telemetry = \<lparr>tel_LogLevel = get_string st ''telemetry.log_level'',
                     tel_LogFormat = get_string st ''telemetry.log_format''\<rparr>,
      s_Env = get_string st ''env''\<rparr>"

subsection \<open>The default scheme\<close>

lemma default_scheme:
  "Unmarshal (map_of setDefaults) =
     \<lparr>s_HTTP = \<lparr>http_Host = ''0.0.0.0'', http_Port = 8080, http_ReadTimeout = ''15s'',
                http_WriteTimeout = ''15s'', http_IdleTimeout = ''60s'', http_CORSOrigins = [],
                http_CORSAllowAll = False, http_TrustedProxies = []\<rparr>,
      s_Healthz = \<lparr>hz_Host = ''0.0.0.0'', hz_Port = 8081\<rparr>,
      s_Redis = \<lparr>redis_Addr = ''localhost:6379'', redis_Password = '''', redis_DB = 0\<rparr>,
      s_GRPCClient =
        \<lparr>g_PriceServiceAddr = ''localhost:50051'', g_IndexerServiceAddr = ''localhost:50052'',
         g_OracleServiceAddr = ''localhost:50053'', g_DialTimeout = ''10s'',
         g_KeepAlive = \<lparr>ka_Time = ''30s'', ka_Timeout = ''10s'', ka_PermitWithoutStream = True\<rparr>,
         g_UseTLS = False,
         g_Subscribe = \<lparr>sub_AssetIDs = [], sub_ReconnectBackoff = ''5s''\<rparr>\<rparr>,
      s_RateLimit = \<lparr>rl_Enabled = True, rl_RequestsPerMinute = 60, rl_BurstSize = 10\<rparr>,
      s_Author = \<lparr>author_Name = '''', author_Links = []\<rparr>,
      s_Telemetry = \<lparr>tel_LogLevel = ''info'', tel_LogFormat = ''json''\<rparr>,
      s_Env = ''prod''\<rparr>"
  by code_simp

lemma Unmarshal_author:
  "Unmarshal (st(''author.name'' \<mapsto> VString n))
     = (Unmarshal st)\<lparr>s_Author := \<lparr>author_Name = n, author_Links = get_map st ''author.links''\<rparr>\<rparr>"
  by (simp add: Unmarshal_def get_defs)

subsection \<open>Properties\<close>

lemma errors_Join_None [simp]: "errors_Join es = None \<longleftrightarrow> es = []"
  by (simp add: errors_Join_def)

lemma cond_list_Nil [simp]: "(if P then [x] else []) = [] \<longleftrightarrow> \<not> P"
  by simp

text \<open>
  Validation accepts a scheme exactly when both ports are TCP ports and differ, the
  Redis and the three upstream addresses are set, an enabled rate limit has a positive rate, and
  the author's name is set. (The burst size is not checked.)
\<close>

theorem Validate_ok_iff:
  "Validate s = None \<longleftrightarrow>
     http_Port (s_HTTP s) \<in> {1..65535} \<and> hz_Port (s_Healthz s) \<in> {1..65535}
     \<and> http_Port (s_HTTP s) \<noteq> hz_Port (s_Healthz s)
     \<and> redis_Addr (s_Redis s) \<noteq> ''''
     \<and> g_PriceServiceAddr (s_GRPCClient s) \<noteq> '''' \<and> g_IndexerServiceAddr (s_GRPCClient s) \<noteq> ''''
     \<and> g_OracleServiceAddr (s_GRPCClient s) \<noteq> ''''
     \<and> (if rl_Enabled (s_RateLimit s) then rl_RequestsPerMinute (s_RateLimit s) > 0 else True)
     \<and> author_Name (s_Author s) \<noteq> ''''"
  unfolding Validate_def errors_Join_None validate_errs_def Let_def append_is_Nil_conv cond_list_Nil
  by auto

text \<open>
  The registered defaults cover every key the scheme reads, so nothing but the
  author's name has to be supplied: the scheme they decode to fails validation only on
  \<open>author.name\<close>, and passes once that key holds any non-empty string; all its durations parse.
\<close>

theorem defaults_need_only_author:
  "validate_errs (Unmarshal (map_of setDefaults))
     = [ErrText ''author.name is required (drives the /api/v1/health credential block)'']
   \<and> (Validate (Unmarshal ((map_of setDefaults)(''author.name'' \<mapsto> VString n))) = None \<longleftrightarrow> n \<noteq> '''')
   \<and> list_all (\<lambda>s. ParseDuration s \<noteq> None)
       [http_ReadTimeout (s_HTTP (Unmarshal (map_of setDefaults))),
        http_WriteTimeout (s_HTTP (Unmarshal (map_of setDefaults))),
        http_IdleTimeout (s_HTTP (Unmarshal (map_of setDefaults))),
        ka_Time (g_KeepAlive (s_GRPCClient (Unmarshal (map_of setDefaults)))),
        ka_Timeout (g_KeepAlive (s_GRPCClient (Unmarshal (map_of setDefaults)))),
        sub_ReconnectBackoff (g_Subscribe (s_GRPCClient (Unmarshal (map_of setDefaults))))]"
  by (simp add: Validate_def validate_errs_def Unmarshal_author default_scheme ParseDuration_defaults)

end
