(* ===== verification/Clients.thy ===== *)
theory Clients
  imports Models Config
begin

text \<open>
  The gRPC client wrappers \<open>internal/priceclient\<close>, \<open>internal/indexerclient\<close> and
  \<open>internal/oracleclient\<close> with the dial options of \<open>internal/grpcdial\<close>.

  The generated stubs and \<open>grpc.NewClient\<close> are parameters: a unary stub is a function from the
  request to an error or a response message, a server stream is the sequence of results its
  \<open>Recv\<close> returns, and the end of that sequence means that the next \<open>Recv\<close> has not returned yet.
\<close>

subsection \<open>Dial options\<close>

datatype dial_option =
    WithKeepaliveParams int int bool
  | WithTLS_MinVersion12
  | WithInsecure

definition parse_or :: "string \<Rightarrow> string \<Rightarrow> int go_result" where
  "parse_or what s =
     (case ParseDuration s of
        None \<Rightarrow> Inl (ErrWrap what (ErrText ''time: invalid duration''))
      | Some d \<Rightarrow> Inr d)"

definition grpcdial_Options :: "GRPCClientConfig \<Rightarrow> dial_option list go_result" where
  "grpcdial_Options cfg =
     (case parse_or ''parse grpc_client.keep_alive.time'' (ka_Time (g_KeepAlive cfg)) of
        Inl e \<Rightarrow> Inl e
      | Inr keepAliveTime \<Rightarrow>
          (case parse_or ''parse grpc_client.keep_alive.timeout'' (ka_Timeout (g_KeepAlive cfg)) of
             Inl e \<Rightarrow> Inl e
           | Inr keepAliveTimeout \<Rightarrow>
               Inr ([WithKeepaliveParams keepAliveTime keepAliveTimeout
                       (ka_PermitWithoutStream (g_KeepAlive cfg))]
                    @ (if g_UseTLS cfg then [WithTLS_MinVersion12] else [WithInsecure]))))"

text \<open>The body the three \<open>Dial\<close> functions share, with their address and their names.\<close>

type_synonym 'conn new_client = "string \<Rightarrow> dial_option list \<Rightarrow> 'conn go_result"

definition dial_with ::
  "string \<Rightarrow> string \<Rightarrow> string \<Rightarrow> 'conn new_client \<Rightarrow> GRPCClientConfig \<Rightarrow> string \<Rightarrow> 'conn go_result" where
  "dial_with key client service newClient cfg addr =
     (if addr = '''' then Inl (ErrText (key @ '' is required''))
      else case grpcdial_Options cfg of
        Inl e \<Rightarrow> Inl (ErrWrap (client @ '' dial options'') e)
      | Inr opts \<Rightarrow>
          (case newClient addr opts of
             Inl e \<Rightarrow> Inl (ErrWrap (''dial '' @ service @ '' at '' @ addr) e)
           | Inr conn \<Rightarrow> Inr conn))"

definition price_Dial :: "'conn new_client \<Rightarrow> GRPCClientConfig \<Rightarrow> 'conn go_result" where
  "price_Dial nc cfg =
     dial_with ''price_service_addr'' ''price-client'' ''price-service'' nc cfg (g_PriceServiceAddr cfg)"

definition indexer_Dial :: "'conn new_client \<Rightarrow> GRPCClientConfig \<Rightarrow> 'conn go_result" where
  "indexer_Dial nc cfg =
     dial_with ''indexer_service_addr'' ''indexer-client'' ''indexer-service'' nc cfg (g_IndexerServiceAddr cfg)"

definition oracle_Dial :: "'conn new_client \<Rightarrow> GRPCClientConfig \<Rightarrow> 'conn go_result" where
  "oracle_Dial nc cfg =
     dial_with ''oracle_service_addr'' ''oracle-client'' ''oracle-service'' nc cfg (g_OracleServiceAddr cfg)"

text \<open>\<open>Close\<close> of the three clients: nothing without a connection, else the connection's \<open>Close\<close>.\<close>

definition price_Close :: "('conn \<Rightarrow> 's action) \<Rightarrow> 'conn option \<Rightarrow> 's action" where
  "price_Close close conn s = (case conn of None \<Rightarrow> (None, s) | Some c \<Rightarrow> close c s)"

definition indexer_Close :: "('conn \<Rightarrow> 's action) \<Rightarrow> 'conn option \<Rightarrow> 's action" where
  "indexer_Close close conn s = (case conn of None \<Rightarrow> (None, s) | Some c \<Rightarrow> close c s)"

definition oracle_Close :: "('conn \<Rightarrow> 's action) \<Rightarrow> 'conn option \<Rightarrow> 's action" where
  "oracle_Close close conn s = (case conn of None \<Rightarrow> (None, s) | Some c \<Rightarrow> close c s)"

subsection \<open>Streams\<close>

type_synonym 'm stream = "'m go_result list"

text \<open>
  How a streaming call stands: the \<open>Recv\<close> loop is still waiting, or it has returned a Go error
  value (\<open>None\<close> is nil).
\<close>

datatype call_status = Waiting | Returned "go_error option"

text \<open>
  The loop of \<open>Subscribe\<close> and \<open>StreamEvents\<close>: \<open>conv\<close> is the conversion, \<open>onMsg\<close> the callback as a
  state transformer (\<open>None\<close> is a nil callback).
\<close>

fun recv_loop :: "string \<Rightarrow> ('m \<Rightarrow> 'd) \<Rightarrow> ('d \<Rightarrow> 's \<Rightarrow> 's) option \<Rightarrow> 'm stream \<Rightarrow> 's \<Rightarrow> 's \<times> call_status" where
  "recv_loop what conv onMsg [] s = (s, Waiting)"
| "recv_loop what conv onMsg (Inl err # rs) s =
     (if errors_Is err IO_EOF then (s, Returned None)
      else if errors_Is err Context_Canceled \<or> errors_Is err Context_DeadlineExceeded
           then (s, Returned None)
      else (s, Returned (Some (ErrWrap what err))))"
| "recv_loop what conv onMsg (Inr msg # rs) s =
     recv_loop what conv onMsg rs (case onMsg of None \<Rightarrow> s | Some f \<Rightarrow> f (conv msg) s)"

subsection \<open>Price client\<close>

record price_stub =
  ps_GetPrice :: "string \<Rightarrow> pb_AggregatedPrice option go_result"
  ps_Subscribe :: "string list \<Rightarrow> pb_AggregatedPrice option stream go_result"

definition price_GetPrice :: "price_stub \<Rightarrow> string \<Rightarrow> AggregatedPrice go_result" where
  "price_GetPrice c assetID =
     (case ps_GetPrice c assetID of
        Inl err \<Rightarrow>
          (if status_FromError err = Some C_NotFound then Inl (ErrSentinel Price_ErrNotFound)
           else Inl (ErrWrap (''price.GetPrice('' @ assetID @ '')'') err))
      | Inr resp \<Rightarrow> Inr (AggregatedPriceFromProto resp))"

definition price_Subscribe ::
  "price_stub \<Rightarrow> string list \<Rightarrow> (AggregatedPrice \<Rightarrow> 's \<Rightarrow> 's) option \<Rightarrow> 's \<Rightarrow> 's \<times> call_status" where
  "price_Subscribe c assetIDs onMsg s =
     (if assetIDs = [] then (s, Returned (Some (ErrText ''subscribe requires at least one asset id'')))
      else case ps_Subscribe c assetIDs of
        Inl err \<Rightarrow> (s, Returned (Some (ErrWrap ''price.Subscribe'' err)))
      | Inr strm \<Rightarrow> recv_loop ''price.Subscribe.Recv'' AggregatedPriceFromProto onMsg strm s)"

subsection \<open>Pagination\<close>

record Page =
  pg_Number :: i32
  pg_Size :: i32

record PageInfo =
  pi_Number :: i32
  pi_Size :: i32
  pi_TotalItems :: i64
  pi_TotalPages :: i32

record pb_PageResponse =
  ppr_total_count :: i32
  ppr_page :: i32
  ppr_page_size :: i32
  ppr_total_pages :: i32

definition zero_PageInfo :: PageInfo where
  "zero_PageInfo = \<lparr>pi_Number = 0, pi_Size = 0, pi_TotalItems = 0, pi_TotalPages = 0\<rparr>"

definition pageInfoFromProto :: "pb_PageResponse option \<Rightarrow> PageInfo" where
  "pageInfoFromProto p0 =
     (case p0 of
        None \<Rightarrow> zero_PageInfo
      | Some p \<Rightarrow> \<lparr>pi_Number = ppr_page p, pi_Size = ppr_page_size p,
                   pi_TotalItems = scast (ppr_total_count p), pi_TotalPages = ppr_total_pages p\<rparr>)"

subsection \<open>Indexer client\<close>

record ListEventsFilter =
  lf_Kinds :: "EventKind list"
  lf_AssetID :: string
  lf_FromBlock :: u64
  lf_ToBlock :: u64
  lf_Page :: Page

record StreamEventsFilter =
  sf_Kinds :: "EventKind list"
  sf_AssetID :: string
  sf_FromBlock :: u64

record pb_ListEventsRequest =
  ler_kinds :: "pb_EventKind list"
  ler_asset_id :: string
  ler_from_block :: u64
  ler_to_block :: u64
  ler_page :: "i32 \<times> i32"

record pb_StreamEventsRequest =
  ser_kinds :: "pb_EventKind list"
  ser_asset_id :: string
  ser_from_block :: u64

record indexer_stub =
  is_ListEvents :: "pb_ListEventsRequest \<Rightarrow> (pb_Event option list \<times> pb_PageResponse option) go_result"
  is_GetRequest :: "string \<Rightarrow> pb_RequestStatus option go_result"
  is_StreamEvents :: "pb_StreamEventsRequest \<Rightarrow> pb_Event option stream go_result"

definition toProtoKinds :: "EventKind list \<Rightarrow> pb_EventKind list" where
  "toProtoKinds kinds = filter (\<lambda>pk. pk \<noteq> EVENT_KIND_UNSPECIFIED) (map EventKindToProto kinds)"

definition indexer_ListEvents ::
  "indexer_stub \<Rightarrow> ListEventsFilter \<Rightarrow> (Event list \<times> PageInfo) go_result" where
  "indexer_ListEvents c flt =
     (case is_ListEvents c
        \<lparr>ler_kinds = toProtoKinds (lf_Kinds flt), ler_asset_id = lf_AssetID flt,
         ler_from_block = lf_FromBlock flt, ler_to_block = lf_ToBlock flt,
         ler_page = (pg_Number (lf_Page flt), pg_Size (lf_Page flt))\<rparr> of
        Inl err \<Rightarrow> Inl (ErrWrap ''indexer.ListEvents'' err)
      | Inr (events, page) \<Rightarrow> Inr (map EventFromProto events, pageInfoFromProto page))"

definition indexer_GetRequest :: "indexer_stub \<Rightarrow> string \<Rightarrow> RequestSummary go_result" where
  "indexer_GetRequest c reqID =
     (case is_GetRequest c reqID of
        Inl err \<Rightarrow>
          (if status_FromError err = Some C_NotFound then Inl (ErrSentinel Indexer_ErrNotFound)
           else Inl (ErrWrap (''indexer.GetRequest('' @ reqID @ '')'') err))
      | Inr resp \<Rightarrow> Inr (RequestSummaryFromProto resp))"

definition indexer_StreamEvents ::
  "indexer_stub \<Rightarrow> StreamEventsFilter \<Rightarrow> (Event \<Rightarrow> 's \<Rightarrow> 's) option \<Rightarrow> 's \<Rightarrow> 's \<times> call_status" where
  "indexer_StreamEvents c flt onMsg s =
     (case is_StreamEvents c
        \<lparr>ser_kinds = toProtoKinds (sf_Kinds flt), ser_asset_id = sf_AssetID flt,
         ser_from_block = sf_FromBlock flt\<rparr> of
        Inl err \<Rightarrow> (s, Returned (Some (ErrWrap ''indexer.StreamEvents'' err)))
      | Inr strm \<Rightarrow> recv_loop ''indexer.StreamEvents.Recv'' EventFromProto onMsg strm s)"

subsection \<open>Oracle client\<close>

record pb_GetSubmissionStatusRequest =
  gsr_req_id :: string
  gsr_tx_hash :: string

text \<open>The oracle client has its own copies of the page types, field by field, and of their conversion.\<close>

type_synonym oracle_Page = Page

type_synonym oracle_PageInfo = PageInfo

record ListSubmissionsFilter =
  lsf_AssetID :: string
  lsf_Page :: oracle_Page

record pb_ListSubmissionsRequest =
  lsr_asset_id :: string
  lsr_page :: "i32 \<times> i32"

record oracle_stub =
  os_GetSubmissionStatus :: "pb_GetSubmissionStatusRequest \<Rightarrow> pb_SubmissionStatus option go_result"
  os_ListSubmissions ::
    "pb_ListSubmissionsRequest \<Rightarrow> (pb_SubmissionStatus option list \<times> pb_PageResponse option) go_result"

definition getSubmission :: "oracle_stub \<Rightarrow> pb_GetSubmissionStatusRequest \<Rightarrow> SubmissionStatus go_result" where
  "getSubmission c req =
     (case os_GetSubmissionStatus c req of
        Inl err \<Rightarrow>
          (case status_FromError err of
             Some C_NotFound \<Rightarrow> Inl (ErrSentinel Oracle_ErrNotFound)
           | Some C_InvalidArgument \<Rightarrow> Inl (ErrSentinel Oracle_ErrInvalidArgument)
           | _ \<Rightarrow> Inl (ErrWrap ''oracle.GetSubmissionStatus'' err))
      | Inr resp \<Rightarrow> Inr (SubmissionStatusFromProto resp))"

definition GetSubmissionByReqID :: "oracle_stub \<Rightarrow> string \<Rightarrow> SubmissionStatus go_result" where
  "GetSubmissionByReqID c reqID = getSubmission c \<lparr>gsr_req_id = reqID, gsr_tx_hash = ''''\<rparr>"

definition GetSubmissionByTxHash :: "oracle_stub \<Rightarrow> string \<Rightarrow> SubmissionStatus go_result" where
  "GetSubmissionByTxHash c txHash = getSubmission c \<lparr>gsr_req_id = '''', gsr_tx_hash = txHash\<rparr>"

definition oracle_pageInfoFromProto :: "pb_PageResponse option \<Rightarrow> oracle_PageInfo" where
  "oracle_pageInfoFromProto p0 =
     (case p0 of
        None \<Rightarrow> zero_PageInfo
      | Some p \<Rightarrow> \<lparr>pi_Number = ppr_page p, pi_Size = ppr_page_size p,
                   pi_TotalItems = scast (ppr_total_count p), pi_TotalPages = ppr_total_pages p\<rparr>)"

definition oracle_ListSubmissions ::
  "oracle_stub \<Rightarrow> ListSubmissionsFilter \<Rightarrow> (SubmissionStatus list \<times> oracle_PageInfo) go_result" where
  "oracle_ListSubmissions c flt =
     (case os_ListSubmissions c
        \<lparr>lsr_asset_id = lsf_AssetID flt, lsr_page = (pg_Number (lsf_Page flt), pg_Size (lsf_Page flt))\<rparr> of
        Inl err \<Rightarrow> Inl (ErrWrap ''oracle.ListSubmissions'' err)
      | Inr (subs, page) \<Rightarrow> Inr (map SubmissionStatusFromProto subs, oracle_pageInfoFromProto page))"

lemma oracle_pageInfoFromProto_same [simp]: "oracle_pageInfoFromProto = pageInfoFromProto"
  by (simp add: fun_eq_iff oracle_pageInfoFromProto_def pageInfoFromProto_def)

subsection \<open>The lookup contract\<close>

text \<open>
  What a handler relies on in a unary lookup: a response is converted, a status code the wrapper
  knows becomes its sentinel, every other failure is wrapped and stays visible to \<open>errors.Is\<close>.
\<close>

locale upstream_lookup =
  fixes call :: "'k \<Rightarrow> 'v go_result"
    and lookup :: "'k \<Rightarrow> 'd go_result"
    and conv :: "'v \<Rightarrow> 'd"
    and handled :: "grpc_code \<Rightarrow> sentinel option"
    and what :: "'k \<Rightarrow> string"
  assumes lookup_ok: "call k = Inr v \<Longrightarrow> lookup k = Inr (conv v)"
    and lookup_err: "call k = Inl e \<Longrightarrow> lookup k =
      (case Option.bind (status_FromError e) handled of
         Some s \<Rightarrow> Inl (ErrSentinel s)
       | None \<Rightarrow> Inl (ErrWrap (what k) e))"
begin

lemma lookup_cases:
  "(\<exists>v. call k = Inr v \<and> lookup k = Inr (conv v))
   \<or> (\<exists>e c s. call k = Inl e \<and> status_FromError e = Some c \<and> handled c = Some s \<and> lookup k = Inl (ErrSentinel s))
   \<or> (\<exists>e. call k = Inl e \<and> Option.bind (status_FromError e) handled = None \<and> lookup k = Inl (ErrWrap (what k) e))"
proof (cases "call k")
  case (Inl e)
  then show ?thesis
    by (cases "Option.bind (status_FromError e) handled")
      (auto simp: lookup_err bind_eq_Some_conv)
next
  case (Inr v)
  then show ?thesis by (auto simp: lookup_ok)
qed

lemma lookup_Inr_iff: "lookup k = Inr d \<longleftrightarrow> (\<exists>v. call k = Inr v \<and> d = conv v)"
  using lookup_cases [of k] by (cases "call k") auto

text \<open>A sentinel is reported exactly for its codes, given that the transport's own errors do not carry it.\<close>

lemma lookup_sentinel_iff:
  assumes "\<And>e. call k = Inl e \<Longrightarrow> \<not> errors_Is e s"
  shows "(\<exists>e. lookup k = Inl e \<and> errors_Is e s)
    \<longleftrightarrow> (\<exists>e c. call k = Inl e \<and> status_FromError e = Some c \<and> handled c = Some s)"
  using lookup_cases [of k] assms by (cases "call k") auto

end

definition notfound_only :: "sentinel \<Rightarrow> grpc_code \<Rightarrow> sentinel option" where
  "notfound_only s c = (if c = C_NotFound then Some s else None)"

definition oracle_handled :: "grpc_code \<Rightarrow> sentinel option" where
  "oracle_handled c =
     (if c = C_NotFound then Some Oracle_ErrNotFound
      else if c = C_InvalidArgument then Some Oracle_ErrInvalidArgument else None)"

interpretation price_lookup: upstream_lookup "ps_GetPrice c" "price_GetPrice c"
  AggregatedPriceFromProto "notfound_only Price_ErrNotFound"
  "\<lambda>assetID. ''price.GetPrice('' @ assetID @ '')''" for c
  by unfold_locales
    (auto simp: price_GetPrice_def notfound_only_def split: option.splits Option.bind_splits)

interpretation request_lookup: upstream_lookup "is_GetRequest c" "indexer_GetRequest c"
  RequestSummaryFromProto "notfound_only Indexer_ErrNotFound"
  "\<lambda>reqID. ''indexer.GetRequest('' @ reqID @ '')''" for c
  by unfold_locales
    (auto simp: indexer_GetRequest_def notfound_only_def split: option.splits Option.bind_splits)

interpretation submission_lookup: upstream_lookup "os_GetSubmissionStatus c" "getSubmission c"
  SubmissionStatusFromProto oracle_handled "\<lambda>_. ''oracle.GetSubmissionStatus''" for c
  by unfold_locales
    (auto simp: getSubmission_def oracle_handled_def split: option.splits grpc_code.splits)

subsection \<open>Stream facts\<close>

text \<open>The messages that arrive before the first error.\<close>

fun delivered :: "'m stream \<Rightarrow> 'm list" where
  "delivered [] = []"
| "delivered (Inl e # rs) = []"
| "delivered (Inr m # rs) = m # delivered rs"

fun first_error :: "'m stream \<Rightarrow> go_error option" where
  "first_error [] = None"
| "first_error (Inl e # rs) = Some e"
| "first_error (Inr m # rs) = first_error rs"

definition clean_end :: "go_error \<Rightarrow> bool" where
  "clean_end e \<longleftrightarrow> errors_Is e IO_EOF \<or> errors_Is e Context_Canceled \<or> errors_Is e Context_DeadlineExceeded"

lemma recv_loop_state:
  "fst (recv_loop what conv (Some f) rs s) = fold f (map conv (delivered rs)) s"
  by (induction what conv "Some f" rs s rule: recv_loop.induct) auto

lemma recv_loop_status:
  "snd (recv_loop what conv onMsg rs s) =
     (case first_error rs of
        None \<Rightarrow> Waiting
      | Some e \<Rightarrow> Returned (if clean_end e then None else Some (ErrWrap what e)))"
  by (induction what conv onMsg rs s rule: recv_loop.induct) (auto simp: clean_end_def)

lemma toProtoKinds_specified: "EVENT_KIND_UNSPECIFIED \<notin> set (toProtoKinds ks)"
  by (simp add: toProtoKinds_def)

subsection \<open>Properties\<close>

text \<open>
  Property C6. One \<open>Subscribe\<close> call forwards exactly the messages received before the first
  \<open>Recv\<close> error, once each and in order, converted; it keeps waiting while no error arrives,
  returns nil on end of stream and on a cancelled or expired context, and the wrapped error
  otherwise.
\<close>

theorem price_Subscribe_forwards:
  assumes "ids \<noteq> []" and "ps_Subscribe c ids = Inr strm"
  shows "price_Subscribe c ids (Some f) s =
    (fold f (map AggregatedPriceFromProto (delivered strm)) s,
     case first_error strm of
       None \<Rightarrow> Waiting
     | Some e \<Rightarrow> Returned (if clean_end e then None else Some (ErrWrap ''price.Subscribe.Recv'' e)))"
  using assms
  by (simp add: price_Subscribe_def prod_eq_iff recv_loop_state recv_loop_status)

theorem price_Subscribe_forwards_witness:
  "price_Subscribe
     \<lparr>ps_GetPrice = (\<lambda>_. Inr None), ps_Subscribe = (\<lambda>_. Inr [Inr None, Inl (ErrSentinel IO_EOF), Inr None])\<rparr>
     [''weth''] (Some (\<lambda>p n. n + length (ap_AssetID p) + 1)) (0::nat) = (1, Returned None)"
  using price_Subscribe_forwards [of "[''weth'']"
     "\<lparr>ps_GetPrice = (\<lambda>_. Inr None), ps_Subscribe = (\<lambda>_. Inr [Inr None, Inl (ErrSentinel IO_EOF), Inr None])\<rparr>"
     "[Inr None, Inl (ErrSentinel IO_EOF), Inr None]" "\<lambda>p n. n + length (ap_AssetID p) + 1" "0::nat"]
  by (simp add: clean_end_def AggregatedPriceFromProto_def zero_AggregatedPrice_def)

end
