(* ===== verification/Registry.thy ===== *)
theory Registry
  imports Clients
begin

text \<open>
  The aggregator registry of \<open>internal/aggregatorregistry/registry.go\<close>: a map from the lowercase
  asset id to the aggregator address. Every method holds the registry's lock for its whole body,
  so each is one atomic step on the map. The locale \<open>address_book\<close> is the contract the handlers
  and the hub rely on.
\<close>

record Registry =
  byAsset :: "string \<rightharpoonup> string"

definition registry_New :: Registry where
  "registry_New = \<lparr>byAsset = Map.empty\<rparr>"

definition registry_Set :: "Registry \<Rightarrow> string \<Rightarrow> string \<Rightarrow> Registry" where
  "registry_Set r assetID address = r\<lparr>byAsset := (byAsset r)(NormaliseAssetID assetID \<mapsto> address)\<rparr>"

definition registry_Aggregator :: "Registry \<Rightarrow> string \<Rightarrow> string option" where
  "registry_Aggregator r assetID = byAsset r (NormaliseAssetID assetID)"

text \<open>A fresh map with the same entries; later changes of either do not show in the other.\<close>

definition registry_Snapshot :: "Registry \<Rightarrow> string \<rightharpoonup> string" where
  "registry_Snapshot r = (\<lambda>k. byAsset r k)"

text \<open>The loop of \<open>Load\<close> over the listed events.\<close>

definition load_event :: "keccak256 \<Rightarrow> Event \<Rightarrow> Registry \<Rightarrow> Registry" where
  "load_event keccak e r =
     (case e_AssetRegistered e of
        None \<Rightarrow> r
      | Some reg \<Rightarrow>
          (case AssetByIDHash keccak (ar_AssetID reg) of
             None \<Rightarrow> r
           | Some asset \<Rightarrow> registry_Set r (a_ID asset) (ar_Aggregator reg)))"

definition load_filter :: ListEventsFilter where
  "load_filter =
     \<lparr>lf_Kinds = [EventKindAssetRegistered], lf_AssetID = '''', lf_FromBlock = 0, lf_ToBlock = 0,
      lf_Page = \<lparr>pg_Number = 1, pg_Size = 200\<rparr>\<rparr>"

type_synonym list_events = "ListEventsFilter \<Rightarrow> (Event list \<times> PageInfo) go_result"

definition registry_Load :: "keccak256 \<Rightarrow> Registry \<Rightarrow> list_events option \<Rightarrow> Registry \<times> go_error option" where
  "registry_Load keccak r ix =
     (case ix of
        None \<Rightarrow> (r, Some (ErrText ''indexer client is required''))
      | Some listEvents \<Rightarrow>
          (case listEvents load_filter of
             Inl err \<Rightarrow> (r, Some (ErrWrap ''seed aggregator registry'' err))
           | Inr (events, _) \<Rightarrow> (fold (load_event keccak) events r, None)))"

subsection \<open>The contract\<close>

locale address_book =
  fixes empty :: 'r
    and set_addr :: "'r \<Rightarrow> string \<Rightarrow> string \<Rightarrow> 'r"
    and get_addr :: "'r \<Rightarrow> string \<Rightarrow> string option"
    and key :: "string \<Rightarrow> string"
  assumes get_empty: "get_addr empty i = None"
    and get_set: "get_addr (set_addr r i a) j = (if key j = key i then Some a else get_addr r j)"
    and get_key: "get_addr r (key i) = get_addr r i"
    and key_idem: "key (key i) = key i"
begin

definition set_opt :: "'r \<Rightarrow> (string \<times> string) option \<Rightarrow> 'r" where
  "set_opt r u = (case u of None \<Rightarrow> r | Some (i, a) \<Rightarrow> set_addr r i a)"

text \<open>After a sequence of updates a key holds the address of the last update for it.\<close>

lemma get_fold_set:
  "get_addr (fold (\<lambda>u r. set_opt r (f u)) us r) j =
     (case find (\<lambda>u. \<exists>i a. f u = Some (i, a) \<and> key i = key j) (rev us) of
        None \<Rightarrow> get_addr r j
      | Some u \<Rightarrow> map_option snd (f u))"
proof (induction us rule: rev_induct)
  case Nil
  then show ?case by simp
next
  case (snoc u us)
  then show ?case
    by (auto simp: set_opt_def get_set split: option.splits)
qed

lemma get_fold_untouched:
  assumes "\<forall>u \<in> set us. \<forall>i a. f u = Some (i, a) \<longrightarrow> key i \<noteq> key j"
  shows "get_addr (fold (\<lambda>u r. set_opt r (f u)) us r) j = get_addr r j"
  using assms by (induction us arbitrary: r) (auto simp: set_opt_def get_set split: option.splits)

end

interpretation registry: address_book registry_New registry_Set registry_Aggregator NormaliseAssetID
  by unfold_locales (simp_all add: registry_New_def registry_Set_def registry_Aggregator_def)

subsection \<open>Loading\<close>

text \<open>The update one event asks for.\<close>

definition event_update :: "keccak256 \<Rightarrow> Event \<Rightarrow> (string \<times> string) option" where
  "event_update keccak e =
     Option.bind (e_AssetRegistered e)
       (\<lambda>reg. map_option (\<lambda>asset. (a_ID asset, ar_Aggregator reg)) (AssetByIDHash keccak (ar_AssetID reg)))"

lemma load_event_update: "load_event keccak e r = registry.set_opt r (event_update keccak e)"
  by (simp add: load_event_def event_update_def registry.set_opt_def split: option.split)

definition catalog_keys :: "Registry \<Rightarrow> bool" where
  "catalog_keys r \<longleftrightarrow> dom (byAsset r) \<subseteq> set AssetIDs"

lemma catalog_keys_New: "catalog_keys registry_New"
  by (simp add: catalog_keys_def registry_New_def)

lemma catalog_keys_Set: "catalog_keys r \<Longrightarrow> NormaliseAssetID i \<in> set AssetIDs \<Longrightarrow> catalog_keys (registry_Set r i a)"
  by (auto simp: catalog_keys_def registry_Set_def)

lemma AssetByIDHash_key:
  "keccak_contract keccak \<Longrightarrow> AssetByIDHash keccak h = Some a \<Longrightarrow> NormaliseAssetID (a_ID a) \<in> set AssetIDs"
  by (auto simp: AssetByIDHash_Some_iff catalog_lower_ids AssetIDs_def)

lemma catalog_keys_load_event:
  "keccak_contract keccak \<Longrightarrow> catalog_keys r \<Longrightarrow> catalog_keys (load_event keccak e r)"
  by (auto simp: load_event_def intro!: catalog_keys_Set AssetByIDHash_key split: option.split)

lemma catalog_keys_fold:
  "keccak_contract keccak \<Longrightarrow> catalog_keys r \<Longrightarrow> catalog_keys (fold (load_event keccak) es r)"
  by (induction es arbitrary: r) (simp_all add: catalog_keys_load_event)

lemma Aggregator_Set_catalog:
  assumes "a \<in> set AssetCatalog" and "b \<in> set AssetCatalog"
  shows "registry_Aggregator (registry_Set r (a_ID b) x) (a_ID a)
    = (if b = a then Some x else registry_Aggregator r (a_ID a))"
  using assms by (auto simp: registry.get_set catalog_lower_ids dest: catalog_id_inj)

lemma load_event_lookup:
  assumes "keccak_contract keccak" and "a \<in> set AssetCatalog"
  shows "registry_Aggregator (load_event keccak e r) (a_ID a) =
    (case e_AssetRegistered e of
       Some reg \<Rightarrow> (if ToLower (TrimSpace (ar_AssetID reg)) = asset_hash keccak a
                    then Some (ar_Aggregator reg) else registry_Aggregator r (a_ID a))
     | None \<Rightarrow> registry_Aggregator r (a_ID a))"
proof (cases "e_AssetRegistered e")
  case None
  then show ?thesis by (simp add: load_event_def)
next
  case (Some reg)
  have hash: "asset_hash keccak b = asset_hash keccak a \<longleftrightarrow> b = a" if "b \<in> set AssetCatalog" for b
    using asset_hash_inj_catalog [OF assms(1)] assms(2) that by (auto simp: distinct_map inj_on_def)
  have "AssetByIDHash keccak (ar_AssetID reg) = None \<Longrightarrow>
      ToLower (TrimSpace (ar_AssetID reg)) \<noteq> asset_hash keccak a"
    using assms by (metis AssetByIDHash_Some_iff option.distinct(1))
  with Some assms hash show ?thesis
    by (auto simp: load_event_def AssetByIDHash_Some_iff Aggregator_Set_catalog split: option.split)
qed

lemma load_fold_lookup:
  assumes "keccak_contract keccak" and "a \<in> set AssetCatalog"
  shows "registry_Aggregator (fold (load_event keccak) events r) (a_ID a) =
    (case find (\<lambda>reg. ToLower (TrimSpace (ar_AssetID reg)) = asset_hash keccak a)
            (rev (List.map_filter e_AssetRegistered events)) of
       None \<Rightarrow> registry_Aggregator r (a_ID a)
     | Some reg \<Rightarrow> Some (ar_Aggregator reg))"
  by (induction events rule: rev_induct)
    (auto simp: load_event_lookup [OF assms] map_filter_def split: option.splits)

subsection \<open>Properties\<close>

text \<open>
  A lookup returns the address of the last \<open>Set\<close> for the same asset id up to letter
  case; other ids keep what they had, and a new registry knows none.
\<close>

theorem registry_last_set_wins:
  "registry_Aggregator (fold (\<lambda>(i, a) r. registry_Set r i a) ups registry_New) j =
     map_option snd (find (\<lambda>(i, a). ToLower i = ToLower j) (rev ups))"
proof -
  have run: "fold (\<lambda>(i, a) r. registry_Set r i a) ups registry_New
      = fold (\<lambda>u r. registry.set_opt r (Some u)) ups registry_New"
    by (intro fold_cong) (auto simp: registry.set_opt_def)
  have key: "(\<lambda>u. \<exists>i a. Some u = Some (i, a) \<and> NormaliseAssetID i = NormaliseAssetID j)
      = (\<lambda>(i, a). ToLower i = ToLower j)"
    by (auto simp: fun_eq_iff)
  show ?thesis
    unfolding run registry.get_fold_set key
    by (simp add: registry.get_empty split: option.split)
qed

text \<open>
  Property C5. Seeding the registry stores only addresses of the ten catalog assets, whatever the
  indexer lists: an asset's address afterwards is that of the last listed registration whose
  on-chain id is the asset's, or the earlier one when none is listed; a failed list call
  leaves the registry as it was and reports the error.
\<close>

theorem registry_Load_correct:
  assumes "keccak_contract keccak" and "a \<in> set AssetCatalog" and "ix load_filter = Inr (events, info)"
  shows "registry_Load keccak r (Some ix) = (fold (load_event keccak) events r, None)
    \<and> registry_Aggregator (fst (registry_Load keccak r (Some ix))) (a_ID a) =
        (case find (\<lambda>reg. ToLower (TrimSpace (ar_AssetID reg)) = asset_hash keccak a)
                (rev (List.map_filter e_AssetRegistered events)) of
           None \<Rightarrow> registry_Aggregator r (a_ID a)
         | Some reg \<Rightarrow> Some (ar_Aggregator reg))
    \<and> (catalog_keys r \<longrightarrow> catalog_keys (fst (registry_Load keccak r (Some ix))))
    \<and> registry_Load keccak r (Some (\<lambda>_. Inl e)) = (r, Some (ErrWrap ''seed aggregator registry'' e))"
  using assms by (simp add: registry_Load_def load_fold_lookup catalog_keys_fold)

theorem registry_Load_correct_witness:
  "(let weth = hd AssetCatalog;
        e = zero_Event\<lparr>e_AssetRegistered := Some \<lparr>ar_AssetID = asset_hash pad32 weth, ar_Aggregator = ''0xagg''\<rparr>\<rparr>
    in registry_Aggregator (fst (registry_Load pad32 registry_New (Some (\<lambda>_. Inr ([e], zero_PageInfo)))))
         (a_ID weth) = Some ''0xagg'')"
proof -
  have weth: "hd AssetCatalog \<in> set AssetCatalog" by (simp add: AssetCatalog_def)
  show ?thesis
    using registry_Load_correct [OF pad32_contract weth, where r = registry_New and ix = "\<lambda>_. Inr ([zero_Event\<lparr>e_AssetRegistered :=
              Some \<lparr>ar_AssetID = asset_hash pad32 (hd AssetCatalog), ar_Aggregator = ''0xagg''\<rparr>\<rparr>], zero_PageInfo)", OF refl, THEN conjunct2, THEN conjunct1]
    by (simp add: Let_def map_filter_def asset_hash_trim [OF pad32_contract] asset_hash_lower)
qed

end
