(* ===== verification/Json.thy ===== *)
theory Json
  imports Clients "HOL-Library.Char_ord" "HOL-Library.List_Lexorder"
begin

text \<open>
  What the program hands to \<open>encoding/json\<close>. A value is encoded to a tree: the object fields in the
  order of the struct, under the names of its tags and with \<open>omitempty\<close> applied; maps with their keys
  sorted. \<open>json_Marshal\<close> fails as the package does, on a float that is NaN or infinite and on a time
  whose year has not four digits. The characters of the text (escapes, number formatting) are the
  package's own and the model stops at the tree.
\<close>

datatype json =
    JNull
  | JBool bool
  | JInt int
  | JFloat float64
  | JStr string
  | JTime Time
  | JArr "json list"
  | JObj "(string \<times> json) list"

subsection \<open>Values the encoder refuses\<close>

text \<open>The exponent field of an IEEE double is all ones exactly for the infinities and NaNs.\<close>

definition float_finite :: "float64 \<Rightarrow> bool" where
  "float_finite x \<longleftrightarrow> unat (take_bit 11 (drop_bit 52 x)) \<noteq> 2047"

text \<open>Years 0 to 9999, as seconds since the start of year 1 (year 0 has 366 days).\<close>

definition year_4digits :: "Time \<Rightarrow> bool" where
  "year_4digits t \<longleftrightarrow> - 31622400 \<le> sint (t_sec t) \<and> sint (t_sec t) < 315537897600"

fun json_ok :: "json \<Rightarrow> bool" where
  "json_ok (JFloat x) = float_finite x"
| "json_ok (JTime t) = year_4digits t"
| "json_ok (JArr js) = list_all json_ok js"
| "json_ok (JObj kvs) = list_all (\<lambda>(k, v). json_ok v) kvs"
| "json_ok _ = True"

definition json_Marshal :: "json \<Rightarrow> json go_result" where
  "json_Marshal j = (if json_ok j then Inr j else Inl (ErrText ''json: unsupported value''))"

text \<open>Fields: always written, or left out when empty.\<close>

definition omit_str :: "string \<Rightarrow> string \<Rightarrow> (string \<times> json) list" where
  "omit_str k v = (if v = '''' then [] else [(k, JStr v)])"

definition omit_ptr :: "string \<Rightarrow> ('a \<Rightarrow> json) \<Rightarrow> 'a option \<Rightarrow> (string \<times> json) list" where
  "omit_ptr k enc v = (case v of None \<Rightarrow> [] | Some x \<Rightarrow> [(k, enc x)])"

definition json_slice :: "('a \<Rightarrow> json) \<Rightarrow> 'a slice \<Rightarrow> json" where
  "json_slice enc xs = (case xs of None \<Rightarrow> JNull | Some ys \<Rightarrow> JArr (map enc ys))"

definition json_map :: "(string \<times> json) list \<Rightarrow> json" where
  "json_map kvs = JObj (sort_key fst kvs)"

subsection \<open>The structs\<close>

definition json_source :: "SourceContribution \<Rightarrow> json" where
  "json_source c = JObj
     [(''source'', JStr (sc_Source c)), (''price'', JFloat (sc_Price c)), (''fetched_at'', JTime (sc_FetchedAt c)),
      (''source_observed_at'', JTime (sc_SourceObservedAt c)), (''age_sec'', JInt (sint (sc_AgeSec c))),
      (''included'', JBool (sc_Included c))]"

definition json_price :: "AggregatedPrice \<Rightarrow> json" where
  "json_price p = JObj
     [(''asset_id'', JStr (ap_AssetID p)), (''median_price'', JFloat (ap_MedianPrice p)),
      (''aggregated_at'', JTime (ap_AggregatedAt p)), (''sources'', json_slice json_source (ap_Sources p))]"

definition asset_fields :: "Asset \<Rightarrow> (string \<times> json) list" where
  "asset_fields a =
     [(''id'', JStr (a_ID a)), (''symbol'', JStr (a_Symbol a)), (''name'', JStr (a_Name a)),
      (''class'', JStr (a_Class a))] @ omit_str ''aggregator_address'' (a_AggregatorAddress a)"

definition json_asset_summary :: "AssetSummary \<Rightarrow> json" where
  "json_asset_summary s = JObj
     (asset_fields (as_Asset s) @ omit_ptr ''latest_price'' json_price (as_LatestPrice s)
      @ omit_str ''last_on_chain_price'' (as_LastOnChainPrice s)
      @ omit_ptr ''last_on_chain_at'' JTime (as_LastOnChainAt s)
      @ omit_str ''last_on_chain_tx'' (as_LastOnChainTx s))"

definition json_price_detail :: "PriceDetail \<Rightarrow> json" where
  "json_price_detail d = JObj
     ([(''asset'', JObj (asset_fields (pd_Asset d))), (''aggregated_price'', json_price (pd_AggregatedPrice d))]
      @ omit_str ''last_on_chain_price'' (pd_LastOnChainPrice d)
      @ omit_ptr ''last_on_chain_at'' JTime (pd_LastOnChainAt d)
      @ omit_str ''last_on_chain_tx'' (pd_LastOnChainTx d)
      @ omit_str ''last_round_id'' (pd_LastRoundID d)
      @ [(''sources'', json_slice json_source (pd_Sources d))])"

definition json_meta :: "EventMeta \<Rightarrow> json" where
  "json_meta m = JObj
     [(''contract_address'', JStr (em_ContractAddress m)), (''tx_hash'', JStr (em_TxHash m)),
      (''block_hash'', JStr (em_BlockHash m)), (''block_number'', JInt (uint (em_BlockNumber m))),
      (''log_index'', JInt (uint (em_LogIndex m))), (''observed_at'', JTime (em_ObservedAt m)),
      (''confirmations'', JInt (uint (em_Confirmations m)))]"

definition json_requested :: "PriceRequestedEvent \<Rightarrow> json" where
  "json_requested e = JObj
     [(''req_id'', JStr (pr_ReqID e)), (''asset_id'', JStr (pr_AssetID e)), (''requester'', JStr (pr_Requester e))]"

definition json_fulfilled :: "PriceFulfilledEvent \<Rightarrow> json" where
  "json_fulfilled e = JObj
     [(''req_id'', JStr (pf_ReqID e)), (''asset_id'', JStr (pf_AssetID e)), (''price'', JStr (pf_Price e)),
      (''timestamp'', JStr (pf_Timestamp e)), (''round_id'', JStr (pf_RoundID e))]"

definition json_registered :: "AssetRegisteredEvent \<Rightarrow> json" where
  "json_registered e = JObj
     [(''asset_id'', JStr (ar_AssetID e)), (''aggregator'', JStr (ar_Aggregator e))]"

definition json_event :: "Event \<Rightarrow> json" where
  "json_event e = JObj
     ([(''meta'', json_meta (e_Meta e)), (''kind'', JStr (e_Kind e))]
      @ omit_ptr ''price_requested'' json_requested (e_PriceRequested e)
      @ omit_ptr ''price_fulfilled'' json_fulfilled (e_PriceFulfilled e)
      @ omit_ptr ''asset_registered'' json_registered (e_AssetRegistered e))"

definition json_request :: "RequestSummary \<Rightarrow> json" where
  "json_request r = JObj
     ([(''req_id'', JStr (rs_ReqID r)), (''asset_id'', JStr (rs_AssetID r)), (''status'', JStr (rs_Status r)),
       (''requester'', JStr (rs_Requester r)), (''requested_tx_hash'', JStr (rs_RequestedTxHash r))]
      @ omit_str ''fulfilled_tx_hash'' (rs_FulfilledTxHash r)
      @ omit_str ''fulfilled_price'' (rs_FulfilledPrice r)
      @ omit_ptr ''requested_at'' JTime (rs_RequestedAt r)
      @ omit_ptr ''fulfilled_at'' JTime (rs_FulfilledAt r))"

definition json_submission :: "SubmissionStatus \<Rightarrow> json" where
  "json_submission s = JObj
     ([(''req_id'', JStr (ss_ReqID s)), (''asset_id'', JStr (ss_AssetID s))]
      @ omit_str ''tx_hash'' (ss_TxHash s)
      @ omit_str ''submitted_price'' (ss_SubmittedPrice s)
      @ omit_ptr ''submitted_at'' JTime (ss_SubmittedAt s)
      @ [(''status'', JStr (ss_Status s)), (''retry_count'', JInt (uint (ss_RetryCount s)))]
      @ omit_str ''last_error'' (ss_LastError s))"

definition json_health :: "HealthResponse \<Rightarrow> json" where
  "json_health h = JObj
     [(''status'', JStr (hr_Status h)), (''service'', JStr (hr_Service h)), (''version'', JStr (hr_Version h)),
      (''author'', JObj
         ([(''name'', JStr (au_Name (hr_Author h)))]
          @ (if au_Links (hr_Author h) = [] then []
             else [(''links'', json_map (map (\<lambda>(k, v). (k, JStr v)) (au_Links (hr_Author h))))])))]"

subsection \<open>The WebSocket envelope\<close>

definition MessageTypePrice :: string where "MessageTypePrice = ''price''"
definition MessageTypeEvent :: string where "MessageTypeEvent = ''event''"

text \<open>A \<open>json.RawMessage\<close> payload is written as it is.\<close>

definition WireMessage :: "string \<Rightarrow> json \<Rightarrow> json" where
  "WireMessage ty payload = JObj [(''type'', JStr ty), (''payload'', payload)]"

definition MarshalPrice :: "AggregatedPrice \<Rightarrow> json go_result" where
  "MarshalPrice p =
     (case json_Marshal (json_price p) of
        Inl e \<Rightarrow> Inl e
      | Inr payload \<Rightarrow> json_Marshal (WireMessage MessageTypePrice payload))"

definition MarshalEvent :: "Event \<Rightarrow> json go_result" where
  "MarshalEvent e =
     (case json_Marshal (json_event e) of
        Inl err \<Rightarrow> Inl err
      | Inr payload \<Rightarrow> json_Marshal (WireMessage MessageTypeEvent payload))"

subsection \<open>Encoder facts\<close>

lemma json_ok_omit [simp]:
  "list_all (\<lambda>(k, v). json_ok v) (omit_str k s)"
  "list_all (\<lambda>(k, v). json_ok v) (omit_ptr k enc v) \<longleftrightarrow> (case v of None \<Rightarrow> True | Some x \<Rightarrow> json_ok (enc x))"
  by (simp_all add: omit_str_def omit_ptr_def split: option.split)

lemma json_ok_slice [simp]:
  "json_ok (json_slice enc xs) \<longleftrightarrow> (case xs of None \<Rightarrow> True | Some ys \<Rightarrow> list_all (\<lambda>y. json_ok (enc y)) ys)"
  by (simp add: json_slice_def list.pred_map comp_def split: option.split)

lemma json_ok_map [simp]: "json_ok (json_map kvs) \<longleftrightarrow> list_all (\<lambda>(k, v). json_ok v) kvs"
  by (simp add: json_map_def list_all_iff)

lemma json_ok_asset_fields [simp]: "list_all (\<lambda>(k, v). json_ok v) (asset_fields a)"
  by (simp add: asset_fields_def)

lemma json_ok_always [simp]:
  "json_ok (json_requested q)" "json_ok (json_fulfilled f)" "json_ok (json_registered g)" "json_ok (json_health h)"
  by (simp_all add: json_requested_def json_fulfilled_def json_registered_def json_health_def list_all_iff
      split_beta)

definition source_ok :: "SourceContribution \<Rightarrow> bool" where
  "source_ok c \<longleftrightarrow> float_finite (sc_Price c) \<and> year_4digits (sc_FetchedAt c) \<and> year_4digits (sc_SourceObservedAt c)"

definition price_ok :: "AggregatedPrice \<Rightarrow> bool" where
  "price_ok p \<longleftrightarrow> float_finite (ap_MedianPrice p) \<and> year_4digits (ap_AggregatedAt p)
     \<and> (case ap_Sources p of None \<Rightarrow> True | Some cs \<Rightarrow> list_all source_ok cs)"

lemma json_ok_source [simp]: "json_ok (json_source c) \<longleftrightarrow> source_ok c"
  by (simp add: json_source_def source_ok_def)

lemma json_ok_price [simp]: "json_ok (json_price p) \<longleftrightarrow> price_ok p"
  by (simp add: json_price_def price_ok_def split: option.split)

lemma json_ok_event [simp]: "json_ok (json_event e) \<longleftrightarrow> year_4digits (em_ObservedAt (e_Meta e))"
  by (simp add: json_event_def json_meta_def split: option.split)

lemma json_ok_wire [simp]: "json_ok (WireMessage ty j) \<longleftrightarrow> json_ok j"
  by (simp add: WireMessage_def)

lemma MarshalPrice_eq:
  "MarshalPrice p = (if price_ok p then Inr (WireMessage ''price'' (json_price p))
     else Inl (ErrText ''json: unsupported value''))"
  by (simp add: MarshalPrice_def json_Marshal_def MessageTypePrice_def)

lemma MarshalEvent_eq:
  "MarshalEvent e = (if year_4digits (em_ObservedAt (e_Meta e)) then Inr (WireMessage ''event'' (json_event e))
     else Inl (ErrText ''json: unsupported value''))"
  by (simp add: MarshalEvent_def json_Marshal_def MessageTypeEvent_def)

subsection \<open>The encodings are lossless\<close>

lemma json_slice_inj: "inj enc \<Longrightarrow> json_slice enc xs = json_slice enc ys \<longleftrightarrow> xs = ys"
  by (auto simp: json_slice_def inj_map_eq_map split: option.splits)

lemma inj_json_source: "inj json_source"
  by (auto intro!: injI SourceContribution.equality simp: json_source_def dest: signed_word_eqI)

lemma inj_json_price: "inj json_price"
  by (auto intro!: injI AggregatedPrice.equality simp: json_price_def json_slice_inj [OF inj_json_source])

lemma inj_json_meta: "inj json_meta"
  by (auto intro!: injI EventMeta.equality simp: json_meta_def dest: unsigned_word_eqI)

lemma inj_json_payloads: "inj json_requested" "inj json_fulfilled" "inj json_registered"
  by (auto intro!: injI PriceRequestedEvent.equality PriceFulfilledEvent.equality AssetRegisteredEvent.equality
      simp: json_requested_def json_fulfilled_def json_registered_def)

lemma inj_json_event: "inj json_event"
  by (auto intro!: injI Event.equality dest: injD [OF inj_json_meta] injD [OF inj_json_payloads(1)]
      injD [OF inj_json_payloads(2)] injD [OF inj_json_payloads(3)]
      simp: json_event_def omit_ptr_def split: option.splits)

subsection \<open>Valid messages\<close>

text \<open>The range \<open>google.protobuf.Timestamp\<close> documents: years 1 to 9999, nanoseconds of one second.\<close>

definition valid_timestamp :: "pb_Timestamp option \<Rightarrow> bool" where
  "valid_timestamp ts \<longleftrightarrow>
     - 62135596800 \<le> sint (GetSeconds ts) \<and> sint (GetSeconds ts) < 253402300800
     \<and> 0 \<le> sint (GetNanos ts) \<and> sint (GetNanos ts) < 1000000000"

definition valid_source :: "pb_SourceContribution option \<Rightarrow> bool" where
  "valid_source c \<longleftrightarrow>
     (case c of None \<Rightarrow> True
      | Some s \<Rightarrow> valid_timestamp (psc_fetched_at s) \<and> valid_timestamp (psc_source_observed_at s))"

definition valid_price :: "pb_AggregatedPrice \<Rightarrow> bool" where
  "valid_price p \<longleftrightarrow> valid_timestamp (pap_aggregated_at p) \<and> list_all valid_source (pap_sources p)"

definition source_price :: "pb_SourceContribution option \<Rightarrow> float64" where
  "source_price c = (case c of None \<Rightarrow> 0 | Some s \<Rightarrow> psc_price s)"

lemma valid_timestamp_year: "valid_timestamp ts \<Longrightarrow> year_4digits (AsTime ts)"
proof -
  define s where "s = sint (GetSeconds ts)"
  assume v: "valid_timestamp ts"
  then have "t_sec (AsTime ts) = word_of_int (s + unixToInternal)"
    by (simp add: AsTime_def time_Unix_floor unixTime_def s_def valid_timestamp_def)
  moreover have "in_int64 (s + unixToInternal)"
    using v by (simp add: in_int64_def valid_timestamp_def unixToInternal_def s_def)
  ultimately have "sint (t_sec (AsTime ts)) = s + unixToInternal"
    by (simp only: sint_word_of_int_in_range)
  then show ?thesis
    using v by (simp add: year_4digits_def valid_timestamp_def unixToInternal_def s_def)
qed

lemma valid_timestamp_None [simp]: "valid_timestamp None"
  by (simp add: valid_timestamp_def GetSeconds_def GetNanos_def)

lemma valid_source_ok:
  "valid_source c \<Longrightarrow> source_ok (SourceContributionFromProto c) \<longleftrightarrow> float_finite (source_price c)"
  by (cases c) (simp_all add: valid_source_def source_ok_def SourceContributionFromProto_def
      zero_pb_SourceContribution_def source_price_def valid_timestamp_year)

lemma valid_price_ok:
  "valid_price p \<Longrightarrow> price_ok (AggregatedPriceFromProto (Some p))
     \<longleftrightarrow> float_finite (pap_median_price p) \<and> list_all (\<lambda>c. float_finite (source_price c)) (pap_sources p)"
  by (auto simp: valid_price_def price_ok_def AggregatedPriceFromProto_def valid_timestamp_year
      list.pred_map list_all_iff valid_source_ok)

subsection \<open>Properties\<close>


text \<open>
  A price update with valid timestamps becomes a frame exactly when its median and
  every contribution are finite numbers; then the frame carries the converted price under the type
  \<open>price\<close>. A NaN or an infinity in any of them is an encoding error, so the update is not sent.
\<close>

theorem price_frame_iff_finite:
  assumes "valid_price p"
  shows "MarshalPrice (AggregatedPriceFromProto (Some p)) =
    (if float_finite (pap_median_price p) \<and> list_all (\<lambda>c. float_finite (source_price c)) (pap_sources p)
     then Inr (JObj [(''type'', JStr ''price''), (''payload'', json_price (AggregatedPriceFromProto (Some p)))])
     else Inl (ErrText ''json: unsupported value''))"
  using assms by (simp add: MarshalPrice_eq valid_price_ok WireMessage_def)

theorem price_frame_iff_finite_witness:
  "MarshalPrice (AggregatedPriceFromProto (Some
     \<lparr>pap_asset_id = ''weth'', pap_median_price = 0x7FF0000000000000,
      pap_aggregated_at = Some \<lparr>ts_seconds = 1748345200, ts_nanos = 5\<rparr>, pap_sources = []\<rparr>))
   = Inl (ErrText ''json: unsupported value'')"
proof -
  let ?p = "\<lparr>pap_asset_id = ''weth'', pap_median_price = 0x7FF0000000000000,
      pap_aggregated_at = Some \<lparr>ts_seconds = 1748345200, ts_nanos = 5\<rparr>, pap_sources = []\<rparr>"
  have "valid_price ?p"
    by (simp add: valid_price_def valid_timestamp_def GetSeconds_def GetNanos_def)
  moreover have "\<not> float_finite (pap_median_price ?p)"
    by (simp add: float_finite_def)
  ultimately show ?thesis
    by (subst price_frame_iff_finite) simp_all
qed

end
