(* ===== verification/Hub.thy ===== *)
theory Hub
  imports Registry Json
begin

text \<open>
  The WebSocket hub of \<open>internal/wshub/hub.go\<close> and \<open>client.go\<close>, operation by operation. A
  \<open>*Client\<close> is an address in the store \<open>h_store\<close>, because the hub's set, the pumps and the
  snapshots of running broadcasts alias it. \<open>cl_out\<close> is the connection's side: the text frames that
  were written to it. A callback field is \<open>None\<close> for nil, and otherwise counts its calls.
\<close>

subsection \<open>Buffered channels\<close>

text \<open>\<open>select { case ch <- m: ... default: ... }\<close> and \<open><-ch\<close> on a channel that is never closed.\<close>

definition chan_trysend :: "nat \<Rightarrow> 'm \<Rightarrow> 'm list \<Rightarrow> 'm list option" where
  "chan_trysend cap m buf = (if length buf < cap then Some (buf @ [m]) else None)"

definition chan_recv :: "'m list \<Rightarrow> ('m \<times> 'm list) option" where
  "chan_recv buf = (case buf of [] \<Rightarrow> None | m # ms \<Rightarrow> Some (m, ms))"

locale bounded_fifo =
  fixes cap :: nat
    and trysend :: "'m \<Rightarrow> 'q \<Rightarrow> 'q option"
    and recv :: "'q \<Rightarrow> ('m \<times> 'q) option"
    and contents :: "'q \<Rightarrow> 'm list"
  assumes send_Some: "trysend m q = Some q' \<Longrightarrow> contents q' = contents q @ [m] \<and> length (contents q) < cap"
    and send_None: "trysend m q = None \<Longrightarrow> cap \<le> length (contents q)"
    and recv_Some: "recv q = Some (m, q') \<Longrightarrow> contents q = m # contents q'"
    and recv_None: "recv q = None \<Longrightarrow> contents q = []"
begin

lemma send_bound: "length (contents q) \<le> cap \<Longrightarrow> trysend m q = Some q' \<Longrightarrow> length (contents q') \<le> cap"
  using send_Some by fastforce

lemma refused_iff_full: "length (contents q) \<le> cap \<Longrightarrow> trysend m q = None \<longleftrightarrow> length (contents q) = cap"
  by (cases "trysend m q") (auto dest: send_None send_Some)

lemma recv_keeps_order: "recv q = Some (m, q') \<Longrightarrow> done @ contents q = (done @ [m]) @ contents q'"
  using recv_Some by simp

end

interpretation chan: bounded_fifo cap "chan_trysend cap" chan_recv "\<lambda>q. q" for cap
  by unfold_locales (auto simp: chan_trysend_def chan_recv_def split: if_splits list.splits)

subsection \<open>State\<close>

record 'm Client =
  cl_send :: "'m list"
  cl_closed :: bool
  cl_connOpen :: bool
  cl_writing :: bool
  cl_reading :: bool
  cl_out :: "'m list"

record 'm Hub =
  h_bufferSize :: int
  h_clients :: "nat set"
  h_store :: "nat \<rightharpoonup> 'm Client"
  h_started :: bool
  h_drops :: u64
  h_onSend :: "nat option"
  h_onDrop :: "nat option"

record Options =
  o_ClientBufferSize :: int
  o_OnSend :: bool
  o_OnDrop :: bool

definition NewHub :: "Options \<Rightarrow> 'm Hub" where
  "NewHub opts =
     \<lparr>h_bufferSize = (if o_ClientBufferSize opts \<le> 0 then 256 else o_ClientBufferSize opts),
      h_clients = {}, h_store = Map.empty, h_started = False, h_drops = 0,
      h_onSend = (if o_OnSend opts then Some 0 else None),
      h_onDrop = (if o_OnDrop opts then Some 0 else None)\<rparr>"

definition ClientCount :: "'m Hub \<Rightarrow> nat" where
  "ClientCount h = card (h_clients h)"

definition DropCount :: "'m Hub \<Rightarrow> u64" where
  "DropCount h = h_drops h"

definition register :: "nat \<Rightarrow> 'm Hub \<Rightarrow> 'm Hub" where
  "register c h = h\<lparr>h_clients := insert c (h_clients h)\<rparr>"

definition unregister :: "nat \<Rightarrow> 'm Hub \<Rightarrow> 'm Hub" where
  "unregister c h = (if c \<notin> h_clients h then h else h\<lparr>h_clients := h_clients h - {c}\<rparr>)"

definition new_client :: "'m Client" where
  "new_client =
     \<lparr>cl_send = [], cl_closed = False, cl_connOpen = True, cl_writing = True, cl_reading = True, cl_out = []\<rparr>"

text \<open>\<open>Serve\<close> after a successful upgrade: the client at a fresh address, registered, both pumps running.\<close>

definition hub_Serve :: "nat \<Rightarrow> 'm Hub \<Rightarrow> 'm Hub" where
  "hub_Serve c h = register c (h\<lparr>h_store := (h_store h)(c \<mapsto> new_client)\<rparr>)"

text \<open>\<open>close\<close> runs its body once; \<open>closeOnce\<close> has fired exactly when the channel is closed.\<close>

definition client_close :: "nat \<Rightarrow> 'm Hub \<Rightarrow> 'm Hub" where
  "client_close c h =
     (case h_store h c of
        None \<Rightarrow> h
      | Some cl \<Rightarrow>
          if cl_closed cl then h
          else unregister c
                 (h\<lparr>h_store := (h_store h)(c \<mapsto> cl\<lparr>cl_closed := True, cl_connOpen := False\<rparr>)\<rparr>))"

definition count_call :: "nat option \<Rightarrow> nat option" where
  "count_call cb = map_option Suc cb"

text \<open>One round of the broadcast loop: send without blocking, or drop the client.\<close>

definition broadcast_one :: "'m \<Rightarrow> nat \<Rightarrow> 'm Hub \<Rightarrow> 'm Hub" where
  "broadcast_one payload c h =
     (case h_store h c of
        None \<Rightarrow> h
      | Some cl \<Rightarrow>
          (case chan_trysend (nat (h_bufferSize h)) payload (cl_send cl) of
             Some buf \<Rightarrow>
               h\<lparr>h_store := (h_store h)(c \<mapsto> cl\<lparr>cl_send := buf\<rparr>), h_onSend := count_call (h_onSend h)\<rparr>
           | None \<Rightarrow>
               client_close c (h\<lparr>h_drops := h_drops h + 1, h_onDrop := count_call (h_onDrop h)\<rparr>)))"

text \<open>The whole broadcast; \<open>snapshot\<close> lists the registered clients in the order of the map iteration.\<close>

definition is_snapshot :: "nat list \<Rightarrow> 'm Hub \<Rightarrow> bool" where
  "is_snapshot snapshot h \<longleftrightarrow> distinct snapshot \<and> set snapshot = h_clients h"

definition broadcast :: "nat list \<Rightarrow> 'm \<Rightarrow> 'm Hub \<Rightarrow> 'm Hub" where
  "broadcast snapshot payload h = fold (broadcast_one payload) snapshot h"

text \<open>\<open>Start\<close> and \<open>Stop\<close>; starting and awaiting the two feed goroutines is the flag.\<close>

definition hub_Start :: "'m Hub \<Rightarrow> 'm Hub" where
  "hub_Start h = (if h_started h then h else h\<lparr>h_started := True\<rparr>)"

definition hub_Stop :: "nat list \<Rightarrow> 'm Hub \<Rightarrow> 'm Hub" where
  "hub_Stop snapshot h = (if \<not> h_started h then h else fold client_close snapshot (h\<lparr>h_started := False\<rparr>))"

subsection \<open>The pumps\<close>

definition upd_client :: "nat \<Rightarrow> ('m Client \<Rightarrow> 'm Client) \<Rightarrow> 'm Hub \<Rightarrow> 'm Hub" where
  "upd_client c f h = (case h_store h c of None \<Rightarrow> h | Some cl \<Rightarrow> h\<lparr>h_store := (h_store h)(c \<mapsto> f cl)\<rparr>)"

text \<open>
  The branches of \<open>writePump\<close>'s select: a payload that is written, a payload whose write fails, a
  failing ping, and the closed channel. Every return runs the deferred \<open>close\<close>.
\<close>

definition write_ok :: "nat \<Rightarrow> 'm Hub \<Rightarrow> 'm Hub" where
  "write_ok c h =
     upd_client c (\<lambda>cl. case chan_recv (cl_send cl) of
                          None \<Rightarrow> cl
                        | Some (payload, rest) \<Rightarrow> cl\<lparr>cl_send := rest, cl_out := cl_out cl @ [payload]\<rparr>) h"

definition write_fail :: "nat \<Rightarrow> 'm Hub \<Rightarrow> 'm Hub" where
  "write_fail c h =
     client_close c
       (upd_client c (\<lambda>cl. case chan_recv (cl_send cl) of
                             None \<Rightarrow> cl
                           | Some (payload, rest) \<Rightarrow> cl\<lparr>cl_send := rest, cl_writing := False\<rparr>) h)"

definition write_stop :: "nat \<Rightarrow> 'm Hub \<Rightarrow> 'm Hub" where
  "write_stop c h = client_close c (upd_client c (\<lambda>cl. cl\<lparr>cl_writing := False\<rparr>) h)"

definition read_stop :: "nat \<Rightarrow> 'm Hub \<Rightarrow> 'm Hub" where
  "read_stop c h = client_close c (upd_client c (\<lambda>cl. cl\<lparr>cl_reading := False\<rparr>) h)"

subsection \<open>Invariant\<close>

text \<open>
  Registered clients are exactly the open ones in the store, a client's connection is open exactly
  while it is not closed, and no buffer is longer than the hub's buffer size.
\<close>

definition client_ok :: "int \<Rightarrow> nat set \<Rightarrow> nat \<Rightarrow> 'm Client \<Rightarrow> bool" where
  "client_ok cap clients c cl \<longleftrightarrow>
     int (length (cl_send cl)) \<le> cap \<and> (cl_closed cl \<longleftrightarrow> c \<notin> clients) \<and> (cl_connOpen cl \<longleftrightarrow> \<not> cl_closed cl)"

definition hub_inv :: "'m Hub \<Rightarrow> bool" where
  "hub_inv h \<longleftrightarrow>
     0 < h_bufferSize h \<and> h_clients h \<subseteq> dom (h_store h)
     \<and> (\<forall>c cl. h_store h c = Some cl \<longrightarrow> client_ok (h_bufferSize h) (h_clients h) c cl)"

lemma hub_invD: "hub_inv h \<Longrightarrow> h_store h c = Some cl \<Longrightarrow> client_ok (h_bufferSize h) (h_clients h) c cl"
  by (simp add: hub_inv_def)

lemma hub_inv_NewHub: "hub_inv (NewHub opts)"
  by (simp add: hub_inv_def NewHub_def)

lemma hub_inv_Serve: "hub_inv h \<Longrightarrow> h_store h c = None \<Longrightarrow> hub_inv (hub_Serve c h)"
  by (auto simp: hub_inv_def hub_Serve_def register_def new_client_def client_ok_def)

lemma close_store [hub_simps]:
  "h_store (client_close c h) =
     (case h_store h c of None \<Rightarrow> h_store h
      | Some cl \<Rightarrow> if cl_closed cl then h_store h
                  else (h_store h)(c \<mapsto> cl\<lparr>cl_closed := True, cl_connOpen := False\<rparr>))"
  by (simp add: client_close_def unregister_def split: option.split)

lemma close_frame [hub_simps]:
  "h_bufferSize (client_close c h) = h_bufferSize h" "h_drops (client_close c h) = h_drops h"
  "h_onSend (client_close c h) = h_onSend h" "h_onDrop (client_close c h) = h_onDrop h"
  "h_started (client_close c h) = h_started h"
  by (simp_all add: client_close_def unregister_def split: option.split)

lemma close_clients:
  "hub_inv h \<Longrightarrow> h_store h c = Some cl \<Longrightarrow> h_clients (client_close c h) = h_clients h - {c}"
  using hub_invD [of h c cl] by (auto simp: client_close_def unregister_def client_ok_def)

lemma hub_inv_close: "hub_inv h \<Longrightarrow> hub_inv (client_close c h)"
proof (cases "h_store h c")
  case (Some cl)
  assume inv: "hub_inv h"
  then show ?thesis
    using Some close_clients [OF inv Some] hub_invD [OF inv Some]
    by (auto simp: hub_inv_def hub_simps client_ok_def split: if_splits)
qed (simp add: client_close_def)

lemma upd_client_frame [hub_simps]:
  "h_store (upd_client c f h) = (case h_store h c of None \<Rightarrow> h_store h | Some cl \<Rightarrow> (h_store h)(c \<mapsto> f cl))"
  "h_clients (upd_client c f h) = h_clients h" "h_bufferSize (upd_client c f h) = h_bufferSize h"
  "h_drops (upd_client c f h) = h_drops h" "h_onDrop (upd_client c f h) = h_onDrop h"
  by (simp_all add: upd_client_def split: option.split)

lemma hub_inv_upd:
  assumes "hub_inv h"
    and "\<And>cl. client_ok (h_bufferSize h) (h_clients h) c cl \<Longrightarrow> client_ok (h_bufferSize h) (h_clients h) c (f cl)"
  shows "hub_inv (upd_client c f h)"
  using assms hub_invD [OF assms(1)]
  by (auto simp: hub_inv_def hub_simps split: option.splits if_splits)

lemma hub_inv_pumps:
  assumes "hub_inv h"
  shows "hub_inv (write_ok c h)" "hub_inv (write_fail c h)" "hub_inv (write_stop c h)" "hub_inv (read_stop c h)"
  using assms
  by (auto simp: write_ok_def write_fail_def write_stop_def read_stop_def chan_recv_def client_ok_def
      intro!: hub_inv_close hub_inv_upd split: list.splits)

lemma broadcast_one_cases:
  assumes "h_store h c = Some cl"
  shows "int (length (cl_send cl)) < h_bufferSize h \<Longrightarrow> broadcast_one m c h =
      h\<lparr>h_store := (h_store h)(c \<mapsto> cl\<lparr>cl_send := cl_send cl @ [m]\<rparr>), h_onSend := count_call (h_onSend h)\<rparr>"
    and "\<not> int (length (cl_send cl)) < h_bufferSize h \<Longrightarrow> broadcast_one m c h =
      client_close c (h\<lparr>h_drops := h_drops h + 1, h_onDrop := count_call (h_onDrop h)\<rparr>)"
  using assms by (auto simp: broadcast_one_def chan_trysend_def zless_nat_eq_int_zless)

lemma hub_inv_broadcast_one: "hub_inv h \<Longrightarrow> hub_inv (broadcast_one m c h)"
proof (cases "h_store h c")
  case (Some cl)
  assume inv: "hub_inv h"
  show ?thesis
  proof (cases "int (length (cl_send cl)) < h_bufferSize h")
    case True
    then show ?thesis
      using Some inv hub_invD [OF inv Some]
      by (auto simp: broadcast_one_cases(1) hub_inv_def client_ok_def)
  next
    case False
    have "hub_inv (h\<lparr>h_drops := h_drops h + 1, h_onDrop := count_call (h_onDrop h)\<rparr>)"
      using inv by (simp add: hub_inv_def)
    with False Some show ?thesis by (simp add: broadcast_one_cases(2) hub_inv_close)
  qed
qed (simp add: broadcast_one_def)

lemma hub_inv_fold: "(\<And>x h. hub_inv h \<Longrightarrow> hub_inv (f x h)) \<Longrightarrow> hub_inv h \<Longrightarrow> hub_inv (fold f xs h)"
  by (induction xs arbitrary: h) auto

lemma hub_inv_flag: "hub_inv (h\<lparr>h_started := b\<rparr>) \<longleftrightarrow> hub_inv h"
  by (simp add: hub_inv_def)

lemma hub_inv_Stop: "hub_inv h \<Longrightarrow> hub_inv (hub_Stop xs h)"
  by (auto simp: hub_Stop_def hub_inv_flag intro!: hub_inv_fold hub_inv_close)

subsection \<open>A broadcast without interference\<close>

definition full :: "'m Hub \<Rightarrow> nat \<Rightarrow> bool" where
  "full h c \<longleftrightarrow> (case h_store h c of None \<Rightarrow> False | Some cl \<Rightarrow> int (length (cl_send cl)) = h_bufferSize h)"

definition shut :: "'m Client \<Rightarrow> 'm Client" where
  "shut cl = cl\<lparr>cl_closed := True, cl_connOpen := False\<rparr>"

definition push :: "'m \<Rightarrow> 'm Client \<Rightarrow> 'm Client" where
  "push m cl = cl\<lparr>cl_send := cl_send cl @ [m]\<rparr>"

text \<open>What one round does to a registered client.\<close>

lemma broadcast_one_registered:
  assumes "hub_inv h" and "c \<in> h_clients h"
  shows "broadcast_one m c h =
    (if full h c
     then h\<lparr>h_store := (h_store h)(c := map_option shut (h_store h c)), h_clients := h_clients h - {c},
            h_drops := h_drops h + 1, h_onDrop := count_call (h_onDrop h)\<rparr>
     else h\<lparr>h_store := (h_store h)(c := map_option (push m) (h_store h c)), h_onSend := count_call (h_onSend h)\<rparr>)"
proof -
  obtain cl where cl: "h_store h c = Some cl" using assms by (auto simp: hub_inv_def)
  have ok: "int (length (cl_send cl)) \<le> h_bufferSize h" "\<not> cl_closed cl"
    using hub_invD [OF assms(1) cl] assms(2) by (auto simp: client_ok_def)
  show ?thesis
  proof (cases "full h c")
    case True
    then have "\<not> int (length (cl_send cl)) < h_bufferSize h" by (simp add: full_def cl)
    then show ?thesis
      using True cl ok assms(2) by (simp add: broadcast_one_cases(2) client_close_def unregister_def shut_def)
  next
    case False
    then have "int (length (cl_send cl)) < h_bufferSize h" using ok by (simp add: full_def cl)
    then show ?thesis using False cl by (simp add: broadcast_one_cases(1) push_def)
  qed
qed

lemma full_same: "h_bufferSize h' = h_bufferSize h \<Longrightarrow> h_store h' d = h_store h d \<Longrightarrow> full h' d = full h d"
  by (simp add: full_def split: option.split)

lemma broadcast_fold:
  assumes "hub_inv h" and "distinct xs" and "set xs \<subseteq> h_clients h"
  shows "h_store (broadcast xs m h) = (\<lambda>c. if c \<in> set xs
           then map_option (if full h c then shut else push m) (h_store h c) else h_store h c)
    \<and> h_clients (broadcast xs m h) = h_clients h - {c \<in> set xs. full h c}
    \<and> h_drops (broadcast xs m h) = h_drops h + of_nat (length (filter (full h) xs))
    \<and> h_onDrop (broadcast xs m h) = map_option ((+) (length (filter (full h) xs))) (h_onDrop h)
    \<and> h_onSend (broadcast xs m h) = map_option ((+) (length (filter (\<lambda>c. \<not> full h c) xs))) (h_onSend h)"
  using assms
proof (induction xs arbitrary: h)
  case Nil
  then show ?case by (simp add: broadcast_def option.map_ident)
next
  case (Cons c xs)
  let ?h = "broadcast_one m c h"
  have c: "c \<in> h_clients h" "c \<notin> set xs" "distinct xs" using Cons.prems by auto
  have step: "broadcast (c # xs) m h = broadcast xs m ?h" by (simp add: broadcast_def)
  note one = broadcast_one_registered [OF Cons.prems(1) c(1), of m]
  have sub: "set xs \<subseteq> h_clients ?h" using Cons.prems(3) c(2) by (auto simp: one)
  have same: "full ?h d = full h d" if "d \<in> set xs" for d
    using that c(2) by (intro full_same) (auto simp: one)
  have filt: "filter (full ?h) xs = filter (full h) xs" "filter (\<lambda>c. \<not> full ?h c) xs = filter (\<lambda>c. \<not> full h c) xs"
    by (auto intro: filter_cong simp: same)
  note IH = Cons.IH [OF hub_inv_broadcast_one [OF Cons.prems(1)] c(3) sub, unfolded filt]
  show ?case
    unfolding step using IH c(2) same
    by (auto simp: one count_call_def fun_eq_iff option.map_comp comp_def)
qed

lemma close_fold:
  assumes "hub_inv h" and "distinct xs" and "set xs \<subseteq> h_clients h"
  shows "h_clients (fold client_close xs h) = h_clients h - set xs"
  using assms
proof (induction xs arbitrary: h)
  case (Cons c xs)
  obtain cl where "h_store h c = Some cl" using Cons.prems by (auto simp: hub_inv_def)
  note clients = close_clients [OF Cons.prems(1) this]
  have "set xs \<subseteq> h_clients (client_close c h)" using Cons.prems by (auto simp: clients)
  with Cons show ?case by (auto simp: clients hub_inv_close)
qed simp

lemma close_dom: "dom (h_store (client_close c h)) = dom (h_store h)"
  by (auto simp: hub_simps split: option.splits if_splits)

lemma fold_close_frame:
  "h_started (fold client_close xs h) = h_started h" "dom (h_store (fold client_close xs h)) = dom (h_store h)"
  by (induction xs arbitrary: h) (simp_all add: close_dom close_frame)

lemma hub_Stop_empty:
  assumes "hub_inv h" and "is_snapshot xs h" and "h_started h"
  shows "h_clients (hub_Stop xs h) = {} \<and> \<not> h_started (hub_Stop xs h)"
  using close_fold [of "h\<lparr>h_started := False\<rparr>" xs] assms
  by (simp add: hub_Stop_def is_snapshot_def hub_inv_flag fold_close_frame)

subsection \<open>Properties\<close>

text \<open>
  Property C12. A broadcast reaches every registered client or drops it: on a hub in a consistent
  state, each registered client with room in its buffer gets the payload at the end of the buffer,
  each one with a full buffer is closed, loses its connection and leaves the set; nobody else
  changes, the drop counter grows by exactly the number of full clients, and the metric callbacks
  run once per delivery and once per drop.
\<close>

theorem broadcast_fanout:
  assumes "hub_inv h" and "is_snapshot xs h"
  shows "h_store (broadcast xs m h) = (\<lambda>c. if c \<in> h_clients h
           then map_option (if full h c then shut else push m) (h_store h c) else h_store h c)
    \<and> h_clients (broadcast xs m h) = {c \<in> h_clients h. \<not> full h c}
    \<and> DropCount (broadcast xs m h) = DropCount h + of_nat (card {c \<in> h_clients h. full h c})
    \<and> h_onDrop (broadcast xs m h) = map_option ((+) (card {c \<in> h_clients h. full h c})) (h_onDrop h)
    \<and> h_onSend (broadcast xs m h) = map_option ((+) (card {c \<in> h_clients h. \<not> full h c})) (h_onSend h)"
proof -
  have xs: "distinct xs" "set xs = h_clients h" using assms(2) by (auto simp: is_snapshot_def)
  have count: "length (filter P xs) = card {c \<in> h_clients h. P c}" for P
    using xs distinct_card [of "filter P xs"] by (simp add: set_filter)
  show ?thesis
    using broadcast_fold [OF assms(1) xs(1), of m] xs(2)
    unfolding count DropCount_def by (auto simp: fun_eq_iff)
qed

theorem broadcast_fanout_witness:
  "h_clients (broadcast [1, 2] ''m'' (hub_Serve 2 (hub_Serve 1
      (NewHub \<lparr>o_ClientBufferSize = 8, o_OnSend = True, o_OnDrop = True\<rparr>)))) = {1, 2}"
proof -
  let ?h = "hub_Serve 2 (hub_Serve 1
      (NewHub \<lparr>o_ClientBufferSize = 8, o_OnSend = True, o_OnDrop = True\<rparr>)) :: string Hub"
  have inv: "hub_inv ?h"
    by (intro hub_inv_Serve hub_inv_NewHub) (simp_all add: hub_Serve_def register_def NewHub_def)
  have cs: "h_clients ?h = {1, 2}" by (auto simp: hub_Serve_def register_def NewHub_def)
  have "is_snapshot [1, 2] ?h" unfolding is_snapshot_def cs by simp
  moreover have "\<not> full ?h 1" "\<not> full ?h 2"
    by (simp_all add: full_def hub_Serve_def register_def NewHub_def new_client_def)
  ultimately show ?thesis
    using broadcast_fanout [OF inv, of "[1, 2]" "''m''"] unfolding cs by auto
qed

text \<open>
  \<open>Stop\<close> on a started hub leaves no client behind: all clients that were registered are
  closed and the set is empty, the hub is back in the unstarted state, and calling \<open>Stop\<close> again
  changes nothing.
\<close>

theorem hub_Stop_closes_all:
  assumes "hub_inv h" and "is_snapshot xs h" and "h_started h"
  shows "h_clients (hub_Stop xs h) = {} \<and> \<not> h_started (hub_Stop xs h)
    \<and> hub_Stop ys (hub_Stop xs h) = hub_Stop xs h \<and> hub_inv (hub_Stop xs h)
    \<and> dom (h_store (hub_Stop xs h)) = dom (h_store h)
    \<and> (\<forall>c cl. h_store (hub_Stop xs h) c = Some cl \<longrightarrow> cl_closed cl \<and> \<not> cl_connOpen cl)"
proof -
  let ?h = "h\<lparr>h_started := False\<rparr>"
  have stop: "hub_Stop xs h = fold client_close xs ?h" using assms(3) by (simp add: hub_Stop_def)
  have inv: "hub_inv (hub_Stop xs h)" by (rule hub_inv_Stop [OF assms(1)])
  have empty: "h_clients (hub_Stop xs h) = {}" and off: "\<not> h_started (hub_Stop xs h)"
    using hub_Stop_empty [OF assms] by simp_all
  have "cl_closed cl \<and> \<not> cl_connOpen cl" if "h_store (hub_Stop xs h) c = Some cl" for c cl
    using hub_invD [OF inv that] empty by (simp add: client_ok_def)
  then show ?thesis
    using inv empty off by (auto simp: hub_Stop_def [of ys] stop fold_close_frame)
qed

theorem hub_Stop_closes_all_witness:
  "h_clients (hub_Stop [5] (hub_Start (hub_Serve 5
      (NewHub \<lparr>o_ClientBufferSize = 0, o_OnSend = False, o_OnDrop = False\<rparr> :: string Hub)))) = {}"
proof -
  let ?h = "hub_Start (hub_Serve 5 (NewHub \<lparr>o_ClientBufferSize = 0, o_OnSend = False, o_OnDrop = False\<rparr> :: string Hub))"
  have "hub_inv (hub_Serve 5 (NewHub \<lparr>o_ClientBufferSize = 0, o_OnSend = False, o_OnDrop = False\<rparr> :: string Hub))"
    by (intro hub_inv_Serve hub_inv_NewHub) (simp add: NewHub_def)
  then have "hub_inv ?h" by (simp add: hub_Start_def hub_inv_flag)
  moreover have "is_snapshot [5] ?h" "h_started ?h"
    by (simp_all add: is_snapshot_def hub_Start_def hub_Serve_def register_def NewHub_def)
  ultimately show ?thesis by (simp only: hub_Stop_closes_all)
qed

end
