(* ===== verification/Hub_Steps.thy ===== *)
theory Hub_Steps
  imports Hub "HOL-Library.Sublist"
begin

text \<open>
  The hub under concurrency. Its goroutines are the two feeds, which broadcast one message after
  the other, the read and write pump of every client, the HTTP server that accepts clients, and the
  caller of \<open>Start\<close> and \<open>Stop\<close>. A step is one access to shared state: taking a snapshot under the
  lock, one send or drop, one pump iteration, one \<open>close\<close>. (A close is one step: the set of clients
  is only read when a snapshot is taken, so the moment between closing the channel and leaving the
  set cannot be told from an earlier snapshot.)

  Besides the hub the state has, for each feed, the broadcast in progress and the log of the
  messages it has broadcast, and for each client how long each log was when it connected; the last
  two are only there to state what clients receive. Messages carry the feed they come from.
\<close>

datatype feed = PriceFeed | IndexerFeed

record 'p sys =
  sy_hub :: "(feed \<times> 'p) Hub"
  sy_pending :: "feed \<Rightarrow> ('p \<times> nat list) option"
  sy_stopping :: "nat list option"
  sy_log :: "feed \<Rightarrow> 'p list"
  sy_joined :: "nat \<Rightarrow> feed \<Rightarrow> nat"

definition sys_init :: "'p sys \<Rightarrow> bool" where
  "sys_init s \<longleftrightarrow> (\<exists>opts. sy_hub s = NewHub opts) \<and> sy_pending s = (\<lambda>_. None) \<and> sy_stopping s = None
     \<and> sy_log s = (\<lambda>_. [])"

inductive hub_step :: "'p sys \<Rightarrow> 'p sys \<Rightarrow> bool" where
  connect: "h_store (sy_hub s) c = None \<Longrightarrow>
    hub_step s (s\<lparr>sy_hub := hub_Serve c (sy_hub s),
                  sy_joined := (sy_joined s)(c := \<lambda>f. length (sy_log s f))\<rparr>)"
| snapshot: "sy_pending s f = None \<Longrightarrow> is_snapshot xs (sy_hub s) \<Longrightarrow>
    hub_step s (s\<lparr>sy_pending := (sy_pending s)(f := Some (p, xs)),
                  sy_log := (sy_log s)(f := sy_log s f @ [p])\<rparr>)"
| deliver: "sy_pending s f = Some (p, c # xs) \<Longrightarrow>
    hub_step s (s\<lparr>sy_hub := broadcast_one (f, p) c (sy_hub s),
                  sy_pending := (sy_pending s)(f := Some (p, xs))\<rparr>)"
| finish: "sy_pending s f = Some (p, []) \<Longrightarrow>
    hub_step s (s\<lparr>sy_pending := (sy_pending s)(f := None)\<rparr>)"
| write_ok: "h_store (sy_hub s) c = Some cl \<Longrightarrow> cl_writing cl \<Longrightarrow> cl_connOpen cl \<Longrightarrow> cl_send cl \<noteq> [] \<Longrightarrow>
    hub_step s (s\<lparr>sy_hub := write_ok c (sy_hub s)\<rparr>)"
| write_fail: "h_store (sy_hub s) c = Some cl \<Longrightarrow> cl_writing cl \<Longrightarrow> cl_send cl \<noteq> [] \<Longrightarrow>
    hub_step s (s\<lparr>sy_hub := write_fail c (sy_hub s)\<rparr>)"
| write_stop: "h_store (sy_hub s) c = Some cl \<Longrightarrow> cl_writing cl \<Longrightarrow>
    hub_step s (s\<lparr>sy_hub := write_stop c (sy_hub s)\<rparr>)"
| read_stop: "h_store (sy_hub s) c = Some cl \<Longrightarrow> cl_reading cl \<Longrightarrow>
    hub_step s (s\<lparr>sy_hub := read_stop c (sy_hub s)\<rparr>)"
| start: "hub_step s (s\<lparr>sy_hub := hub_Start (sy_hub s)\<rparr>)"
| stop: "h_started (sy_hub s) \<Longrightarrow> sy_stopping s = None \<Longrightarrow> is_snapshot xs (sy_hub s) \<Longrightarrow>
    hub_step s (s\<lparr>sy_hub := (sy_hub s)\<lparr>h_started := False\<rparr>, sy_stopping := Some xs\<rparr>)"
| stop_close: "sy_stopping s = Some (c # xs) \<Longrightarrow>
    hub_step s (s\<lparr>sy_hub := client_close c (sy_hub s), sy_stopping := Some xs\<rparr>)"
| stop_done: "sy_stopping s = Some [] \<Longrightarrow> hub_step s (s\<lparr>sy_stopping := None\<rparr>)"

inductive_cases hub_stepE: "hub_step s t"

subsection \<open>What a client should have\<close>

definition of_feed :: "feed \<Rightarrow> (feed \<times> 'p) list \<Rightarrow> 'p list" where
  "of_feed f ms = map snd (filter (\<lambda>x. fst x = f) ms)"

definition since_joined :: "'p sys \<Rightarrow> nat \<Rightarrow> feed \<Rightarrow> 'p list" where
  "since_joined s c f = drop (sy_joined s c f) (sy_log s f)"

definition in_flight :: "'p sys \<Rightarrow> nat \<Rightarrow> feed \<Rightarrow> bool" where
  "in_flight s c f = (case sy_pending s f of None \<Rightarrow> False | Some (p, xs) \<Rightarrow> c \<in> set xs)"

definition expected :: "'p sys \<Rightarrow> nat \<Rightarrow> feed \<Rightarrow> 'p list" where
  "expected s c f = (if in_flight s c f then butlast (since_joined s c f) else since_joined s c f)"

definition pending_ok :: "'p sys \<Rightarrow> feed \<Rightarrow> bool" where
  "pending_ok s f \<longleftrightarrow> (\<forall>p xs. sy_pending s f = Some (p, xs) \<longrightarrow>
     distinct xs \<and> sy_log s f \<noteq> [] \<and> last (sy_log s f) = p
     \<and> (\<forall>c \<in> set xs. c \<in> dom (h_store (sy_hub s)) \<and> sy_joined s c f < length (sy_log s f)))"

definition client_feed_ok :: "'p sys \<Rightarrow> nat \<Rightarrow> (feed \<times> 'p) Client \<Rightarrow> feed \<Rightarrow> bool" where
  "client_feed_ok s c cl f \<longleftrightarrow>
     sy_joined s c f \<le> length (sy_log s f)
     \<and> prefix (of_feed f (cl_out cl)) (since_joined s c f)
     \<and> (\<not> cl_closed cl \<longrightarrow> of_feed f (cl_out cl @ cl_send cl) = expected s c f)"

definition sys_inv :: "'p sys \<Rightarrow> bool" where
  "sys_inv s \<longleftrightarrow> hub_inv (sy_hub s) \<and> (\<forall>f. pending_ok s f)
     \<and> (\<forall>c cl f. h_store (sy_hub s) c = Some cl \<longrightarrow> client_feed_ok s c cl f)"

lemma of_feed_append [simp]: "of_feed f (xs @ ys) = of_feed f xs @ of_feed f ys"
  by (simp add: of_feed_def)

lemma of_feed_simps [simp]: "of_feed f [] = []" "of_feed f [(g, p)] = (if g = f then [p] else [])"
  by (simp_all add: of_feed_def)

lemma expected_prefix: "prefix (expected s c f) (since_joined s c f)"
  by (simp add: expected_def butlast_conv_take take_is_prefix)

lemma sys_inv_init: "sys_init s \<Longrightarrow> sys_inv s"
  by (auto simp: sys_init_def sys_inv_def hub_inv_NewHub pending_ok_def) (simp add: NewHub_def)

lemma sys_invD:
  assumes "sys_inv s"
  shows "hub_inv (sy_hub s)" "pending_ok s f"
    "h_store (sy_hub s) c = Some cl \<Longrightarrow> client_feed_ok s c cl f"
  using assms by (simp_all add: sys_inv_def)

subsection \<open>Steps that only close one client\<close>

text \<open>
  The pumps and \<open>Stop\<close> close a client or leave it: the others keep their state, and the client
  itself ends closed with the frames it already had.
\<close>

definition shuts :: "nat \<Rightarrow> (feed \<times> 'p) Hub \<Rightarrow> (feed \<times> 'p) Hub \<Rightarrow> bool" where
  "shuts c h h' \<longleftrightarrow> hub_inv h' \<and> (\<forall>d. d \<noteq> c \<longrightarrow> h_store h' d = h_store h d)
     \<and> (\<forall>cl'. h_store h' c = Some cl' \<longrightarrow> cl_closed cl' \<and> (\<exists>cl. h_store h c = Some cl \<and> cl_out cl' = cl_out cl))
     \<and> dom (h_store h') = dom (h_store h)"

lemma sys_inv_shuts:
  assumes "sys_inv s" and "shuts c (sy_hub s) h'"
  shows "sys_inv (s\<lparr>sy_hub := h'\<rparr>)"
proof -
  have "pending_ok (s\<lparr>sy_hub := h'\<rparr>) f" for f
    using sys_invD(2) [OF assms(1), of f] assms(2) by (simp add: pending_ok_def shuts_def)
  moreover have "client_feed_ok (s\<lparr>sy_hub := h'\<rparr>) d cl' f" if "h_store h' d = Some cl'" for d cl' f
  proof -
    have same: "since_joined (s\<lparr>sy_hub := h'\<rparr>) e f = since_joined s e f"
        "expected (s\<lparr>sy_hub := h'\<rparr>) e f = expected s e f" for e
      by (simp_all add: expected_def since_joined_def in_flight_def)
    show ?thesis
    proof (cases "d = c")
      case True
      then have "h_store h' c = Some cl'" using that by simp
      then have "cl_closed cl' \<and> (\<exists>cl. h_store (sy_hub s) c = Some cl \<and> cl_out cl' = cl_out cl)"
        using assms(2) by (simp add: shuts_def)
      then obtain cl where "h_store (sy_hub s) c = Some cl" "cl_out cl' = cl_out cl" "cl_closed cl'" by blast
      with sys_invD(3) [OF assms(1), of c cl f] True show ?thesis by (simp add: client_feed_ok_def same)
    next
      case False
      then have "h_store (sy_hub s) d = Some cl'" using assms(2) that by (simp add: shuts_def)
      with sys_invD(3) [OF assms(1), of d cl' f] show ?thesis by (simp add: client_feed_ok_def same)
    qed
  qed
  ultimately show ?thesis using assms(2) by (simp add: sys_inv_def shuts_def)
qed

lemma shuts_close: "hub_inv h \<Longrightarrow> shuts c h (client_close c h)"
  by (auto simp: shuts_def hub_inv_close hub_simps split: option.splits if_splits)

lemma shuts_pumps:
  assumes "hub_inv h"
  shows "shuts c h (write_fail c h)" "shuts c h (write_stop c h)" "shuts c h (read_stop c h)"
  using hub_inv_pumps [OF assms, of c]
  by (auto simp: shuts_def write_fail_def write_stop_def read_stop_def hub_simps chan_recv_def
      split: option.splits if_splits list.splits)

subsection \<open>The other steps\<close>

lemma pending_okD:
  assumes "pending_ok s f" and "sy_pending s f = Some (p, xs)"
  shows "distinct xs" "sy_log s f \<noteq> []" "last (sy_log s f) = p"
    "c \<in> set xs \<Longrightarrow> c \<in> dom (h_store (sy_hub s)) \<and> sy_joined s c f < length (sy_log s f)"
  using assms by (auto simp: pending_ok_def)

lemma sys_inv_connect:
  assumes "sys_inv s" and "h_store (sy_hub s) c = None"
  shows "sys_inv (s\<lparr>sy_hub := hub_Serve c (sy_hub s), sy_joined := (sy_joined s)(c := \<lambda>f. length (sy_log s f))\<rparr>)"
    (is "sys_inv ?t")
proof -
  have store: "h_store (hub_Serve c (sy_hub s)) = (h_store (sy_hub s))(c \<mapsto> new_client)"
    by (simp add: hub_Serve_def register_def)
  have out: "\<not> in_flight s c f" for f
    using sys_invD(2) [OF assms(1), of f] assms(2)
    by (fastforce simp: in_flight_def pending_ok_def split: option.splits)
  have "pending_ok ?t f" for f
  proof (cases "sy_pending s f")
    case (Some pxs)
    obtain p xs where pxs: "sy_pending s f = Some (p, xs)" using Some by (cases pxs) auto
    note ok = pending_okD [OF sys_invD(2) [OF assms(1)] pxs]
    have "c \<notin> set xs" using ok(4) [of c] assms(2) by auto
    then show ?thesis using ok by (auto simp: pending_ok_def pxs store)
  qed (simp add: pending_ok_def)
  moreover have "client_feed_ok ?t d cl f" if "h_store (sy_hub ?t) d = Some cl" for d cl f
  proof (cases "d = c")
    case True
    then show ?thesis
      using that out [of f]
      by (auto simp: store client_feed_ok_def since_joined_def expected_def in_flight_def new_client_def)
  next
    case False
    then show ?thesis
      using that sys_invD(3) [OF assms(1), of d cl f]
      by (simp add: store client_feed_ok_def since_joined_def expected_def in_flight_def)
  qed
  ultimately show ?thesis
    using hub_inv_Serve [OF sys_invD(1) [OF assms(1)] assms(2)] by (simp add: sys_inv_def)
qed

lemma sys_inv_snapshot:
  assumes "sys_inv s" and "sy_pending s f = None" and "is_snapshot xs (sy_hub s)"
  shows "sys_inv (s\<lparr>sy_pending := (sy_pending s)(f := Some (p, xs)), sy_log := (sy_log s)(f := sy_log s f @ [p])\<rparr>)"
    (is "sys_inv ?t")
proof -
  note hinv = sys_invD(1) [OF assms(1)]
  have xs: "distinct xs" "set xs = h_clients (sy_hub s)" using assms(3) by (auto simp: is_snapshot_def)
  have joined: "sy_joined s c f \<le> length (sy_log s f)" if "c \<in> set xs" for c
    using that xs hinv sys_invD(3) [OF assms(1), of c _ f] by (auto simp: hub_inv_def client_feed_ok_def)
  have "pending_ok ?t g" for g
  proof (cases "g = f")
    case True
    then show ?thesis using xs joined hinv by (auto simp: pending_ok_def hub_inv_def less_Suc_eq_le)
  next
    case False
    then show ?thesis
      using sys_invD(2) [OF assms(1), of g] by (simp add: pending_ok_def)
  qed
  moreover have "client_feed_ok ?t c cl g" if "h_store (sy_hub s) c = Some cl" for c cl g
  proof (cases "g = f")
    case True
    have ok: "client_feed_ok s c cl f" using that by (rule sys_invD(3) [OF assms(1)])
    then have j: "sy_joined s c f \<le> length (sy_log s f)" by (simp add: client_feed_ok_def)
    have "c \<in> set xs" if "\<not> cl_closed cl"
      using that xs hub_invD [OF hinv \<open>h_store (sy_hub s) c = Some cl\<close>] by (simp add: client_ok_def)
    with ok j True show ?thesis
      by (auto simp: client_feed_ok_def since_joined_def expected_def in_flight_def assms(2) butlast_append)
  next
    case False
    then show ?thesis
      using that sys_invD(3) [OF assms(1), of c cl g]
      by (simp add: client_feed_ok_def since_joined_def expected_def in_flight_def)
  qed
  ultimately show ?thesis using hinv by (simp add: sys_inv_def)
qed

lemma sys_inv_finish:
  assumes "sys_inv s" and "sy_pending s f = Some (p, [])"
  shows "sys_inv (s\<lparr>sy_pending := (sy_pending s)(f := None)\<rparr>)" (is "sys_inv ?t")
proof -
  have flight: "in_flight ?t c g = in_flight s c g" for c g
    using assms(2) by (simp add: in_flight_def)
  have "pending_ok ?t g" for g
    using sys_invD(2) [OF assms(1), of g] by (simp add: pending_ok_def)
  moreover have "client_feed_ok ?t c cl g" if "h_store (sy_hub s) c = Some cl" for c cl g
    using sys_invD(3) [OF assms(1) that, of g]
    by (simp add: client_feed_ok_def since_joined_def expected_def flight)
  ultimately show ?thesis using sys_invD(1) [OF assms(1)] by (simp add: sys_inv_def)
qed

lemma butlast_snoc_last: "j < length xs \<Longrightarrow> butlast (drop j xs) @ [last xs] = drop j xs"
  by (metis append_butlast_last_id drop_eq_Nil last_drop not_less)

text \<open>One delivery: the store afterwards, client by client.\<close>

lemma deliver_store:
  assumes "hub_inv h" and "h_store h c = Some cl"
  shows "d \<noteq> c \<Longrightarrow> h_store (broadcast_one m c h) d = h_store h d"
    and "\<exists>cl'. h_store (broadcast_one m c h) c = Some cl' \<and> cl_out cl' = cl_out cl
           \<and> (\<not> cl_closed cl' \<longrightarrow> \<not> cl_closed cl \<and> cl_send cl' = cl_send cl @ [m])"
    and "dom (h_store (broadcast_one m c h)) = dom (h_store h)"
  using broadcast_one_cases [OF assms(2), of m] assms(2)
  by (cases "int (length (cl_send cl)) < h_bufferSize h"; auto simp: hub_simps split: if_splits)+

lemma sys_inv_deliver:
  assumes "sys_inv s" and "sy_pending s f = Some (p, c # xs)"
  shows "sys_inv (s\<lparr>sy_hub := broadcast_one (f, p) c (sy_hub s), sy_pending := (sy_pending s)(f := Some (p, xs))\<rparr>)"
    (is "sys_inv ?t")
proof -
  note hinv = sys_invD(1) [OF assms(1)]
  note pend = pending_okD [OF sys_invD(2) [OF assms(1)] assms(2)]
  obtain cl where cl: "h_store (sy_hub s) c = Some cl" using pend(4) [of c] by auto
  note store = deliver_store [OF hinv cl, where m = "(f, p)"]
  have since: "since_joined ?t d g = since_joined s d g" for d g by (simp add: since_joined_def)
  have flight: "in_flight ?t d g \<longleftrightarrow> in_flight s d g \<and> (g \<noteq> f \<or> d \<noteq> c)" for d g
    using assms(2) pend(1) by (auto simp: in_flight_def)
  have "pending_ok ?t g" for g
    using sys_invD(2) [OF assms(1), of g] pend store(3)
    by (cases "g = f") (auto simp: pending_ok_def)
  moreover have "client_feed_ok ?t d dl g" if "h_store (sy_hub ?t) d = Some dl" for d dl g
  proof (cases "d = c")
    case False
    then have "h_store (sy_hub s) d = Some dl" using that store(1) by simp
    from sys_invD(3) [OF assms(1) this, of g] show ?thesis
      using False by (simp add: client_feed_ok_def since expected_def flight)
  next
    case True
    obtain cl' where "h_store (broadcast_one (f, p) c (sy_hub s)) c = Some cl'" and out: "cl_out cl' = cl_out cl"
      and send: "\<not> cl_closed cl' \<longrightarrow> \<not> cl_closed cl \<and> cl_send cl' = cl_send cl @ [(f, p)]"
      using store(2) by blast
    then have cl': "dl = cl'" "cl_out cl' = cl_out cl" using that True by simp_all
    have ok: "client_feed_ok s c cl g" by (rule sys_invD(3) [OF assms(1) cl])
    have "expected ?t c f = expected s c f @ [p]"
      using butlast_snoc_last [of "sy_joined s c f" "sy_log s f"] pend(3) pend(4) [of c] assms(2)
      by (simp add: expected_def flight since) (simp add: in_flight_def since_joined_def)
    moreover have "expected ?t c g = expected s c g" if "g \<noteq> f"
      using that by (simp add: expected_def flight since)
    ultimately show ?thesis
      using ok send cl' True by (cases "g = f") (auto simp: client_feed_ok_def since)
  qed
  ultimately show ?thesis using hub_inv_broadcast_one [OF hinv] by (simp add: sys_inv_def)
qed

lemma sys_inv_write_ok:
  assumes "sys_inv s" and cl: "h_store (sy_hub s) c = Some cl" "cl_connOpen cl" "cl_send cl \<noteq> []"
  shows "sys_inv (s\<lparr>sy_hub := write_ok c (sy_hub s)\<rparr>)" (is "sys_inv ?t")
proof -
  note hinv = sys_invD(1) [OF assms(1)]
  obtain m ms where ms: "cl_send cl = m # ms" using cl(3) by (cases "cl_send cl") auto
  let ?cl = "cl\<lparr>cl_send := ms, cl_out := cl_out cl @ [m]\<rparr>"
  have store: "h_store (write_ok c (sy_hub s)) = (h_store (sy_hub s))(c \<mapsto> ?cl)"
    by (simp add: write_ok_def hub_simps cl(1) chan_recv_def ms)
  have same: "since_joined ?t d g = since_joined s d g" "expected ?t d g = expected s d g" for d g
    by (simp_all add: since_joined_def expected_def in_flight_def)
  have "pending_ok ?t g" for g
    using sys_invD(2) [OF assms(1), of g] cl(1)
    by (auto simp: pending_ok_def store)
  moreover have "client_feed_ok ?t d dl g" if dl: "h_store (sy_hub ?t) d = Some dl" for d dl g
  proof (cases "d = c")
    case True
    have "\<not> cl_closed cl" using hub_invD [OF hinv cl(1)] cl(2) by (auto simp: client_ok_def)
    then have all: "of_feed g (cl_out cl @ m # ms) = expected s c g" and j: "sy_joined s c g \<le> length (sy_log s g)"
      using sys_invD(3) [OF assms(1) cl(1), of g] by (simp_all add: client_feed_ok_def ms)
    have new: "of_feed g (cl_out ?cl @ cl_send ?cl) = expected s c g" using all by simp
    then have "prefix (of_feed g (cl_out ?cl)) (expected s c g)" by (metis of_feed_append prefixI)
    then have "prefix (of_feed g (cl_out ?cl)) (since_joined s c g)"
      using expected_prefix prefix_order.trans by blast
    then show ?thesis
      using dl True j new by (auto simp: client_feed_ok_def store same simp del: of_feed_append)
  next
    case False
    then have "h_store (sy_hub s) d = Some dl" using dl by (simp add: store)
    from sys_invD(3) [OF assms(1) this, of g] show ?thesis by (simp add: client_feed_ok_def same)
  qed
  ultimately show ?thesis using hub_inv_pumps(1) [OF hinv] by (simp add: sys_inv_def)
qed

subsection \<open>The invariant of the whole system\<close>

lemma sys_inv_stopping [simp]: "sys_inv (s\<lparr>sy_stopping := x\<rparr>) \<longleftrightarrow> sys_inv s"
  by (simp add: sys_inv_def pending_ok_def client_feed_ok_def since_joined_def expected_def in_flight_def)

lemma sys_inv_flag: "sys_inv s \<Longrightarrow> sys_inv (s\<lparr>sy_hub := (sy_hub s)\<lparr>h_started := b\<rparr>\<rparr>)"
  by (simp add: sys_inv_def hub_inv_flag pending_ok_def client_feed_ok_def since_joined_def expected_def in_flight_def)

lemma sys_inv_start: "sys_inv s \<Longrightarrow> sys_inv (s\<lparr>sy_hub := hub_Start (sy_hub s)\<rparr>)"
  using sys_inv_flag [of s True] by (simp add: hub_Start_def)

lemma sys_inv_step: "sys_inv s \<Longrightarrow> hub_step s t \<Longrightarrow> sys_inv t"
proof (erule hub_stepE, goal_cases)
  case (1 c) then show ?case by (simp add: sys_inv_connect)
next
  case (2 f xs p) then show ?case by (simp add: sys_inv_snapshot)
next
  case (3 f p c xs) then show ?case by (simp add: sys_inv_deliver)
next
  case (4 f p) then show ?case by (simp add: sys_inv_finish)
next
  case (5 c cl) then show ?case by (simp add: sys_inv_write_ok)
next
  case (6 c cl)
  then show ?case using sys_inv_shuts [OF 6(1) shuts_pumps(1) [OF sys_invD(1) [OF 6(1)]]] by simp
next
  case (7 c cl)
  then show ?case using sys_inv_shuts [OF 7(1) shuts_pumps(2) [OF sys_invD(1) [OF 7(1)]]] by simp
next
  case (8 c cl)
  then show ?case using sys_inv_shuts [OF 8(1) shuts_pumps(3) [OF sys_invD(1) [OF 8(1)]]] by simp
next
  case 9 then show ?case by (simp add: sys_inv_start)
next
  case (10 xs)
  have "sys_inv ((s\<lparr>sy_hub := (sy_hub s)\<lparr>h_started := False\<rparr>\<rparr>)\<lparr>sy_stopping := Some xs\<rparr>)"
    using sys_inv_flag [OF 10(1)] by simp
  with 10 show ?case by simp
next
  case (11 c xs)
  have "sys_inv ((s\<lparr>sy_hub := client_close c (sy_hub s)\<rparr>)\<lparr>sy_stopping := Some xs\<rparr>)"
    using sys_inv_shuts [OF 11(1) shuts_close [OF sys_invD(1) [OF 11(1)]]] by simp
  with 11 show ?case by simp
next
  case 12 then show ?case by simp
qed

interpretation hub_system: invariant_system sys_init hub_step sys_inv
  by unfold_locales (auto intro: sys_inv_init sys_inv_step)

subsection \<open>A sample run\<close>

text \<open>A run of the hub with one-frame buffers: one client connects and the price feed sends it a frame.\<close>

definition run0 :: "nat sys" where
  "run0 = \<lparr>sy_hub = NewHub \<lparr>o_ClientBufferSize = 1, o_OnSend = True, o_OnDrop = True\<rparr>, sy_pending = (\<lambda>_. None),
     sy_stopping = None, sy_log = (\<lambda>_. []), sy_joined = (\<lambda>_ _. 0)\<rparr>"

definition run1 :: "nat sys" where
  "run1 = run0\<lparr>sy_hub := hub_Serve 0 (sy_hub run0), sy_joined := (sy_joined run0)(0 := \<lambda>f. length (sy_log run0 f))\<rparr>"

definition run_snapshot :: "feed \<Rightarrow> nat \<Rightarrow> nat sys \<Rightarrow> nat sys" where
  "run_snapshot f p s = s\<lparr>sy_pending := (sy_pending s)(f := Some (p, [0])), sy_log := (sy_log s)(f := sy_log s f @ [p])\<rparr>"

definition run_deliver :: "feed \<Rightarrow> nat \<Rightarrow> nat sys \<Rightarrow> nat sys" where
  "run_deliver f p s = s\<lparr>sy_hub := broadcast_one (f, p) 0 (sy_hub s), sy_pending := (sy_pending s)(f := Some (p, []))\<rparr>"

definition run_finish :: "feed \<Rightarrow> nat sys \<Rightarrow> nat sys" where
  "run_finish f s = s\<lparr>sy_pending := (sy_pending s)(f := None)\<rparr>"

definition run4 :: "nat sys" where
  "run4 = run_finish PriceFeed (run_deliver PriceFeed 7 (run_snapshot PriceFeed 7 run1))"

lemmas run_defs = run4_def run1_def run0_def run_snapshot_def run_deliver_def run_finish_def
  hub_Serve_def register_def NewHub_def new_client_def broadcast_one_def chan_trysend_def is_snapshot_def

lemma reachable_run_snapshot:
  "reachable sys_init hub_step s \<Longrightarrow> sy_pending s f = None \<Longrightarrow> is_snapshot [0] (sy_hub s) \<Longrightarrow>
     reachable sys_init hub_step (run_snapshot f p s)"
  unfolding run_snapshot_def by (erule reachable_step, rule hub_step.snapshot)

lemma reachable_run_deliver:
  "reachable sys_init hub_step s \<Longrightarrow> sy_pending s f = Some (p, [0]) \<Longrightarrow> reachable sys_init hub_step (run_deliver f p s)"
  unfolding run_deliver_def by (erule reachable_step, rule hub_step.deliver)

lemma reachable_run_finish:
  "reachable sys_init hub_step s \<Longrightarrow> sy_pending s f = Some (p, []) \<Longrightarrow> reachable sys_init hub_step (run_finish f s)"
  unfolding run_finish_def by (erule reachable_step, rule hub_step.finish)

lemma reachable_run4: "reachable sys_init hub_step run4"
proof -
  have "reachable sys_init hub_step run0"
    by (rule reachable_init) (auto simp: sys_init_def run0_def)
  then have "reachable sys_init hub_step run1"
    unfolding run1_def by (rule reachable_step, intro hub_step.connect) (simp add: run_defs)
  then show ?thesis
    unfolding run4_def
    by (intro reachable_run_finish [where p = 7] reachable_run_deliver reachable_run_snapshot) (auto simp: run_defs)
qed

subsection \<open>Properties\<close>



text \<open>
  Property C9. Every client gets every feed in order and without gaps or repeats, under every
  interleaving: the frames of a feed that were written to a client's connection are an initial piece
  of what the feed broadcast since the client connected; and while a client is open, the frames
  written and those still in its buffer are together everything the feed broadcast since then, but
  for the one broadcast that has not come to this client yet.
\<close>

theorem feed_order_no_gaps:
  assumes "reachable sys_init hub_step s" and "h_store (sy_hub s) c = Some cl"
  shows "prefix (of_feed f (cl_out cl)) (drop (sy_joined s c f) (sy_log s f))
    \<and> (cl_closed cl \<or>
       of_feed f (cl_out cl @ cl_send cl) =
         (let all = drop (sy_joined s c f) (sy_log s f) in if in_flight s c f then butlast all else all))"
  using sys_invD(3) [OF hub_system.inv_reachable [OF assms(1)] assms(2), of f]
  by (auto simp: client_feed_ok_def since_joined_def expected_def Let_def)

theorem feed_order_no_gaps_witness:
  "\<exists>cl. h_store (sy_hub run4) 0 = Some cl \<and> of_feed PriceFeed (cl_out cl @ cl_send cl) = [7]"
proof -
  obtain cl where cl: "h_store (sy_hub run4) 0 = Some cl" and "\<not> cl_closed cl" by (auto simp: run_defs)
  moreover have "sy_joined run4 0 PriceFeed = 0" "sy_log run4 PriceFeed = [7]" "\<not> in_flight run4 0 PriceFeed"
    by (simp_all add: run_defs in_flight_def)
  ultimately show ?thesis
    using feed_order_no_gaps [OF reachable_run4 cl, of PriceFeed] by (simp add: Let_def)
qed

text \<open>
  Property C37. The drop counter can count one client twice: with two broadcasts in progress that both
  hold the same slow client in their snapshots, each of them finds the buffer full, so a hub to which
  only one client ever connected reports two drops.
\<close>

theorem drop_counted_twice:
  "\<exists>s :: nat sys. reachable sys_init hub_step s \<and> dom (h_store (sy_hub s)) = {0} \<and> DropCount (sy_hub s) = 2
     \<and> h_onDrop (sy_hub s) = Some 2"
proof -
  let ?s = "run_deliver IndexerFeed 9 (run_deliver PriceFeed 8 (run_snapshot IndexerFeed 9 (run_snapshot PriceFeed 8 run4)))"
  have "reachable sys_init hub_step ?s"
    by (intro reachable_run_deliver reachable_run_snapshot reachable_run4) (auto simp: run_defs)
  moreover have "dom (h_store (sy_hub ?s)) = {0} \<and> DropCount (sy_hub ?s) = 2 \<and> h_onDrop (sy_hub ?s) = Some 2"
    by (simp add: run_defs client_close_def unregister_def DropCount_def count_call_def)
  ultimately show ?thesis by blast
qed

end
