(* ===== verification/Hub_Spec.thy ===== *)
theory Hub_Spec
  imports Hub_Steps
begin

text \<open>
  What the hub promises, as an abstract broker: one log of published messages per feed, and for each
  subscriber the stretch of each log it has received. The hub with its buffers, snapshots and pumps
  refines it.
\<close>

subsection \<open>The broker\<close>

record 'p broker =
  br_log :: "feed \<Rightarrow> 'p list"
  br_subs :: "nat \<rightharpoonup> (feed \<Rightarrow> nat \<times> nat)"
  br_live :: "nat set"

definition broker_init :: "'p broker \<Rightarrow> bool" where
  "broker_init b \<longleftrightarrow> br_log b = (\<lambda>_. []) \<and> br_subs b = Map.empty \<and> br_live b = {}"

inductive broker_step :: "'p broker \<Rightarrow> 'p broker \<Rightarrow> bool" where
  publish: "broker_step b (b\<lparr>br_log := (br_log b)(f := br_log b f @ [p])\<rparr>)"
| subscribe: "br_subs b c = None \<Longrightarrow>
    broker_step b (b\<lparr>br_subs := (br_subs b)(c \<mapsto> \<lambda>f. (length (br_log b f), length (br_log b f))),
                    br_live := insert c (br_live b)\<rparr>)"
| receive: "c \<in> br_live b \<Longrightarrow> br_subs b c = Some cur \<Longrightarrow> cur f = (i, j) \<Longrightarrow> j < length (br_log b f) \<Longrightarrow>
    broker_step b (b\<lparr>br_subs := (br_subs b)(c \<mapsto> cur(f := (i, Suc j)))\<rparr>)"
| leave: "c \<in> br_live b \<Longrightarrow> broker_step b (b\<lparr>br_live := br_live b - {c}\<rparr>)"

text \<open>The messages of a feed that a subscriber has received.\<close>

definition received :: "'p broker \<Rightarrow> nat \<Rightarrow> feed \<Rightarrow> 'p list" where
  "received b c f =
     (case br_subs b c of None \<Rightarrow> [] | Some cur \<Rightarrow> take (snd (cur f) - fst (cur f)) (drop (fst (cur f)) (br_log b f)))"

subsection \<open>The abstraction\<close>

definition cursors :: "'p sys \<Rightarrow> nat \<Rightarrow> (feed \<times> 'p) Client \<Rightarrow> feed \<Rightarrow> nat \<times> nat" where
  "cursors s c cl f = (sy_joined s c f, sy_joined s c f + length (of_feed f (cl_out cl)))"

definition hub_abs :: "'p sys \<Rightarrow> 'p broker" where
  "hub_abs s = \<lparr>br_log = sy_log s, br_subs = (\<lambda>c. map_option (cursors s c) (h_store (sy_hub s) c)),
                br_live = h_clients (sy_hub s)\<rparr>"

lemma hub_abs_eqI:
  assumes "sy_log t = sy_log s" and "h_clients (sy_hub t) = h_clients (sy_hub s)"
    and "\<And>c. map_option (cursors t c) (h_store (sy_hub t) c) = map_option (cursors s c) (h_store (sy_hub s) c)"
  shows "hub_abs t = hub_abs s"
  using assms by (simp add: hub_abs_def)

lemma close_clients_all: "hub_inv h \<Longrightarrow> h_clients (client_close c h) = h_clients h - {c}"
proof (cases "h_store h c")
  case None
  moreover assume "hub_inv h"
  ultimately have "c \<notin> h_clients h" by (auto simp: hub_inv_def)
  with None show ?thesis by (simp add: client_close_def)
qed (simp add: close_clients)

text \<open>Closing a client is its leaving, or nothing if it had left before.\<close>

lemma abs_leave:
  assumes "shuts c (sy_hub s) h'" and "h_clients h' = h_clients (sy_hub s) - {c}"
  shows "broker_step\<^sup>=\<^sup>= (hub_abs s) (hub_abs (s\<lparr>sy_hub := h'\<rparr>))"
proof -
  have "map_option (cursors (s\<lparr>sy_hub := h'\<rparr>) d) (h_store h' d) = map_option (cursors s d) (h_store (sy_hub s) d)" for d
  proof (cases "d = c")
    case True
    show ?thesis
    proof (cases "h_store h' c")
      case None
      then have "h_store (sy_hub s) c = None" using assms(1) by (auto simp: shuts_def)
      with None True show ?thesis by simp
    next
      case (Some cl')
      then obtain cl where "h_store (sy_hub s) c = Some cl" "cl_out cl' = cl_out cl" using assms(1) by (auto simp: shuts_def)
      with Some True show ?thesis by (simp add: cursors_def fun_eq_iff)
    qed
  next
    case False
    then have "h_store h' d = h_store (sy_hub s) d" using assms(1) by (simp add: shuts_def)
    then show ?thesis by (cases "h_store (sy_hub s) d") (simp_all add: cursors_def fun_eq_iff)
  qed
  then have abs: "hub_abs (s\<lparr>sy_hub := h'\<rparr>) = (hub_abs s)\<lparr>br_live := br_live (hub_abs s) - {c}\<rparr>"
    by (simp add: hub_abs_def assms(2))
  show ?thesis
  proof (cases "c \<in> br_live (hub_abs s)")
    case True
    then show ?thesis unfolding abs by (auto intro: broker_step.leave)
  next
    case False
    then have "hub_abs (s\<lparr>sy_hub := h'\<rparr>) = hub_abs s" unfolding abs by simp
    then show ?thesis by simp
  qed
qed

lemma abs_pumps:
  assumes "sys_inv s"
  shows "broker_step\<^sup>=\<^sup>= (hub_abs s) (hub_abs (s\<lparr>sy_hub := write_fail c (sy_hub s)\<rparr>))"
    and "broker_step\<^sup>=\<^sup>= (hub_abs s) (hub_abs (s\<lparr>sy_hub := write_stop c (sy_hub s)\<rparr>))"
    and "broker_step\<^sup>=\<^sup>= (hub_abs s) (hub_abs (s\<lparr>sy_hub := read_stop c (sy_hub s)\<rparr>))"
proof -
  note inv = sys_invD(1) [OF assms]
  have upd: "hub_inv (upd_client c f (sy_hub s)) \<Longrightarrow>
      h_clients (client_close c (upd_client c f (sy_hub s))) = h_clients (sy_hub s) - {c}" for f
    by (simp add: close_clients_all hub_simps)
  have "hub_inv (upd_client c (\<lambda>cl. case chan_recv (cl_send cl) of None \<Rightarrow> cl
          | Some (payload, rest) \<Rightarrow> cl\<lparr>cl_send := rest, cl_writing := False\<rparr>) (sy_hub s))"
      "hub_inv (upd_client c (\<lambda>cl. cl\<lparr>cl_writing := False\<rparr>) (sy_hub s))"
      "hub_inv (upd_client c (\<lambda>cl. cl\<lparr>cl_reading := False\<rparr>) (sy_hub s))"
    by (auto intro!: hub_inv_upd [OF inv] simp: client_ok_def chan_recv_def split: list.split)
  note upds = this [THEN upd]
  show "broker_step\<^sup>=\<^sup>= (hub_abs s) (hub_abs (s\<lparr>sy_hub := write_fail c (sy_hub s)\<rparr>))"
    by (rule abs_leave [OF shuts_pumps(1) [OF inv]]) (simp add: write_fail_def upds)
  show "broker_step\<^sup>=\<^sup>= (hub_abs s) (hub_abs (s\<lparr>sy_hub := write_stop c (sy_hub s)\<rparr>))"
    by (rule abs_leave [OF shuts_pumps(2) [OF inv]]) (simp add: write_stop_def upds)
  show "broker_step\<^sup>=\<^sup>= (hub_abs s) (hub_abs (s\<lparr>sy_hub := read_stop c (sy_hub s)\<rparr>))"
    by (rule abs_leave [OF shuts_pumps(3) [OF inv]]) (simp add: read_stop_def upds)
qed

lemma hub_abs_pending [simp]:
  "hub_abs (s\<lparr>sy_pending := x\<rparr>) = hub_abs s" "hub_abs (s\<lparr>sy_stopping := y\<rparr>) = hub_abs s"
  by (simp_all add: hub_abs_def cursors_def [abs_def])

text \<open>A delivery shows on the broker only when it finds the client's buffer full.\<close>

lemma abs_deliver:
  assumes "sys_inv s" and "sy_pending s f = Some (p, c # xs)"
  shows "broker_step\<^sup>=\<^sup>= (hub_abs s) (hub_abs (s\<lparr>sy_hub := broadcast_one (f, p) c (sy_hub s)\<rparr>))"
proof -
  note inv = sys_invD(1) [OF assms(1)]
  obtain cl where cl: "h_store (sy_hub s) c = Some cl"
    using pending_okD(4) [OF sys_invD(2) [OF assms(1)] assms(2), of c] by auto
  show ?thesis
  proof (cases "int (length (cl_send cl)) < h_bufferSize (sy_hub s)")
    case True
    then have "hub_abs (s\<lparr>sy_hub := broadcast_one (f, p) c (sy_hub s)\<rparr>) = hub_abs s"
      by (intro hub_abs_eqI) (auto simp: broadcast_one_cases(1) [OF cl] cl cursors_def [abs_def])
    then show ?thesis by simp
  next
    case False
    let ?h = "(sy_hub s)\<lparr>h_drops := h_drops (sy_hub s) + 1, h_onDrop := count_call (h_onDrop (sy_hub s))\<rparr>"
    have inv': "hub_inv ?h" using inv by (simp add: hub_inv_def)
    have "shuts c (sy_hub s) (client_close c ?h)" using shuts_close [OF inv', of c] by (simp add: shuts_def)
    moreover have "h_clients (client_close c ?h) = h_clients (sy_hub s) - {c}" using close_clients_all [OF inv'] by simp
    ultimately show ?thesis unfolding broadcast_one_cases(2) [OF cl False] by (rule abs_leave)
  qed
qed

lemma abs_write_ok:
  assumes "sys_inv s" and cl: "h_store (sy_hub s) c = Some cl" "cl_connOpen cl" "cl_send cl \<noteq> []"
  shows "broker_step (hub_abs s) (hub_abs (s\<lparr>sy_hub := write_ok c (sy_hub s)\<rparr>))"
proof -
  obtain g q ms where ms: "cl_send cl = (g, q) # ms" using cl(3) by (cases "cl_send cl") auto
  have open_c: "\<not> cl_closed cl" "c \<in> h_clients (sy_hub s)"
    using hub_invD [OF sys_invD(1) [OF assms(1)] cl(1)] cl(2) by (auto simp: client_ok_def)
  have "of_feed g (cl_out cl @ cl_send cl) = expected s c g" and j: "sy_joined s c g \<le> length (sy_log s g)"
    using sys_invD(3) [OF assms(1) cl(1), of g] open_c(1) by (simp_all add: client_feed_ok_def)
  then have "prefix (of_feed g (cl_out cl) @ q # of_feed g ms) (since_joined s c g)"
    using expected_prefix [of s c g] by (simp add: ms of_feed_def)
  then have "length (of_feed g (cl_out cl)) < length (since_joined s c g)"
    by (auto dest: prefix_length_le)
  with j have lt: "sy_joined s c g + length (of_feed g (cl_out cl)) < length (sy_log s g)"
    by (simp add: since_joined_def)
  have store: "h_store (write_ok c (sy_hub s)) = (h_store (sy_hub s))(c \<mapsto> cl\<lparr>cl_send := ms, cl_out := cl_out cl @ [(g, q)]\<rparr>)"
    by (simp add: write_ok_def hub_simps cl(1) chan_recv_def ms)
  have clients: "h_clients (write_ok c (sy_hub s)) = h_clients (sy_hub s)" by (simp add: write_ok_def hub_simps)
  have "hub_abs (s\<lparr>sy_hub := write_ok c (sy_hub s)\<rparr>) = (hub_abs s)\<lparr>br_subs := (br_subs (hub_abs s))
      (c \<mapsto> (cursors s c cl)(g := (sy_joined s c g, Suc (sy_joined s c g + length (of_feed g (cl_out cl))))))\<rparr>"
    by (auto simp: hub_abs_def store clients cursors_def [abs_def] fun_eq_iff)
  moreover have "broker_step (hub_abs s) \<dots>"
    by (rule broker_step.receive) (use cl(1) open_c lt in \<open>auto simp: hub_abs_def cursors_def\<close>)
  ultimately show ?thesis by simp
qed

lemma abs_connect:
  assumes "h_store (sy_hub s) c = None"
  shows "broker_step (hub_abs s)
    (hub_abs (s\<lparr>sy_hub := hub_Serve c (sy_hub s), sy_joined := (sy_joined s)(c := \<lambda>f. length (sy_log s f))\<rparr>))"
proof -
  have "hub_abs (s\<lparr>sy_hub := hub_Serve c (sy_hub s), sy_joined := (sy_joined s)(c := \<lambda>f. length (sy_log s f))\<rparr>) =
      (hub_abs s)\<lparr>br_subs := (br_subs (hub_abs s))(c \<mapsto> \<lambda>f. (length (br_log (hub_abs s) f), length (br_log (hub_abs s) f))),
        br_live := insert c (br_live (hub_abs s))\<rparr>"
    by (auto simp: hub_abs_def hub_Serve_def register_def new_client_def cursors_def [abs_def] fun_eq_iff)
  moreover have "broker_step (hub_abs s) \<dots>" by (rule broker_step.subscribe) (simp add: hub_abs_def assms)
  ultimately show ?thesis by simp
qed

lemma abs_snapshot:
  "broker_step (hub_abs s) (hub_abs (s\<lparr>sy_pending := x, sy_log := (sy_log s)(f := sy_log s f @ [p])\<rparr>))"
proof -
  have "hub_abs (s\<lparr>sy_pending := x, sy_log := (sy_log s)(f := sy_log s f @ [p])\<rparr>) =
      (hub_abs s)\<lparr>br_log := (br_log (hub_abs s))(f := br_log (hub_abs s) f @ [p])\<rparr>"
    by (simp add: hub_abs_def cursors_def [abs_def])
  moreover have "broker_step (hub_abs s) \<dots>" by (rule broker_step.publish)
  ultimately show ?thesis by simp
qed

lemma abs_flag: "hub_abs (s\<lparr>sy_hub := (sy_hub s)\<lparr>h_started := b\<rparr>\<rparr>) = hub_abs s"
  by (simp add: hub_abs_def cursors_def [abs_def])

lemma hub_abs_step: "sys_inv s \<Longrightarrow> hub_step s t \<Longrightarrow> broker_step\<^sup>=\<^sup>= (hub_abs s) (hub_abs t)"
proof (erule hub_stepE, goal_cases)
  case (1 c) then show ?case using abs_connect [of s c] by simp
next
  case (2 f xs p) then show ?case using abs_snapshot by auto
next
  case (3 f p c xs)
  have "hub_abs t = hub_abs (s\<lparr>sy_hub := broadcast_one (f, p) c (sy_hub s)\<rparr>)"
    unfolding 3(2) by (simp add: hub_abs_def cursors_def [abs_def])
  with abs_deliver [OF 3(1,3)] show ?case by simp
next
  case (4 f p) then show ?case by simp
next
  case (5 c cl) then show ?case using abs_write_ok [OF 5(1) 5(3) 5(5,6)] by simp
next
  case (6 c cl) then show ?case using abs_pumps(1) [OF 6(1)] by simp
next
  case (7 c cl) then show ?case using abs_pumps(2) [OF 7(1)] by simp
next
  case (8 c cl) then show ?case using abs_pumps(3) [OF 8(1)] by simp
next
  case 9 then show ?case by (simp add: abs_flag hub_Start_def)
next
  case (10 xs)
  have "hub_abs t = hub_abs (s\<lparr>sy_hub := (sy_hub s)\<lparr>h_started := False\<rparr>\<rparr>)"
    unfolding 10(2) by (simp add: hub_abs_def cursors_def [abs_def])
  then show ?case by (simp add: abs_flag)
next
  case (11 c xs)
  have "hub_abs t = hub_abs (s\<lparr>sy_hub := client_close c (sy_hub s)\<rparr>)"
    unfolding 11(2) by (simp add: hub_abs_def cursors_def [abs_def])
  then show ?case
    using abs_leave [OF shuts_close close_clients_all] sys_invD(1) [OF 11(1)] by metis
next
  case 12 then show ?case by simp
qed

interpretation hub_broker: simulation sys_init hub_step sys_inv broker_init broker_step hub_abs
  by unfold_locales (auto simp: sys_init_def broker_init_def hub_abs_def NewHub_def dest: hub_abs_step)

subsection \<open>Properties\<close>



text \<open>How many messages of a feed a client has not been sent yet.\<close>

definition lag :: "'p sys \<Rightarrow> nat \<Rightarrow> (feed \<times> 'p) Client \<Rightarrow> feed \<Rightarrow> nat" where
  "lag s c cl f = length (sy_log s f) - sy_joined s c f - length (filter (\<lambda>m. fst m = f) (cl_out cl))"

lemma feeds_partition:
  "length (filter (\<lambda>m. fst m = PriceFeed) ms) + length (filter (\<lambda>m. fst m = IndexerFeed) ms) = length ms"
proof -
  have "length (filter (\<lambda>m. fst m = IndexerFeed) ms) = length (filter (\<lambda>m. \<not> fst m = PriceFeed) ms)"
    by (rule arg_cong [where f = length], rule filter_cong) (auto intro: feed.exhaust)
  then show ?thesis using sum_length_filter_compl [of "\<lambda>m. fst m = PriceFeed" ms] by simp
qed

lemma lag_le:
  assumes "client_feed_ok s c cl f" and "\<not> cl_closed cl"
  shows "lag s c cl f \<le> Suc (length (filter (\<lambda>m. fst m = f) (cl_send cl)))"
proof -
  have "length (of_feed f (cl_out cl @ cl_send cl)) = length (expected s c f)"
    using assms by (simp add: client_feed_ok_def)
  moreover have "length (since_joined s c f) \<le> Suc (length (expected s c f))"
    by (cases "since_joined s c f") (simp_all add: expected_def)
  ultimately show ?thesis by (simp add: lag_def since_joined_def of_feed_def)
qed



end
