(* ===== verification/Hub_Shutdown.thy ===== *)
theory Hub_Shutdown
  imports Hub_Steps
begin

text \<open>
  The end of the hub. \<open>Stop\<close> takes its snapshot of the clients after the HTTP server has stopped to
  accept connections and closes them one by one, while the feeds finish the broadcasts they are in
  and the pumps of closed clients run out. The number of steps that can still happen is bounded, and
  none of what has to happen can be left undone.
\<close>

subsection \<open>Steps after \<open>Stop\<close>\<close>

text \<open>Steps of a stopped hub in which no client joins and no feed begins another broadcast.\<close>

definition after_stop :: "'p sys \<Rightarrow> 'p sys \<Rightarrow> bool" where
  "after_stop s t \<longleftrightarrow> hub_step s t \<and> \<not> h_started (sy_hub s) \<and> \<not> h_started (sy_hub t)
     \<and> sy_log t = sy_log s \<and> dom (h_store (sy_hub t)) = dom (h_store (sy_hub s))"

text \<open>
  The steps that are due whatever the peers do: the deliveries of a broadcast in progress, the
  closing of the clients in \<open>Stop\<close>'s list, and the end of the pumps of a closed client. Its connection
  is closed, so reading fails; the write pump's \<open>select\<close> finds the channel \<open>closed\<close> ready, or picks a
  frame that was left in the buffer and fails to write it.
\<close>

inductive due :: "'p sys \<Rightarrow> 'p sys \<Rightarrow> bool" where
  due_deliver: "sy_pending s f = Some (p, c # xs) \<Longrightarrow>
    due s (s\<lparr>sy_hub := broadcast_one (f, p) c (sy_hub s), sy_pending := (sy_pending s)(f := Some (p, xs))\<rparr>)"
| due_finish: "sy_pending s f = Some (p, []) \<Longrightarrow> due s (s\<lparr>sy_pending := (sy_pending s)(f := None)\<rparr>)"
| due_close: "sy_stopping s = Some (c # xs) \<Longrightarrow>
    due s (s\<lparr>sy_hub := client_close c (sy_hub s), sy_stopping := Some xs\<rparr>)"
| due_done: "sy_stopping s = Some [] \<Longrightarrow> due s (s\<lparr>sy_stopping := None\<rparr>)"
| due_flush: "h_store (sy_hub s) c = Some cl \<Longrightarrow> cl_closed cl \<Longrightarrow> cl_writing cl \<Longrightarrow> cl_send cl \<noteq> [] \<Longrightarrow>
    due s (s\<lparr>sy_hub := write_fail c (sy_hub s)\<rparr>)"
| due_write: "h_store (sy_hub s) c = Some cl \<Longrightarrow> cl_closed cl \<Longrightarrow> cl_writing cl \<Longrightarrow>
    due s (s\<lparr>sy_hub := write_stop c (sy_hub s)\<rparr>)"
| due_read: "h_store (sy_hub s) c = Some cl \<Longrightarrow> cl_closed cl \<Longrightarrow> cl_reading cl \<Longrightarrow>
    due s (s\<lparr>sy_hub := read_stop c (sy_hub s)\<rparr>)"

definition settled :: "'p sys \<Rightarrow> bool" where
  "settled s \<longleftrightarrow> sy_pending s = (\<lambda>_. None) \<and> sy_stopping s = None \<and> h_clients (sy_hub s) = {}
     \<and> (\<forall>c cl. h_store (sy_hub s) c = Some cl \<longrightarrow>
          cl_closed cl \<and> \<not> cl_connOpen cl \<and> \<not> cl_writing cl \<and> \<not> cl_reading cl)"

subsection \<open>Work\<close>

text \<open>A client's part: the frames it has to write and its two pumps.\<close>

definition client_work :: "'m Client \<Rightarrow> nat" where
  "client_work cl = length (cl_send cl) + of_bool (cl_writing cl) + of_bool (cl_reading cl)"

definition store_work :: "(nat \<rightharpoonup> 'm Client) \<Rightarrow> nat" where
  "store_work m = (\<Sum>c\<in>dom m. client_work (the (m c)))"

definition pending_work :: "('p \<times> nat list) option \<Rightarrow> nat" where
  "pending_work b = (case b of None \<Rightarrow> 0 | Some (p, xs) \<Rightarrow> 1 + 2 * length xs)"

definition stopping_work :: "nat list option \<Rightarrow> nat" where
  "stopping_work xs = (case xs of None \<Rightarrow> 0 | Some ys \<Rightarrow> 1 + length ys)"

definition work :: "'p sys \<Rightarrow> nat" where
  "work s = pending_work (sy_pending s PriceFeed) + pending_work (sy_pending s IndexerFeed)
     + stopping_work (sy_stopping s) + store_work (h_store (sy_hub s))"

lemma store_work_upd:
  assumes "finite (dom m)" and "m c = Some cl"
  shows "store_work (m(c \<mapsto> cl')) + client_work cl = store_work m + client_work cl'"
proof -
  have c: "c \<in> dom m" using assms(2) by auto
  then have "store_work m = client_work cl + (\<Sum>d\<in>dom m - {c}. client_work (the (m d)))"
    using sum.remove [OF assms(1) c, of "\<lambda>d. client_work (the (m d))"] by (simp add: store_work_def assms(2))
  moreover have "store_work (m(c \<mapsto> cl')) = client_work cl' + (\<Sum>d\<in>dom m - {c}. client_work (the (m d)))"
    using sum.remove [OF assms(1) c, of "\<lambda>d. client_work (the ((m(c \<mapsto> cl')) d))"] c
    by (simp add: store_work_def insert_absorb)
  ultimately show ?thesis by simp
qed

lemma work_close:
  assumes "finite (dom (h_store h))"
  shows "store_work (h_store (client_close c h)) = store_work (h_store h)"
proof (cases "h_store h c")
  case (Some cl)
  then show ?thesis
    using store_work_upd [OF assms Some, of "cl\<lparr>cl_closed := True, cl_connOpen := False\<rparr>"]
    by (simp add: hub_simps client_work_def)
qed (simp add: hub_simps)

lemma work_upd_client:
  assumes "finite (dom (h_store h))" and "h_store h c = Some cl"
  shows "store_work (h_store (upd_client c f h)) + client_work cl = store_work (h_store h) + client_work (f cl)"
  using store_work_upd [OF assms, of "f cl"] assms(2) by (simp add: hub_simps)

lemma finite_upd_client: "finite (dom (h_store h)) \<Longrightarrow> finite (dom (h_store (upd_client c f h)))"
  by (simp add: hub_simps split: option.split)

lemma work_pump:
  assumes "finite (dom (h_store h))" and "h_store h c = Some cl" and "client_work (f cl) < client_work cl"
  shows "store_work (h_store (upd_client c f h)) < store_work (h_store h)"
    and "store_work (h_store (client_close c (upd_client c f h))) < store_work (h_store h)"
  using work_upd_client [OF assms(1,2), of f] assms(3) work_close [OF finite_upd_client [OF assms(1)], of c c f]
  by simp_all

lemma work_broadcast_one:
  assumes "finite (dom (h_store h))"
  shows "store_work (h_store (broadcast_one m c h)) \<le> Suc (store_work (h_store h))"
proof (cases "h_store h c")
  case None
  then show ?thesis by (simp add: broadcast_one_def)
next
  case (Some cl)
  show ?thesis
  proof (cases "int (length (cl_send cl)) < h_bufferSize h")
    case True
    then show ?thesis
      using store_work_upd [OF assms Some, of "cl\<lparr>cl_send := cl_send cl @ [m]\<rparr>"]
      by (simp add: broadcast_one_cases(1) [OF Some] client_work_def)
  next
    case False
    then show ?thesis using assms by (simp add: broadcast_one_cases(2) [OF Some] work_close)
  qed
qed

lemma pending_work_upd:
  "pending_work ((b(f := x)) PriceFeed) + pending_work ((b(f := x)) IndexerFeed) + pending_work (b f) =
   pending_work (b PriceFeed) + pending_work (b IndexerFeed) + pending_work x"
  by (cases f) simp_all

lemma after_stop_work:
  assumes "finite (dom (h_store (sy_hub s)))" and "after_stop s t"
  shows "work t < work s"
proof -
  have step: "hub_step s t" and off: "\<not> h_started (sy_hub s)" "\<not> h_started (sy_hub t)"
    and same: "sy_log t = sy_log s" "dom (h_store (sy_hub t)) = dom (h_store (sy_hub s))"
    using assms(2) by (simp_all add: after_stop_def)
  from step show ?thesis
  proof cases
    case (connect c)
    with same(2) show ?thesis by (auto simp: hub_Serve_def register_def)
  next
    case (snapshot f xs p)
    with same(1) have "sy_log s f @ [p] = sy_log s f" by (auto simp: fun_eq_iff dest: spec [of _ f])
    then show ?thesis by simp
  next
    case (deliver f p c xs)
    then show ?thesis
      using pending_work_upd [of "sy_pending s" f "Some (p, xs)"] work_broadcast_one [OF assms(1), of "(f, p)" c]
      by (simp add: work_def pending_work_def [of "Some _"])
  next
    case (finish f p)
    then show ?thesis
      using pending_work_upd [of "sy_pending s" f None] by (simp add: work_def pending_work_def [of "Some _"] pending_work_def [of None])
  next
    case (write_ok c cl)
    then have "cl_send cl \<noteq> []" by simp
    then obtain m ms where ms: "cl_send cl = m # ms" by (cases "cl_send cl") auto
    show ?thesis
      using write_ok work_pump(1) [OF assms(1) write_ok(2)]
      by (simp add: work_def Hub.write_ok_def chan_recv_def ms client_work_def)
  next
    case (write_fail c cl)
    then obtain m ms where ms: "cl_send cl = m # ms" by (cases "cl_send cl") auto
    show ?thesis
      using write_fail work_pump(2) [OF assms(1) write_fail(2)]
      by (simp add: work_def Hub.write_fail_def chan_recv_def ms client_work_def)
  next
    case (write_stop c cl)
    then show ?thesis
      using work_pump(2) [OF assms(1) write_stop(2)] by (simp add: work_def Hub.write_stop_def client_work_def)
  next
    case (read_stop c cl)
    then show ?thesis
      using work_pump(2) [OF assms(1) read_stop(2)] by (simp add: work_def Hub.read_stop_def client_work_def)
  next
    case start
    with off show ?thesis by (simp add: hub_Start_def split: if_splits)
  next
    case (stop xs)
    with off show ?thesis by simp
  next
    case (stop_close c xs)
    then show ?thesis by (simp add: work_def work_close [OF assms(1)] stopping_work_def)
  next
    case stop_done
    then show ?thesis by (simp add: work_def stopping_work_def)
  qed
qed

subsection \<open>No step of the hub is forgotten\<close>

definition ending :: "'p sys \<Rightarrow> bool" where
  "ending s \<longleftrightarrow> sys_inv s \<and> finite (dom (h_store (sy_hub s))) \<and> \<not> h_started (sy_hub s)
     \<and> h_clients (sy_hub s) \<subseteq> (case sy_stopping s of None \<Rightarrow> {} | Some xs \<Rightarrow> set xs)"

lemma clients_shrink:
  "h_clients (client_close c h) \<subseteq> h_clients h" "h_clients (broadcast_one m c h) \<subseteq> h_clients h"
  "h_clients (write_ok c h) = h_clients h" "h_clients (write_fail c h) \<subseteq> h_clients h"
  "h_clients (write_stop c h) \<subseteq> h_clients h" "h_clients (read_stop c h) \<subseteq> h_clients h"
proof -
  show close: "h_clients (client_close c h) \<subseteq> h_clients h" for c and h :: "'b Hub"
    by (auto simp: client_close_def unregister_def split: option.split)
  show "h_clients (broadcast_one m c h) \<subseteq> h_clients h"
    using close [of c "h\<lparr>h_drops := h_drops h + 1, h_onDrop := count_call (h_onDrop h)\<rparr>"]
    by (auto simp: broadcast_one_def split: option.split)
  show "h_clients (write_ok c h) = h_clients h" by (simp add: write_ok_def hub_simps)
  show "h_clients (write_fail c h) \<subseteq> h_clients h" "h_clients (write_stop c h) \<subseteq> h_clients h"
    "h_clients (read_stop c h) \<subseteq> h_clients h"
    using close [of c "upd_client c f h" for f]
    by (simp_all add: write_fail_def write_stop_def read_stop_def hub_simps)
qed

lemma close_leaves:
  assumes "hub_inv h"
  shows "c \<notin> h_clients (client_close c h)"
proof (cases "h_store h c")
  case None
  then have "c \<notin> h_clients h" using assms by (auto simp: hub_inv_def)
  then show ?thesis using clients_shrink(1) by blast
qed (simp add: close_clients [OF assms])

lemma after_stop_ending:
  assumes "ending s" and "after_stop s t"
  shows "ending t"
proof -
  have step: "hub_step s t" and off: "\<not> h_started (sy_hub s)" "\<not> h_started (sy_hub t)"
    and same: "sy_log t = sy_log s" "dom (h_store (sy_hub t)) = dom (h_store (sy_hub s))"
    using assms(2) by (simp_all add: after_stop_def)
  let ?left = "\<lambda>s. case sy_stopping s of None \<Rightarrow> {} | Some xs \<Rightarrow> set xs"
  have inv: "sys_inv s" and fin: "finite (dom (h_store (sy_hub s)))" and left: "h_clients (sy_hub s) \<subseteq> ?left s"
    using assms(1) by (simp_all add: ending_def)
  note hinv = sys_invD(1) [OF inv]
  have "h_clients (sy_hub t) \<subseteq> ?left t"
    using step
  proof cases
    case (connect c)
    with same(2) show ?thesis by (auto simp: hub_Serve_def register_def)
  next
    case (stop_close c xs)
    then show ?thesis using left clients_shrink(1) [of c "sy_hub s"] close_leaves [OF hinv, of c] by auto
  next
    case start
    with off show ?thesis by (simp add: hub_Start_def split: if_splits)
  qed (use off left in \<open>simp_all add: subset_trans [OF clients_shrink(2)] subset_trans [OF clients_shrink(4)]
        subset_trans [OF clients_shrink(5)] subset_trans [OF clients_shrink(6)] clients_shrink(3)\<close>)
  then show ?thesis using sys_inv_step [OF inv step] fin off same by (simp add: ending_def)
qed

interpretation hub_ending: working_system after_stop ending work
proof unfold_locales
  show "ending t" if "ending s" "after_stop s t" for s t using that by (rule after_stop_ending)
  show "work t < work s" if "ending s" "after_stop s t" for s t
    using after_stop_work [OF _ that(2)] that(1) by (simp add: ending_def)
qed

text \<open>What is due can happen, and is one of the steps counted.\<close>

lemma due_deliver_dom:
  assumes "sys_inv s" and "sy_pending s f = Some (p, c # xs)"
  shows "dom (h_store (broadcast_one (f, p) c (sy_hub s))) = dom (h_store (sy_hub s))"
proof -
  have "c \<in> dom (h_store (sy_hub s))" using pending_okD(4) [OF sys_invD(2) [OF assms(1)] assms(2)] by simp
  then obtain cl where "h_store (sy_hub s) c = Some cl" by auto
  from deliver_store(3) [OF sys_invD(1) [OF assms(1)] this] show ?thesis .
qed

lemma started_same:
  "h_started (upd_client c f h) = h_started h" "h_started (broadcast_one m c h) = h_started h"
  "h_started (write_fail c h) = h_started h" "h_started (write_stop c h) = h_started h"
  "h_started (read_stop c h) = h_started h"
  by (simp_all add: upd_client_def broadcast_one_def write_fail_def write_stop_def read_stop_def hub_simps
      split: option.split)

lemma due_after_stop:
  assumes "ending s" and "due s t"
  shows "after_stop s t"
proof -
  have inv: "sys_inv s" and off: "\<not> h_started (sy_hub s)" using assms(1) by (simp_all add: ending_def)
  note hinv = sys_invD(1) [OF inv]
  note doms = shuts_pumps [OF hinv, unfolded shuts_def] shuts_close [OF hinv, unfolded shuts_def]
  show ?thesis
    using assms(2)
  proof cases
    case (due_deliver f p c xs)
    then show ?thesis
      using off due_deliver_dom [OF inv] by (auto simp: after_stop_def started_same intro: hub_step.deliver)
  next
    case (due_finish f p)
    then show ?thesis using off by (auto simp: after_stop_def intro: hub_step.finish)
  next
    case (due_close c xs)
    then show ?thesis using off doms by (auto simp: after_stop_def hub_simps(6) close_frame intro: hub_step.stop_close)
  next
    case due_done
    then show ?thesis using off by (auto simp: after_stop_def intro: hub_step.stop_done)
  next
    case (due_flush c cl)
    then show ?thesis using off doms by (auto simp: after_stop_def started_same intro: hub_step.write_fail)
  next
    case (due_write c cl)
    then show ?thesis using off doms by (auto simp: after_stop_def started_same intro: hub_step.write_stop)
  next
    case (due_read c cl)
    then show ?thesis using off doms by (auto simp: after_stop_def started_same intro: hub_step.read_stop)
  qed
qed

lemma settled_or_due:
  assumes "ending s"
  shows "settled s \<or> (\<exists>t. due s t)"
proof (rule disjCI)
  assume no: "\<nexists>t. due s t"
  have inv: "sys_inv s" and left: "h_clients (sy_hub s) \<subseteq> (case sy_stopping s of None \<Rightarrow> {} | Some xs \<Rightarrow> set xs)"
    using assms by (simp_all add: ending_def)
  have pend: "sy_pending s f = None" for f
  proof (cases "sy_pending s f")
    case (Some b)
    then obtain p xs where "sy_pending s f = Some (p, xs)" by (cases b) auto
    with no due_deliver [of s f p] due_finish [of s f p] show ?thesis by (cases xs) blast+
  qed
  have stop: "sy_stopping s = None"
  proof (cases "sy_stopping s")
    case (Some xs)
    with no due_close [of s] due_done [of s] show ?thesis by (cases xs) blast+
  qed
  then have none: "h_clients (sy_hub s) = {}" using left by simp
  have "cl_closed cl \<and> \<not> cl_connOpen cl \<and> \<not> cl_writing cl \<and> \<not> cl_reading cl"
    if "h_store (sy_hub s) c = Some cl" for c cl
    using hub_invD [OF sys_invD(1) [OF inv] that] none no due_flush [OF that] due_write [OF that] due_read [OF that]
    by (auto simp: client_ok_def)
  then show "settled s" using pend stop none by (auto simp: settled_def)
qed

text \<open>Only finitely many clients have ever connected.\<close>

lemma shuts_dom: "shuts c h h' \<Longrightarrow> dom (h_store h') = dom (h_store h)"
  by (simp add: shuts_def)

lemma finite_step: "finite (dom (h_store (sy_hub s))) \<and> sys_inv s \<Longrightarrow> hub_step s t \<Longrightarrow>
    finite (dom (h_store (sy_hub t))) \<and> sys_inv t"
proof -
  assume s: "finite (dom (h_store (sy_hub s))) \<and> sys_inv s" and step: "hub_step s t"
  then have inv: "sys_inv s" and fin: "finite (dom (h_store (sy_hub s)))" by simp_all
  note doms = shuts_pumps [OF sys_invD(1) [OF inv], THEN shuts_dom] shuts_close [OF sys_invD(1) [OF inv], THEN shuts_dom]
  have "finite (dom (h_store (sy_hub t)))"
    using step
  proof cases
    case (connect c)
    then show ?thesis using fin by (simp add: hub_Serve_def register_def)
  next
    case (snapshot f xs p)
    then show ?thesis using fin by simp
  next
    case (deliver f p c xs)
    then show ?thesis using fin due_deliver_dom [OF inv] by simp
  next
    case (finish f p)
    then show ?thesis using fin by simp
  next
    case (write_ok c cl)
    then show ?thesis using finite_upd_client [OF fin] by (simp add: Hub.write_ok_def)
  next
    case (write_fail c cl)
    then show ?thesis using fin doms by simp
  next
    case (write_stop c cl)
    then show ?thesis using fin doms by simp
  next
    case (read_stop c cl)
    then show ?thesis using fin doms by simp
  next
    case start
    then show ?thesis using fin by (simp add: hub_Start_def)
  next
    case (stop xs)
    then show ?thesis using fin by simp
  next
    case (stop_close c xs)
    then show ?thesis using fin doms by simp
  next
    case stop_done
    then show ?thesis using fin by simp
  qed
  with sys_inv_step [OF inv step] show ?thesis by simp
qed

interpretation finite_hub: invariant_system sys_init hub_step "\<lambda>s. finite (dom (h_store (sy_hub s))) \<and> sys_inv s"
proof unfold_locales
  show "finite (dom (h_store (sy_hub s))) \<and> sys_inv s" if "sys_init s" for s
    using sys_inv_init [OF that] that by (auto simp: sys_init_def NewHub_def)
qed (rule finite_step)

subsection \<open>Properties\<close>

text \<open>The state right after \<open>Stop\<close> has cleared the flag and taken its snapshot.\<close>

definition stopped :: "nat list \<Rightarrow> 'p sys \<Rightarrow> 'p sys" where
  "stopped xs s = s\<lparr>sy_hub := (sy_hub s)\<lparr>h_started := False\<rparr>, sy_stopping := Some xs\<rparr>"

lemma ending_stopped:
  assumes "reachable sys_init hub_step s" and "h_started (sy_hub s)" and "sy_stopping s = None"
    and "is_snapshot xs (sy_hub s)"
  shows "ending (stopped xs s)"
proof -
  have "finite (dom (h_store (sy_hub s))) \<and> sys_inv s" by (rule finite_hub.inv_reachable [OF assms(1)])
  moreover from this have "sys_inv (stopped xs s)"
    using sys_inv_step hub_step.stop [OF assms(2-4)] unfolding stopped_def by blast
  ultimately show ?thesis using assms(4) by (simp add: ending_def stopped_def is_snapshot_def)
qed

text \<open>
  Property C11. The hub shuts down, in every schedule: once \<open>Stop\<close> has taken its snapshot of the
  clients and as long as no client joins and no feed begins another broadcast, the number of steps
  of the pumps, of the broadcasts in progress and of \<open>Stop\<close> itself is bounded by the frames, pumps,
  deliveries and closes that were left; and at each point either the hub is settled, with no client
  registered, every channel and connection closed and every pump ended, or a step that does not
  depend on any peer can be taken. So every fair schedule ends, and ends settled.
\<close>

theorem hub_shuts_down:
  assumes "reachable sys_init hub_step s" and "h_started (sy_hub s)" and "sy_stopping s = None"
    and "is_snapshot xs (sy_hub s)" and "(after_stop ^^ n) (stopped xs s) t"
  shows "n + work t \<le> work (stopped xs s) \<and> (settled t \<or> (\<exists>u. due t u \<and> after_stop t u))"
proof -
  have "ending t \<and> n + work t \<le> work (stopped xs s)"
    by (rule hub_ending.work_run [OF assms(5) ending_stopped [OF assms(1-4)]])
  then show ?thesis using settled_or_due due_after_stop by blast
qed

theorem hub_shuts_down_witness:
  "let s = stopped [0] (run4\<lparr>sy_hub := hub_Start (sy_hub run4)\<rparr>) in
     work s = 5 \<and> \<not> settled s \<and> (\<exists>u. due s u \<and> after_stop s u)"
proof -
  let ?r = "run4\<lparr>sy_hub := hub_Start (sy_hub run4)\<rparr>"
  have r: "reachable sys_init hub_step ?r" by (rule reachable_step [OF reachable_run4 hub_step.start])
  have "work (stopped [0] ?r) = 5"
    by (simp add: work_def stopped_def run_defs hub_Start_def store_work_def client_work_def pending_work_def stopping_work_def)
  moreover have "\<not> settled (stopped [0] ?r)" by (simp add: settled_def stopped_def)
  ultimately show ?thesis
    using hub_shuts_down [OF r, of "[0]" 0 "stopped [0] ?r"] by (simp add: Let_def run_defs hub_Start_def)
qed

end
