(* ===== verification/Feeds.thy ===== *)
theory Feeds
  imports Hub
begin

text \<open>
  The two background loops of the hub, \<open>runPriceSubscribe\<close> and \<open>runIndexerStream\<close>: what a message
  does to the hub and the registry, and how the loops reconnect. The order in which a map is
  iterated is a function of the hub, as Go leaves it open; an attempt is one round of the loop with
  the upstream it meets and the answers of \<open>ctx.Err()\<close> before and after the call.
\<close>

record hub_world =
  hw_hub :: "json Hub"
  hw_registry :: Registry

subsection \<open>Callbacks\<close>

definition on_price :: "(json Hub \<Rightarrow> nat list) \<Rightarrow> AggregatedPrice \<Rightarrow> hub_world \<Rightarrow> hub_world" where
  "on_price order p w =
     (case MarshalPrice p of
        Inl err \<Rightarrow> w
      | Inr payload \<Rightarrow> w\<lparr>hw_hub := broadcast (order (hw_hub w)) payload (hw_hub w)\<rparr>)"

definition live_update :: "keccak256 \<Rightarrow> Event \<Rightarrow> Registry \<Rightarrow> Registry" where
  "live_update keccak e r =
     (case e_AssetRegistered e of
        Some reg \<Rightarrow>
          if e_Kind e = EventKindAssetRegistered
          then (case AssetByIDHash keccak (ar_AssetID reg) of
                  Some asset \<Rightarrow> registry_Set r (a_ID asset) (ar_Aggregator reg)
                | None \<Rightarrow> r)
          else r
      | None \<Rightarrow> r)"

definition on_event :: "keccak256 \<Rightarrow> (json Hub \<Rightarrow> nat list) \<Rightarrow> Event \<Rightarrow> hub_world \<Rightarrow> hub_world" where
  "on_event keccak order e w0 =
     (let w = w0\<lparr>hw_registry := live_update keccak e (hw_registry w0)\<rparr> in
      case MarshalEvent e of
        Inl err \<Rightarrow> w
      | Inr payload \<Rightarrow> w\<lparr>hw_hub := broadcast (order (hw_hub w)) payload (hw_hub w)\<rparr>)"

subsection \<open>The loops\<close>

definition reconnect_backoff :: "GRPCClientConfig \<Rightarrow> int" where
  "reconnect_backoff cfg =
     (case ParseDuration (sub_ReconnectBackoff (g_Subscribe cfg)) of
        None \<Rightarrow> 5 * 1000000000
      | Some backoff \<Rightarrow> if backoff \<le> 0 then 5 * 1000000000 else backoff)"

definition feed_assets :: "GRPCClientConfig \<Rightarrow> string list" where
  "feed_assets cfg =
     (if sub_AssetIDs (g_Subscribe cfg) = [] then AssetIDs else sub_AssetIDs (g_Subscribe cfg))"

record 'stub attempt =
  at_cancelled :: bool
  at_stub :: 'stub
  at_cancelled_after :: bool

text \<open>
  The state after the attempts, the waits between them and whether the loop has returned. A call
  that is still receiving leaves the loop inside it.
\<close>

fun feed_loop :: "int \<Rightarrow> ('stub \<Rightarrow> 's \<Rightarrow> 's \<times> call_status) \<Rightarrow> 'stub attempt list \<Rightarrow> 's \<Rightarrow> 's \<times> int list \<times> bool" where
  "feed_loop backoff call [] s = (s, [], False)"
| "feed_loop backoff call (a # as) s =
     (if at_cancelled a then (s, [], True)
      else case call (at_stub a) s of
        (s1, Waiting) \<Rightarrow> (s1, [], False)
      | (s1, Returned err) \<Rightarrow>
          if at_cancelled_after a then (s1, [], True)
          else let (s2, waits, ret) = feed_loop backoff call as s1 in (s2, backoff # waits, ret))"

definition runPriceSubscribe ::
  "GRPCClientConfig \<Rightarrow> (json Hub \<Rightarrow> nat list) \<Rightarrow> price_stub attempt list \<Rightarrow> hub_world \<Rightarrow> hub_world \<times> int list \<times> bool" where
  "runPriceSubscribe cfg order attempts w =
     feed_loop (reconnect_backoff cfg)
       (\<lambda>stub. price_Subscribe stub (feed_assets cfg) (Some (on_price order))) attempts w"

definition stream_filter :: StreamEventsFilter where
  "stream_filter = \<lparr>sf_Kinds = [], sf_AssetID = '''', sf_FromBlock = 0\<rparr>"

definition runIndexerStream ::
  "keccak256 \<Rightarrow> GRPCClientConfig \<Rightarrow> (json Hub \<Rightarrow> nat list) \<Rightarrow> indexer_stub attempt list \<Rightarrow> hub_world
   \<Rightarrow> hub_world \<times> int list \<times> bool" where
  "runIndexerStream keccak cfg order attempts w =
     feed_loop (reconnect_backoff cfg)
       (\<lambda>stub. indexer_StreamEvents stub stream_filter (Some (on_event keccak order))) attempts w"

subsection \<open>Facts\<close>

lemma reconnect_backoff_pos: "0 < reconnect_backoff cfg"
  by (simp add: reconnect_backoff_def split: option.split)

lemma feed_assets_ne: "feed_assets cfg \<noteq> []"
  by (simp add: feed_assets_def AssetIDs_def AssetCatalog_def)

text \<open>The messages an attempt hands over before its call returns.\<close>

definition price_messages :: "string list \<Rightarrow> price_stub \<Rightarrow> pb_AggregatedPrice option list" where
  "price_messages ids stub = (case ps_Subscribe stub ids of Inl _ \<Rightarrow> [] | Inr strm \<Rightarrow> delivered strm)"

definition stream_request :: pb_StreamEventsRequest where
  "stream_request = \<lparr>ser_kinds = [], ser_asset_id = '''', ser_from_block = 0\<rparr>"

definition event_messages :: "indexer_stub \<Rightarrow> pb_Event option list" where
  "event_messages stub = (case is_StreamEvents stub stream_request of Inl _ \<Rightarrow> [] | Inr strm \<Rightarrow> delivered strm)"

text \<open>An attempt whose call ends, with the context alive before and after it.\<close>

definition ends :: "'m stream go_result \<Rightarrow> bool" where
  "ends res = (case res of Inl _ \<Rightarrow> True | Inr strm \<Rightarrow> first_error strm \<noteq> None)"

definition live_attempt :: "'stub attempt \<Rightarrow> bool" where
  "live_attempt a \<longleftrightarrow> \<not> at_cancelled a \<and> \<not> at_cancelled_after a"

lemma price_Subscribe_result:
  assumes "ids \<noteq> []"
  shows "fst (price_Subscribe stub ids (Some f) s) = fold f (map AggregatedPriceFromProto (price_messages ids stub)) s"
    and "ends (ps_Subscribe stub ids) \<Longrightarrow> \<exists>e. snd (price_Subscribe stub ids (Some f) s) = Returned e"
  using assms
  by (auto simp: price_Subscribe_def price_messages_def recv_loop_state recv_loop_status ends_def
      split: sum.splits option.splits)

lemma StreamEvents_result:
  "fst (indexer_StreamEvents stub stream_filter (Some f) s) = fold f (map EventFromProto (event_messages stub)) s"
  "ends (is_StreamEvents stub stream_request) \<Longrightarrow> \<exists>e. snd (indexer_StreamEvents stub stream_filter (Some f) s) = Returned e"
  by (auto simp: indexer_StreamEvents_def event_messages_def stream_filter_def stream_request_def toProtoKinds_def
      recv_loop_state recv_loop_status ends_def split: sum.splits option.splits)

lemma feed_loop_live:
  assumes "\<And>stub s. fst (call stub s) = fold f (msgs stub) s"
    and "\<And>a s. a \<in> set attempts \<Longrightarrow> live_attempt a \<and> (\<exists>e. snd (call (at_stub a) s) = Returned e)"
  shows "feed_loop backoff call attempts s =
    (fold f (concat (map (msgs \<circ> at_stub) attempts)) s, replicate (length attempts) backoff, False)"
  using assms(2)
proof (induction attempts arbitrary: s)
  case (Cons a as)
  obtain e where "snd (call (at_stub a) s) = Returned e" using Cons.prems by auto
  then have "call (at_stub a) s = (fold f (msgs (at_stub a)) s, Returned e)"
    using assms(1) by (simp add: prod_eq_iff)
  with Cons show ?case by (auto simp: live_attempt_def)
qed simp

text \<open>An attempt that meets the cancelled context, before its call or when the call has returned.\<close>

definition last_attempt :: "'stub attempt \<Rightarrow> bool" where
  "last_attempt a \<longleftrightarrow> at_cancelled a \<or> at_cancelled_after a"

definition tail_messages :: "('stub \<Rightarrow> 'm list) \<Rightarrow> 'stub attempt \<Rightarrow> 'm list" where
  "tail_messages msgs a = (if at_cancelled a then [] else msgs (at_stub a))"

lemma feed_loop_stops:
  assumes "\<And>stub s. fst (call stub s) = fold f (msgs stub) s"
    and "\<And>a s. a \<in> set pre \<Longrightarrow> live_attempt a \<and> (\<exists>e. snd (call (at_stub a) s) = Returned e)"
    and "last_attempt a" and "\<And>s. \<exists>e. snd (call (at_stub a) s) = Returned e"
  shows "feed_loop backoff call (pre @ a # post) s =
    (fold f (concat (map (msgs \<circ> at_stub) pre) @ tail_messages msgs a) s, replicate (length pre) backoff, True)"
  using assms(2)
proof (induction pre arbitrary: s)
  case Nil
  obtain e where "snd (call (at_stub a) s) = Returned e" using assms(4) by auto
  then have "call (at_stub a) s = (fold f (msgs (at_stub a)) s, Returned e)"
    using assms(1) by (simp add: prod_eq_iff)
  with assms(3) show ?case by (auto simp: last_attempt_def tail_messages_def)
next
  case (Cons b as)
  obtain e where "snd (call (at_stub b) s) = Returned e" using Cons.prems by auto
  then have "call (at_stub b) s = (fold f (msgs (at_stub b)) s, Returned e)"
    using assms(1) by (simp add: prod_eq_iff)
  with Cons show ?case by (auto simp: live_attempt_def)
qed

lemma on_event_registry: "hw_registry (on_event keccak order e w) = live_update keccak e (hw_registry w)"
  by (simp add: on_event_def Let_def split: sum.split)

lemma fold_on_event_registry:
  "hw_registry (fold (on_event keccak order) es w) = fold (live_update keccak) es (hw_registry w)"
  by (induction es arbitrary: w) (simp_all add: on_event_registry)

lemma live_update_load:
  "live_update keccak e r = (if e_Kind e = EventKindAssetRegistered then load_event keccak e r else r)"
  by (simp add: live_update_def load_event_def split: option.split)

lemma fold_live_update:
  "fold (live_update keccak) es r = fold (load_event keccak) (filter (\<lambda>e. e_Kind e = EventKindAssetRegistered) es) r"
  by (induction es arbitrary: r) (simp_all add: live_update_load)

text \<open>The hub's side of a callback: it keeps the hub consistent if the map iteration lists the clients.\<close>

lemma hub_inv_on_price:
  "hub_inv (hw_hub w) \<Longrightarrow> hub_inv (hw_hub (on_price order p w))"
  by (auto simp: on_price_def broadcast_def intro!: hub_inv_fold hub_inv_broadcast_one split: sum.split)

lemma hub_inv_on_event:
  "hub_inv (hw_hub w) \<Longrightarrow> hub_inv (hw_hub (on_event keccak order e w))"
  by (auto simp: on_event_def Let_def broadcast_def intro!: hub_inv_fold hub_inv_broadcast_one split: sum.split)

definition idle_world :: hub_world where
  "idle_world = \<lparr>hw_hub = NewHub \<lparr>o_ClientBufferSize = 0, o_OnSend = False, o_OnDrop = False\<rparr>, hw_registry = registry_New\<rparr>"

subsection \<open>Properties\<close>



text \<open>
  Property C15. The registry follows the event stream: after any number of stream attempts, the address
  of a catalog asset is that of the last streamed registration event for its on-chain id, whether or
  not the event could be broadcast, and the earlier one if there was none.
\<close>

theorem registry_follows_stream:
  assumes "keccak_contract keccak" and "a \<in> set AssetCatalog"
    and "\<And>t. t \<in> set attempts \<Longrightarrow> live_attempt t \<and> ends (is_StreamEvents (at_stub t) stream_request)"
  shows "registry_Aggregator (hw_registry (fst (runIndexerStream keccak cfg order attempts w))) (a_ID a) =
    (case find (\<lambda>reg. ToLower (TrimSpace (ar_AssetID reg)) = asset_hash keccak a)
        (rev (List.map_filter e_AssetRegistered
          (filter (\<lambda>e. e_Kind e = EventKindAssetRegistered)
            (map EventFromProto (concat (map (event_messages \<circ> at_stub) attempts)))))) of
       None \<Rightarrow> registry_Aggregator (hw_registry w) (a_ID a)
     | Some reg \<Rightarrow> Some (ar_Aggregator reg))"
proof -
  have "runIndexerStream keccak cfg order attempts w =
      (fold (on_event keccak order) (concat (map ((\<lambda>stub. map EventFromProto (event_messages stub)) \<circ> at_stub) attempts)) w,
       replicate (length attempts) (reconnect_backoff cfg), False)"
    unfolding runIndexerStream_def
    by (rule feed_loop_live) (simp_all add: assms(3) StreamEvents_result)
  then show ?thesis
    by (simp add: fold_on_event_registry fold_live_update load_fold_lookup [OF assms(1,2)] map_concat comp_def)
qed

theorem registry_follows_stream_witness:
  "registry_Aggregator (hw_registry (fst (runIndexerStream pad32 (s_GRPCClient (Unmarshal (map_of setDefaults))) (\<lambda>_. [])
     [\<lparr>at_cancelled = False,
       at_stub = \<lparr>is_ListEvents = (\<lambda>_. Inr ([], None)), is_GetRequest = (\<lambda>_. Inr None),
         is_StreamEvents = (\<lambda>_. Inr [Inr (Some \<lparr>pe_meta = None, pe_kind = 3,
            pe_payload = Some (Event_AssetRegistered (Some (Some
              \<lparr>par_asset_id = asset_hash pad32 (hd AssetCatalog), par_aggregator = ''0xagg''\<rparr>)))\<rparr>), Inl (ErrSentinel IO_EOF)])\<rparr>,
       at_cancelled_after = False\<rparr>] idle_world))) (a_ID (hd AssetCatalog)) = Some ''0xagg''"
    (is "registry_Aggregator (hw_registry (fst (runIndexerStream pad32 ?cfg ?o [?a] _))) _ = _")
proof -
  have weth: "hd AssetCatalog \<in> set AssetCatalog" by (simp add: AssetCatalog_def)
  have "t \<in> set [?a] \<Longrightarrow> live_attempt t \<and> ends (is_StreamEvents (at_stub t) stream_request)" for t
    by (simp add: live_attempt_def ends_def)
  from registry_follows_stream [OF pad32_contract weth, where attempts = "[?a]" and cfg = ?cfg and order = ?o
      and w = idle_world, OF this]
  show ?thesis
    by (simp add: event_messages_def EventFromProto_def EventKindFromProto_def event_kind_defs map_filter_def
        asset_hash_trim [OF pad32_contract] asset_hash_lower)
qed

text \<open>
  Both feeds end when their context is cancelled, which is what \<open>Stop\<close> waits for: at the
  first attempt that sees the cancellation, before its call or once the call has returned, the loop
  returns, having waited only between the earlier attempts, and no later attempt is made.
\<close>

theorem feeds_end_on_cancel:
  assumes "\<And>a. a \<in> set pre \<Longrightarrow> live_attempt a \<and> ends (ps_Subscribe (at_stub a) (feed_assets cfg))"
    and "last_attempt a" and "ends (ps_Subscribe (at_stub a) (feed_assets cfg))"
    and "\<And>b. b \<in> set ipre \<Longrightarrow> live_attempt b \<and> ends (is_StreamEvents (at_stub b) stream_request)"
    and "last_attempt b" and "ends (is_StreamEvents (at_stub b) stream_request)"
  shows "runPriceSubscribe cfg order (pre @ a # post) w =
      (fold (on_price order) (map AggregatedPriceFromProto
         (concat (map (price_messages (feed_assets cfg) \<circ> at_stub) pre) @ tail_messages (price_messages (feed_assets cfg)) a)) w,
       replicate (length pre) (reconnect_backoff cfg), True)
    \<and> runIndexerStream keccak cfg order (ipre @ b # ipost) w =
      (fold (on_event keccak order) (map EventFromProto
         (concat (map (event_messages \<circ> at_stub) ipre) @ tail_messages event_messages b)) w,
       replicate (length ipre) (reconnect_backoff cfg), True)"
proof
  have conv: "tail_messages (\<lambda>stub. map g (msgs stub)) c = map g (tail_messages msgs c)" for g :: "'x \<Rightarrow> 'y" and msgs :: "'z \<Rightarrow> 'x list" and c
    by (simp add: tail_messages_def)
  have "runPriceSubscribe cfg order (pre @ a # post) w =
      (fold (on_price order)
         (concat (map ((\<lambda>stub. map AggregatedPriceFromProto (price_messages (feed_assets cfg) stub)) \<circ> at_stub) pre)
          @ tail_messages (\<lambda>stub. map AggregatedPriceFromProto (price_messages (feed_assets cfg) stub)) a) w,
       replicate (length pre) (reconnect_backoff cfg), True)"
    unfolding runPriceSubscribe_def
    by (rule feed_loop_stops) (simp_all add: assms(1-3) price_Subscribe_result [OF feed_assets_ne])
  then show "runPriceSubscribe cfg order (pre @ a # post) w =
      (fold (on_price order) (map AggregatedPriceFromProto
         (concat (map (price_messages (feed_assets cfg) \<circ> at_stub) pre) @ tail_messages (price_messages (feed_assets cfg)) a)) w,
       replicate (length pre) (reconnect_backoff cfg), True)"
    by (simp add: map_concat comp_def conv)
  have "runIndexerStream keccak cfg order (ipre @ b # ipost) w =
      (fold (on_event keccak order)
         (concat (map ((\<lambda>stub. map EventFromProto (event_messages stub)) \<circ> at_stub) ipre)
          @ tail_messages (\<lambda>stub. map EventFromProto (event_messages stub)) b) w,
       replicate (length ipre) (reconnect_backoff cfg), True)"
    unfolding runIndexerStream_def
    by (rule feed_loop_stops) (simp_all add: assms(4-6) StreamEvents_result)
  then show "runIndexerStream keccak cfg order (ipre @ b # ipost) w =
      (fold (on_event keccak order) (map EventFromProto
         (concat (map (event_messages \<circ> at_stub) ipre) @ tail_messages event_messages b)) w,
       replicate (length ipre) (reconnect_backoff cfg), True)"
    by (simp add: map_concat comp_def conv)
qed

definition down_price :: "price_stub" where
  "down_price = \<lparr>ps_GetPrice = (\<lambda>_. Inr None), ps_Subscribe = (\<lambda>_. Inl (ErrStatus C_Unavailable ''down''))\<rparr>"

definition down_indexer :: "indexer_stub" where
  "down_indexer = \<lparr>is_ListEvents = (\<lambda>_. Inr ([], None)), is_GetRequest = (\<lambda>_. Inr None),
     is_StreamEvents = (\<lambda>_. Inl (ErrStatus C_Unavailable ''down''))\<rparr>"

theorem feeds_end_on_cancel_witness:
  "snd (runPriceSubscribe (s_GRPCClient (Unmarshal (map_of setDefaults))) (\<lambda>_. [])
     [\<lparr>at_cancelled = False, at_stub = down_price, at_cancelled_after = False\<rparr>,
      \<lparr>at_cancelled = False, at_stub = down_price, at_cancelled_after = True\<rparr>,
      \<lparr>at_cancelled = False, at_stub = down_price, at_cancelled_after = False\<rparr>] idle_world) = ([5000000000], True)
   \<and> snd (runIndexerStream pad32 (s_GRPCClient (Unmarshal (map_of setDefaults))) (\<lambda>_. [])
     [\<lparr>at_cancelled = True, at_stub = down_indexer, at_cancelled_after = True\<rparr>] idle_world) = ([], True)"
proof -
  let ?cfg = "s_GRPCClient (Unmarshal (map_of setDefaults))"
  let ?a = "\<lparr>at_cancelled = False, at_stub = down_price, at_cancelled_after = False\<rparr>"
  let ?z = "\<lparr>at_cancelled = False, at_stub = down_price, at_cancelled_after = True\<rparr>"
  let ?b = "\<lparr>at_cancelled = True, at_stub = down_indexer, at_cancelled_after = True\<rparr>"
  have "reconnect_backoff ?cfg = 5000000000"
    by (simp add: reconnect_backoff_def default_scheme ParseDuration_defaults)
  moreover have "a \<in> set [?a] \<Longrightarrow> live_attempt a \<and> ends (ps_Subscribe (at_stub a) (feed_assets ?cfg))" for a
    by (simp add: live_attempt_def ends_def down_price_def)
  moreover have "last_attempt ?z" "ends (ps_Subscribe (at_stub ?z) (feed_assets ?cfg))"
      "last_attempt ?b" "ends (is_StreamEvents (at_stub ?b) stream_request)"
    by (simp_all add: last_attempt_def ends_def down_price_def down_indexer_def)
  ultimately show ?thesis
    using feeds_end_on_cancel [of "[?a]" ?cfg ?z "[]" ?b "\<lambda>_. []" "[?a]" idle_world pad32 "[]"] by simp
qed

end
