(* ===== verification/Feed_Clock.thy ===== *)
theory Feed_Clock
  imports Feeds
begin

text \<open>
  The feed loops against the clock. \<open>Feeds\<close> leaves open what \<open>ctx.Err()\<close> answers at each test; here
  the context is cancelled at one instant, a call says when it returns, \<open>sleepWithCtx\<close> says when the
  pause ends, and the answers follow.
\<close>

text \<open>The \<open>select\<close> of \<open>sleepWithCtx\<close>: the instant it returns, given when the context is done, if ever.\<close>

definition sleepWithCtx :: "int option \<Rightarrow> int \<Rightarrow> int \<Rightarrow> int" where
  "sleepWithCtx ctxDone d now =
     (let timer = now + max 0 d in
      case ctxDone of None \<Rightarrow> timer | Some t \<Rightarrow> min (max now t) timer)"

text \<open>\<open>ctx.Err() != nil\<close>.\<close>

definition ctx_Err :: "int option \<Rightarrow> int \<Rightarrow> bool" where
  "ctx_Err ctxDone now = (case ctxDone of None \<Rightarrow> False | Some t \<Rightarrow> t \<le> now)"

record 'stub timed =
  tm_stub :: 'stub
  tm_returns :: "int \<Rightarrow> int"

text \<open>The instant the loop returns, \<open>None\<close> while it is still in these rounds.\<close>

fun feed_clock :: "int option \<Rightarrow> int \<Rightarrow> 'stub timed list \<Rightarrow> int \<Rightarrow> int option" where
  "feed_clock ctxDone backoff [] now = None"
| "feed_clock ctxDone backoff (a # as) now =
     (if ctx_Err ctxDone now then Some now
      else let t = tm_returns a now in
        if ctx_Err ctxDone t then Some t else feed_clock ctxDone backoff as (sleepWithCtx ctxDone backoff t))"

text \<open>The same rounds as attempts of \<open>feed_loop\<close>, with the answers the clock gives.\<close>

fun stamp :: "int option \<Rightarrow> int \<Rightarrow> 'stub timed list \<Rightarrow> int \<Rightarrow> 'stub attempt list" where
  "stamp ctxDone backoff [] now = []"
| "stamp ctxDone backoff (a # as) now =
     (let t = tm_returns a now in
      \<lparr>at_cancelled = ctx_Err ctxDone now, at_stub = tm_stub a, at_cancelled_after = ctx_Err ctxDone t\<rparr>
        # stamp ctxDone backoff as (sleepWithCtx ctxDone backoff t))"

lemma sleep_bounds:
  "now \<le> sleepWithCtx ctxDone d now" "sleepWithCtx ctxDone d now \<le> now + max 0 d"
  "sleepWithCtx (Some t) d now \<le> max now t"
  by (auto simp: sleepWithCtx_def Let_def split: option.split)

text \<open>A pause that is cut short ends the loop: its next test finds the context cancelled.\<close>

lemma sleep_short: "sleepWithCtx ctxDone d now < now + d \<Longrightarrow> ctx_Err ctxDone (sleepWithCtx ctxDone d now)"
  by (auto simp: sleepWithCtx_def ctx_Err_def Let_def split: option.splits)

lemma stamp_loop:
  assumes "\<And>a s. a \<in> set as \<Longrightarrow> \<exists>e. snd (call (tm_stub a) s) = Returned e"
  shows "snd (snd (feed_loop backoff call (stamp ctxDone backoff as now) s)) \<longleftrightarrow> feed_clock ctxDone backoff as now \<noteq> None"
  using assms
proof (induction as arbitrary: now s)
  case (Cons a as)
  obtain s1 e where "call (tm_stub a) s = (s1, Returned e)" using Cons.prems by (metis list.set_intros(1) prod.collapse)
  with Cons show ?case by (simp add: Let_def split_beta)
qed simp

text \<open>
  Calls that return when their context is done: the loop is out at the moment of cancellation. A round
  takes at least the pause, so that many rounds are enough.
\<close>

lemma feed_clock_cancel:
  assumes "0 < backoff" and "now \<le> t" and "t - now \<le> backoff * (int (length as) - 1)"
    and "\<And>a u. a \<in> set as \<Longrightarrow> u \<le> tm_returns a u \<and> tm_returns a u \<le> max u t"
  shows "feed_clock (Some t) backoff as now = Some t"
  using assms(2-4)
proof (induction as arbitrary: now)
  case Nil
  with assms(1) show ?case by simp
next
  case (Cons a as)
  let ?r = "tm_returns a now"
  have r: "now \<le> ?r" "?r \<le> t" using Cons.prems(1) Cons.prems(3) [of a now] by (simp_all add: max_def)
  show ?case
  proof (cases "?r < t")
    case True
    let ?s = "sleepWithCtx (Some t) backoff ?r"
    have s: "?s \<le> t" using True sleep_bounds(3) [of t backoff ?r] by simp
    have len: "t - now \<le> backoff * int (length as)" using Cons.prems(2) by simp
    then have "as \<noteq> []" using True r assms(1) by auto
    then have "0 \<le> int (length as) - 1" by (cases as) simp_all
    then have pos: "0 \<le> backoff * (int (length as) - 1)" using assms(1) by (intro mult_nonneg_nonneg) linarith+
    have "t - ?s \<le> backoff * (int (length as) - 1)"
    proof (cases "?s < ?r + backoff")
      case True
      then have "?s = t" using s sleep_short [of "Some t" backoff ?r] by (simp add: ctx_Err_def)
      with pos show ?thesis by simp
    next
      case False
      then show ?thesis using len r by (simp add: right_diff_distrib)
    qed
    then have "feed_clock (Some t) backoff as ?s = Some t" using s Cons.prems(3) by (intro Cons.IH) auto
    then show ?thesis using True r by (simp add: ctx_Err_def Let_def)
  next
    case False
    then show ?thesis using r by (auto simp: ctx_Err_def Let_def)
  qed
qed

subsection \<open>Properties\<close>

text \<open>
  Property C14. A cancelled feed is gone at once: if the upstream calls return when their context is
  done, both loops return at the very instant of the cancellation, whether it falls into a call or
  into the pause between two calls, and whatever the upstream did before; the number of rounds until
  then is at most one more than the number of pauses that fit before the cancellation.
\<close>

theorem feeds_stop_promptly:
  assumes "now \<le> t"
    and "t - now \<le> reconnect_backoff cfg * (int (length as) - 1)"
    and "\<And>a u. a \<in> set as \<Longrightarrow> ends (ps_Subscribe (tm_stub a) (feed_assets cfg)) \<and> u \<le> tm_returns a u \<and> tm_returns a u \<le> max u t"
    and "t - now \<le> reconnect_backoff cfg * (int (length bs) - 1)"
    and "\<And>b u. b \<in> set bs \<Longrightarrow> ends (is_StreamEvents (tm_stub b) stream_request) \<and> u \<le> tm_returns b u \<and> tm_returns b u \<le> max u t"
  shows "snd (snd (runPriceSubscribe cfg order (stamp (Some t) (reconnect_backoff cfg) as now) w))
    \<and> feed_clock (Some t) (reconnect_backoff cfg) as now = Some t
    \<and> snd (snd (runIndexerStream keccak cfg order (stamp (Some t) (reconnect_backoff cfg) bs now) w))
    \<and> feed_clock (Some t) (reconnect_backoff cfg) bs now = Some t"
proof (intro conjI)
  show p: "feed_clock (Some t) (reconnect_backoff cfg) as now = Some t"
    by (rule feed_clock_cancel [OF reconnect_backoff_pos assms(1,2)]) (simp add: assms(3))
  show i: "feed_clock (Some t) (reconnect_backoff cfg) bs now = Some t"
    by (rule feed_clock_cancel [OF reconnect_backoff_pos assms(1,4)]) (simp add: assms(5))
  show "snd (snd (runPriceSubscribe cfg order (stamp (Some t) (reconnect_backoff cfg) as now) w))"
    unfolding runPriceSubscribe_def
    by (subst stamp_loop) (use p assms(3) in \<open>blast intro: price_Subscribe_result(2) [OF feed_assets_ne]\<close>, simp add: p)
  show "snd (snd (runIndexerStream keccak cfg order (stamp (Some t) (reconnect_backoff cfg) bs now) w))"
    unfolding runIndexerStream_def
    by (subst stamp_loop) (use i assms(5) in \<open>blast intro: StreamEvents_result(2)\<close>, simp add: i)
qed

text \<open>An upstream that is down and refuses within one second, cancelled twelve seconds after the start.\<close>

theorem feeds_stop_promptly_witness:
  "let cfg = s_GRPCClient (Unmarshal (map_of setDefaults));
       ret = (\<lambda>u. min (u + 1000000000) (max u 12000000000));
       as = replicate 4 \<lparr>tm_stub = down_price, tm_returns = ret\<rparr> in
     feed_clock (Some 12000000000) (reconnect_backoff cfg) as 0 = Some 12000000000
   \<and> snd (snd (runPriceSubscribe cfg (\<lambda>_. []) (stamp (Some 12000000000) (reconnect_backoff cfg) as 0) idle_world))"
proof -
  let ?cfg = "s_GRPCClient (Unmarshal (map_of setDefaults))"
  let ?ret = "\<lambda>u :: int. min (u + 1000000000) (max u 12000000000)"
  let ?as = "replicate 4 \<lparr>tm_stub = down_price, tm_returns = ?ret\<rparr>"
  let ?bs = "replicate 4 \<lparr>tm_stub = down_indexer, tm_returns = ?ret\<rparr>"
  have b: "reconnect_backoff ?cfg = 5000000000"
    by (simp add: reconnect_backoff_def default_scheme ParseDuration_defaults)
  have "ends (ps_Subscribe down_price ids)" "ends (is_StreamEvents down_indexer req)" for ids req
    by (simp_all add: ends_def down_price_def down_indexer_def)
  then show ?thesis
    using feeds_stop_promptly [of 0 12000000000 ?cfg ?as ?bs "\<lambda>_. []" idle_world pad32] by (simp add: b Let_def)
qed

end
