(* ===== verification/Redis.thy ===== *)
theory Redis
  imports Go_Strings "HOL-Library.List_Lexorder" "HOL-Library.Char_ord" "HOL-Library.Multiset"
begin

text \<open>
  The Redis server the rate limiter talks to. The server is outside the repository: the limiter's
  definitions take its commands as an argument (the record \<open>redis_ops\<close>), and the locale
  \<open>redis_server\<close> states the documented behaviour of the five commands the Lua script calls and of
  key expiry as the server's clock advances. The second half is a reference server on sorted
  entry lists, ordered by score and then member as Redis orders them; it is shown to meet the
  contract and makes the limiter executable.
\<close>

record 'r redis_ops =
  ZREMRANGEBYSCORE :: "string \<Rightarrow> int \<Rightarrow> 'r \<Rightarrow> 'r"  \<comment> \<open>from \<open>-inf\<close> to the bound, inclusive\<close>
  ZCARD :: "string \<Rightarrow> 'r \<Rightarrow> int"
  ZRANGE_0_0_WITHSCORES :: "string \<Rightarrow> 'r \<Rightarrow> (string \<times> int) list"
  ZADD :: "string \<Rightarrow> int \<Rightarrow> string \<Rightarrow> 'r \<Rightarrow> 'r"
  PEXPIRE :: "string \<Rightarrow> int \<Rightarrow> 'r \<Rightarrow> 'r"
  server_time :: "int \<Rightarrow> 'r \<Rightarrow> 'r"  \<comment> \<open>the server's clock reaches this millisecond\<close>

text \<open>The entries of a sorted set with a score above the bound.\<close>

definition above :: "int \<Rightarrow> (string \<rightharpoonup> int) \<Rightarrow> (string \<rightharpoonup> int)" where
  "above m z = (\<lambda>x. case z x of Some s \<Rightarrow> (if m < s then Some s else None) | None \<Rightarrow> None)"

lemma above_Some: "above m z x = Some s \<longleftrightarrow> z x = Some s \<and> m < s"
  by (auto simp: above_def split: option.splits)

locale redis_server =
  fixes R :: "'r redis_ops"
    and invar :: "'r \<Rightarrow> bool"
    and zset :: "'r \<Rightarrow> string \<Rightarrow> (string \<rightharpoonup> int)"  \<comment> \<open>key, member to score\<close>
    and deadline :: "'r \<Rightarrow> (string \<rightharpoonup> int)"  \<comment> \<open>key to expiry time\<close>
    and clock :: "'r \<Rightarrow> int"
  assumes zset_finite: "invar r \<Longrightarrow> finite (dom (zset r k))"
    and zrem_invar: "invar r \<Longrightarrow> invar (ZREMRANGEBYSCORE R k m r)"
    and zrem_zset: "invar r \<Longrightarrow> zset (ZREMRANGEBYSCORE R k m r) = (zset r)(k := above m (zset r k))"
    and zrem_deadline: "invar r \<Longrightarrow> deadline (ZREMRANGEBYSCORE R k m r) =
          (if above m (zset r k) = Map.empty then (deadline r)(k := None) else deadline r)"
    and zrem_clock: "invar r \<Longrightarrow> clock (ZREMRANGEBYSCORE R k m r) = clock r"
    and zcard: "invar r \<Longrightarrow> ZCARD R k r = int (card (dom (zset r k)))"
    and zrange_Nil: "invar r \<Longrightarrow> ZRANGE_0_0_WITHSCORES R k r = [] \<longleftrightarrow> zset r k = Map.empty"
    and zrange_Cons: "invar r \<Longrightarrow> ZRANGE_0_0_WITHSCORES R k r = (x, s) # rest \<Longrightarrow>
          rest = [] \<and> zset r k x = Some s \<and> (\<forall>y t. zset r k y = Some t \<longrightarrow> s \<le> t)"
    and zadd_invar: "invar r \<Longrightarrow> invar (ZADD R k s x r)"
    and zadd_zset: "invar r \<Longrightarrow> zset (ZADD R k s x r) = (zset r)(k := (zset r k)(x \<mapsto> s))"
    and zadd_deadline: "invar r \<Longrightarrow> deadline (ZADD R k s x r) = deadline r"
    and zadd_clock: "invar r \<Longrightarrow> clock (ZADD R k s x r) = clock r"
    and pexpire_invar: "invar r \<Longrightarrow> invar (PEXPIRE R k ms r)"
    and pexpire_zset: "invar r \<Longrightarrow> 0 < ms \<Longrightarrow> zset (PEXPIRE R k ms r) = zset r"
    and pexpire_deadline: "invar r \<Longrightarrow> 0 < ms \<Longrightarrow> zset r k \<noteq> Map.empty \<Longrightarrow>
          deadline (PEXPIRE R k ms r) = (deadline r)(k \<mapsto> clock r + ms)"
    and pexpire_clock: "invar r \<Longrightarrow> clock (PEXPIRE R k ms r) = clock r"
    and time_invar: "invar r \<Longrightarrow> invar (server_time R t r)"
    and time_zset: "invar r \<Longrightarrow> zset (server_time R t r) =
          (\<lambda>k. case deadline r k of Some d \<Rightarrow> (if d \<le> t then Map.empty else zset r k) | None \<Rightarrow> zset r k)"
    and time_deadline: "invar r \<Longrightarrow> deadline (server_time R t r) =
          (\<lambda>k. case deadline r k of Some d \<Rightarrow> (if d \<le> t then None else Some d) | None \<Rightarrow> None)"
    and time_clock: "invar r \<Longrightarrow> clock (server_time R t r) = t"
begin

lemmas invars = zrem_invar zadd_invar pexpire_invar time_invar
lemmas clocks = zrem_clock zadd_clock pexpire_clock time_clock

end

subsection \<open>A reference server\<close>

datatype zentry = ZEntry (z_score: int) (z_member: string)

instantiation zentry :: linorder
begin

definition less_eq_zentry :: "zentry \<Rightarrow> zentry \<Rightarrow> bool" where
  "less_eq_zentry a b \<longleftrightarrow> z_score a < z_score b \<or> (z_score a = z_score b \<and> z_member a \<le> z_member b)"

definition less_zentry :: "zentry \<Rightarrow> zentry \<Rightarrow> bool" where
  "less_zentry a b \<longleftrightarrow> z_score a < z_score b \<or> (z_score a = z_score b \<and> z_member a < z_member b)"

instance
  by standard (auto simp: less_eq_zentry_def less_zentry_def zentry.expand)

end

record redis_store =
  st_clock :: int
  st_zsets :: "string \<Rightarrow> zentry list"
  st_ttl :: "string \<rightharpoonup> int"

definition empty_store :: redis_store where
  "empty_store = \<lparr>st_clock = 0, st_zsets = (\<lambda>_. []), st_ttl = Map.empty\<rparr>"

definition store_zrem :: "string \<Rightarrow> int \<Rightarrow> redis_store \<Rightarrow> redis_store" where
  "store_zrem k m r =
     (let zs = filter (\<lambda>e. m < z_score e) (st_zsets r k)
      in r\<lparr>st_zsets := (st_zsets r)(k := zs),
           st_ttl := (if zs = [] then (st_ttl r)(k := None) else st_ttl r)\<rparr>)"

definition store_zcard :: "string \<Rightarrow> redis_store \<Rightarrow> int" where
  "store_zcard k r = int (length (st_zsets r k))"

definition store_zrange :: "string \<Rightarrow> redis_store \<Rightarrow> (string \<times> int) list" where
  "store_zrange k r = map (\<lambda>e. (z_member e, z_score e)) (take 1 (st_zsets r k))"

definition store_zadd :: "string \<Rightarrow> int \<Rightarrow> string \<Rightarrow> redis_store \<Rightarrow> redis_store" where
  "store_zadd k s x r =
     r\<lparr>st_zsets := (st_zsets r)(k := insort (ZEntry s x) (filter (\<lambda>e. z_member e \<noteq> x) (st_zsets r k)))\<rparr>"

definition store_pexpire :: "string \<Rightarrow> int \<Rightarrow> redis_store \<Rightarrow> redis_store" where
  "store_pexpire k ms r =
     (if ms \<le> 0 then r\<lparr>st_zsets := (st_zsets r)(k := []), st_ttl := (st_ttl r)(k := None)\<rparr>
      else if st_zsets r k = [] then r
      else r\<lparr>st_ttl := (st_ttl r)(k \<mapsto> st_clock r + ms)\<rparr>)"

definition store_expired :: "redis_store \<Rightarrow> int \<Rightarrow> string \<Rightarrow> bool" where
  "store_expired r t k = (case st_ttl r k of Some d \<Rightarrow> d \<le> t | None \<Rightarrow> False)"

definition store_time :: "int \<Rightarrow> redis_store \<Rightarrow> redis_store" where
  "store_time t r =
     \<lparr>st_clock = t,
      st_zsets = (\<lambda>k. if store_expired r t k then [] else st_zsets r k),
      st_ttl = (\<lambda>k. if store_expired r t k then None else st_ttl r k)\<rparr>"

definition store_ops :: "redis_store redis_ops" where
  "store_ops =
     \<lparr>ZREMRANGEBYSCORE = store_zrem, ZCARD = store_zcard, ZRANGE_0_0_WITHSCORES = store_zrange,
      ZADD = store_zadd, PEXPIRE = store_pexpire, server_time = store_time\<rparr>"

text \<open>A stored set is sorted and has each member once.\<close>

definition store_invar :: "redis_store \<Rightarrow> bool" where
  "store_invar r \<longleftrightarrow> (\<forall>k. sorted (st_zsets r k) \<and> distinct (map z_member (st_zsets r k)))"

definition store_zset :: "redis_store \<Rightarrow> string \<Rightarrow> (string \<rightharpoonup> int)" where
  "store_zset r k = map_of (map (\<lambda>e. (z_member e, z_score e)) (st_zsets r k))"

subsection \<open>The reference server meets the contract\<close>

definition entry_map :: "zentry list \<Rightarrow> (string \<rightharpoonup> int)" where
  "entry_map es = map_of (map (\<lambda>e. (z_member e, z_score e)) es)"

lemma entry_map_Some:
  "distinct (map z_member es) \<Longrightarrow> entry_map es x = Some s \<longleftrightarrow> ZEntry s x \<in> set es"
  by (auto simp: entry_map_def map_of_eq_Some_iff comp_def image_iff intro: bexI [rotated])

lemma entry_map_dom: "dom (entry_map es) = z_member ` set es"
  by (simp add: entry_map_def dom_map_of_conv_image_fst image_image)

lemma entry_map_empty [simp]: "entry_map es = Map.empty \<longleftrightarrow> es = []"
  by (simp add: entry_map_def)

lemma entry_map_filter:
  assumes "distinct (map z_member es)"
  shows "entry_map (filter (\<lambda>e. m < z_score e) es) = above m (entry_map es)"
proof (rule ext)
  fix x
  have "distinct (map z_member (filter (\<lambda>e. m < z_score e) es))"
    using assms by (rule distinct_map_filter)
  then have "entry_map (filter (\<lambda>e. m < z_score e) es) x = Some s \<longleftrightarrow> above m (entry_map es) x = Some s" for s
    using assms by (auto simp: entry_map_Some above_Some)
  then show "entry_map (filter (\<lambda>e. m < z_score e) es) x = above m (entry_map es) x"
    by (metis not_None_eq)
qed

lemma distinct_insort_member:
  assumes "distinct (map z_member es)"
  shows "distinct (map z_member (insort (ZEntry s x) (filter (\<lambda>e. z_member e \<noteq> x) es)))"
proof -
  have "mset (map z_member (insort (ZEntry s x) (filter (\<lambda>e. z_member e \<noteq> x) es)))
      = mset (x # map z_member (filter (\<lambda>e. z_member e \<noteq> x) es))"
    by simp
  moreover have "distinct (x # map z_member (filter (\<lambda>e. z_member e \<noteq> x) es))"
    using assms by (auto simp: distinct_map_filter)
  ultimately show ?thesis by (metis mset_eq_imp_distinct_iff)
qed

lemma entry_map_insort:
  assumes "distinct (map z_member es)"
  shows "entry_map (insort (ZEntry s x) (filter (\<lambda>e. z_member e \<noteq> x) es)) = (entry_map es)(x \<mapsto> s)"
proof (rule ext)
  fix y
  have "entry_map (insort (ZEntry s x) (filter (\<lambda>e. z_member e \<noteq> x) es)) y = Some t
      \<longleftrightarrow> ((entry_map es)(x \<mapsto> s)) y = Some t" for t
    using assms by (auto simp: entry_map_Some distinct_insort_member set_insort_key)
  then show "entry_map (insort (ZEntry s x) (filter (\<lambda>e. z_member e \<noteq> x) es)) y = ((entry_map es)(x \<mapsto> s)) y"
    by (metis not_None_eq)
qed

lemma store_zset_entry: "store_zset r k = entry_map (st_zsets r k)"
  by (simp add: store_zset_def entry_map_def)

lemma store_invarD: "store_invar r \<Longrightarrow> sorted (st_zsets r k) \<and> distinct (map z_member (st_zsets r k))"
  by (simp add: store_invar_def)

lemma sorted_least_score: "sorted (e # es) \<Longrightarrow> f \<in> set es \<Longrightarrow> z_score e \<le> z_score f"
  by (auto simp: less_eq_zentry_def)

interpretation store: redis_server store_ops store_invar store_zset st_ttl st_clock
proof (unfold_locales, goal_cases)
  case (1 r k)
  then show ?case by (simp add: store_zset_entry entry_map_dom)
next
  case (2 r k m)
  then show ?case
    by (auto simp: store_invar_def store_ops_def store_zrem_def Let_def sorted_wrt_filter distinct_map_filter)
next
  case (3 r k m)
  then show ?case
    by (auto simp: fun_eq_iff store_ops_def store_zrem_def Let_def store_zset_entry entry_map_filter store_invarD)
next
  case (4 r k m)
  then have "above m (store_zset r k) = Map.empty \<longleftrightarrow> filter (\<lambda>e. m < z_score e) (st_zsets r k) = []"
    by (simp only: store_zset_entry entry_map_filter [symmetric] store_invarD entry_map_empty)
  then show ?case by (simp add: store_ops_def store_zrem_def Let_def)
next
  case (6 r k)
  then have "card (z_member ` set (st_zsets r k)) = length (st_zsets r k)"
    by (metis distinct_card length_map list.set_map store_invarD)
  then show ?case by (simp add: store_ops_def store_zcard_def store_zset_entry entry_map_dom)
next
  case (7 r k)
  then show ?case by (simp add: store_ops_def store_zrange_def store_zset_entry)
next
  case (8 r k x s rest)
  then obtain e es where es: "st_zsets r k = e # es" and x: "x = z_member e" "s = z_score e" "rest = []"
    by (cases "st_zsets r k") (auto simp: store_ops_def store_zrange_def)
  from 8(1) have inv: "sorted (e # es)" "distinct (map z_member (e # es))"
    using store_invarD [of r k] es by simp_all
  have "s \<le> t" if "ZEntry t y \<in> set (e # es)" for y t
    using that inv(1) sorted_least_score [of e es "ZEntry t y"] x by (cases e) auto
  moreover have "ZEntry s x \<in> set (e # es)" using x by simp
  ultimately show ?case
    using inv(2) x(3) by (simp add: store_zset_entry es entry_map_Some del: list.set)
next
  case (9 r k s x)
  then show ?case
    by (auto simp: store_invar_def store_ops_def store_zadd_def sorted_insort sorted_wrt_filter
        distinct_insort_member)
next
  case (10 r k s x)
  then show ?case
    by (auto simp: fun_eq_iff store_ops_def store_zadd_def store_zset_entry entry_map_insort store_invarD)
next
  case (13 r k ms)
  then show ?case by (auto simp: store_invar_def store_ops_def store_pexpire_def)
next
  case (17 r t)
  then show ?case by (auto simp: store_invar_def store_ops_def store_time_def)
qed (auto simp: fun_eq_iff store_ops_def store_zrem_def store_zadd_def store_pexpire_def store_time_def
      store_expired_def store_zset_entry entry_map_def Let_def split: option.split)

end
