(* ===== verification/Limiter.thy ===== *)
theory Limiter
  imports Redis
begin

text \<open>
  The sliding-window limiter of \<open>internal/ratelimit/limiter.go\<close> and \<open>redis.go\<close>: the Lua script
  as one atomic transition of the Redis server, and \<open>RedisLimiter.Allow\<close> around it. The clock
  reading, the request's UUID and a transport fault are inputs of \<open>Allow\<close>. Lua numbers and the
  millisecond clock are integers here; they are exact in a double below \<open>2 ^ 53\<close>.

  The abstract specification is the log of admitted requests: a request is admitted exactly when
  fewer than \<open>limit\<close> admitted requests of its key lie in the window that ends now.
\<close>

subsection \<open>Limiter\<close>

record Decision =
  d_Allowed :: bool
  d_Limit :: int
  d_Remaining :: int
  d_RetryAfter :: int  \<comment> \<open>a \<open>time.Duration\<close>, nanoseconds\<close>

record RedisLimiter =
  l_limit :: int
  l_windowMS :: int
  l_keyPrefix :: string

definition NewRedisLimiter :: "int \<Rightarrow> int \<Rightarrow> RedisLimiter" where
  "NewRedisLimiter requestsPerMinute burst =
     \<lparr>l_limit = wrap_int64 (requestsPerMinute + burst), l_windowMS = 60 * 1000, l_keyPrefix = ''ratelimit''\<rparr>"

datatype redis_value = RNil | RInt int | RBulk string | RArray "redis_value list"

definition slidingWindowScript ::
  "'r redis_ops \<Rightarrow> string \<Rightarrow> int \<Rightarrow> int \<Rightarrow> int \<Rightarrow> string \<Rightarrow> 'r \<Rightarrow> 'r \<times> redis_value" where
  "slidingWindowScript R key now_ms window_ms limit token r0 =
     (let r = ZREMRANGEBYSCORE R key (now_ms - window_ms) r0;
          count = ZCARD R key r
      in if count \<ge> limit
         then (let retry_ms =
                     (case ZRANGE_0_0_WITHSCORES R key r of
                        (_, score) # _ \<Rightarrow>
                          (let retry = score + window_ms - now_ms in if retry < 0 then 0 else retry)
                      | [] \<Rightarrow> window_ms)
               in (r, RArray [RInt 0, RInt count, RInt retry_ms]))
         else (PEXPIRE R key window_ms (ZADD R key now_ms token r),
               RArray [RInt 1, RInt (count + 1), RInt 0]))"

text \<open>\<open>v, _ := x.(int64)\<close>: 0 when the value is no integer.\<close>

definition as_int64 :: "redis_value \<Rightarrow> int" where
  "as_int64 v = (case v of RInt n \<Rightarrow> n | _ \<Rightarrow> 0)"

definition second :: int where "second = 1000000000"
definition millisecond :: int where "millisecond = 1000000"

text \<open>What \<open>Allow\<close> makes of the script's raw reply.\<close>

definition decode_reply :: "RedisLimiter \<Rightarrow> redis_value \<Rightarrow> Decision go_result" where
  "decode_reply l raw =
     (case raw of
        RArray (v0 # v1 # v2 # _) \<Rightarrow>
          (let allowed = (as_int64 v0 = 1);
               remaining = wrap_int64 (l_limit l - as_int64 v1);
               retry = wrap_int64 (as_int64 v2 * millisecond)
           in Inr \<lparr>d_Allowed = allowed,
                   d_Limit = l_limit l,
                   d_Remaining = (if remaining < 0 then 0 else remaining),
                   d_RetryAfter = (if \<not> allowed then (if retry < second then second else retry) else 0)\<rparr>)
      | _ \<Rightarrow> Inl (ErrText ''ratelimit script: unexpected reply shape''))"

definition redis_key :: "RedisLimiter \<Rightarrow> string \<Rightarrow> string" where
  "redis_key l key = l_keyPrefix l @ '':'' @ key"

definition mk_token :: "int \<Rightarrow> string \<Rightarrow> string" where
  "mk_token nowMS uuid = Itoa nowMS @ '':'' @ uuid"

definition Allow ::
  "'r redis_ops \<Rightarrow> RedisLimiter \<Rightarrow> string \<Rightarrow> int \<Rightarrow> string \<Rightarrow> go_error option \<Rightarrow> 'r \<Rightarrow> 'r \<times> Decision go_result" where
  "Allow R l key nowMS uuid fault r =
     (case fault of
        Some err \<Rightarrow> (r, Inl (ErrWrap ''ratelimit script'' err))
      | None \<Rightarrow>
          (let (r', raw) = slidingWindowScript R (redis_key l key) nowMS (l_windowMS l) (l_limit l)
                             (mk_token nowMS uuid) r
           in (r', decode_reply l raw)))"

text \<open>
  A sequence of requests \<open>(key, now, uuid)\<close> against one server whose clock agrees with the
  callers'; the verdicts in order.
\<close>

type_synonym request = "string \<times> int \<times> string"

fun allow_run :: "'r redis_ops \<Rightarrow> RedisLimiter \<Rightarrow> request list \<Rightarrow> 'r \<Rightarrow> 'r \<times> Decision go_result list" where
  "allow_run R l [] r = (r, [])"
| "allow_run R l ((key, now, uuid) # reqs) r =
     (let (r1, d) = Allow R l key now uuid None (server_time R now r);
          (r2, ds) = allow_run R l reqs r1
      in (r2, d # ds))"

definition allowed :: "Decision go_result \<Rightarrow> bool" where
  "allowed d = (case d of Inr x \<Rightarrow> d_Allowed x | Inl _ \<Rightarrow> False)"

subsection \<open>Specification: the log of admitted requests\<close>

definition in_window :: "int \<Rightarrow> int \<Rightarrow> int \<Rightarrow> bool" where
  "in_window w now t \<longleftrightarrow> now - w < t \<and> t \<le> now"

definition admitted_in :: "int \<Rightarrow> (string \<times> int) list \<Rightarrow> string \<Rightarrow> int \<Rightarrow> nat" where
  "admitted_in w log key now = length (filter (\<lambda>(k, t). k = key \<and> in_window w now t) log)"

fun window_log :: "int \<Rightarrow> int \<Rightarrow> (string \<times> int) list \<Rightarrow> (string \<times> int) list \<Rightarrow> bool list" where
  "window_log w limit log [] = []"
| "window_log w limit log ((key, now) # reqs) =
     (let ok = int (admitted_in w log key now) < limit
      in ok # window_log w limit (if ok then (key, now) # log else log) reqs)"

text \<open>The log after the requests, newest first.\<close>

fun log_after :: "int \<Rightarrow> int \<Rightarrow> (string \<times> int) list \<Rightarrow> (string \<times> int) list \<Rightarrow> (string \<times> int) list" where
  "log_after w limit log [] = log"
| "log_after w limit log ((key, now) # reqs) =
     log_after w limit (if int (admitted_in w log key now) < limit then (key, now) # log else log) reqs"

subsection \<open>Tokens and keys are unambiguous\<close>

lemma redis_key_inj [simp]: "redis_key l j = redis_key l k \<longleftrightarrow> j = k"
  by (simp add: redis_key_def)

lemma show_nat_no_colon: "CHR '':'' \<notin> set (show_nat n)"
  using show_nat_digits [of n] by (auto simp: list_all_iff is_digit_byte_def byte_val_def)

lemma Itoa_no_colon: "CHR '':'' \<notin> set (Itoa x)"
  using show_nat_no_colon by (simp add: Itoa_def)

lemma append_sep_eq:
  "c \<notin> set xs \<Longrightarrow> c \<notin> set ys \<Longrightarrow> xs @ c # us = ys @ c # vs \<longleftrightarrow> xs = ys \<and> us = vs"
proof (induction xs arbitrary: ys)
  case Nil
  then show ?case by (cases ys) auto
next
  case (Cons x xs)
  then show ?case by (cases ys) auto
qed

lemma mk_token_inj: "mk_token m u = mk_token n v \<Longrightarrow> u = v"
  by (simp add: mk_token_def append_sep_eq Itoa_no_colon)

subsection \<open>The server's sorted sets are the live part of the log\<close>

text \<open>
  \<open>full\<close> is the log with tokens. At time \<open>T\<close> every set holds exactly the entries of its key that
  are still in the window, no score is in the future, and a key never expires before the tokens
  in it leave the window.
\<close>

type_synonym token_log = "(string \<times> int \<times> string) list"

definition tracks ::
  "('r \<Rightarrow> string \<Rightarrow> (string \<rightharpoonup> int)) \<Rightarrow> ('r \<Rightarrow> (string \<rightharpoonup> int)) \<Rightarrow> RedisLimiter \<Rightarrow> int \<Rightarrow> token_log \<Rightarrow> 'r \<Rightarrow> bool" where
  "tracks zset deadline l T full r \<longleftrightarrow>
     (\<forall>k x s. T - l_windowMS l < s \<longrightarrow> (zset r (redis_key l k) x = Some s \<longleftrightarrow> (k, s, x) \<in> set full))
     \<and> (\<forall>k x s. zset r (redis_key l k) x = Some s \<longrightarrow> s \<le> T)
     \<and> (\<forall>k x s d. zset r (redis_key l k) x = Some s \<longrightarrow> deadline r (redis_key l k) = Some d \<longrightarrow> s + l_windowMS l \<le> d)
     \<and> (\<forall>(k, s, x) \<in> set full. s \<le> T)
     \<and> distinct (map (\<lambda>(k, s, x). x) full)"

definition strip :: "token_log \<Rightarrow> (string \<times> int) list" where
  "strip full = map (\<lambda>(k, s, x). (k, s)) full"

lemma tracks_live: "tracks zset deadline l T full r \<Longrightarrow> T - l_windowMS l < s \<Longrightarrow>
    zset r (redis_key l k) x = Some s \<longleftrightarrow> (k, s, x) \<in> set full"
  by (simp add: tracks_def)

lemma tracks_past: "tracks zset deadline l T full r \<Longrightarrow> zset r (redis_key l k) x = Some s \<Longrightarrow> s \<le> T"
  by (simp add: tracks_def)

lemma tracks_deadline: "tracks zset deadline l T full r \<Longrightarrow> zset r (redis_key l k) x = Some s \<Longrightarrow>
    deadline r (redis_key l k) = Some d \<Longrightarrow> s + l_windowMS l \<le> d"
  by (simp add: tracks_def)

lemma tracks_log: "tracks zset deadline l T full r \<Longrightarrow> (k, s, x) \<in> set full \<Longrightarrow> s \<le> T"
  by (auto simp: tracks_def)

lemma tracks_distinct: "tracks zset deadline l T full r \<Longrightarrow> distinct (map (\<lambda>(k, s, x). x) full)"
  by (simp add: tracks_def)

lemma live_card:
  assumes dist: "distinct (map (\<lambda>(k, s, x). x) full)"
    and past: "\<And>k s x. (k, s, x) \<in> set full \<Longrightarrow> s \<le> T"
    and dom: "\<And>x s. z x = Some s \<longleftrightarrow> (k, s, x) \<in> set full \<and> T - w < s"
  shows "card (dom z) = admitted_in w (strip full) k T"
proof -
  let ?f = "filter (\<lambda>(k', s, x). k' = k \<and> in_window w T s) full"
  have "dom z = set (map (\<lambda>(k, s, x). x) ?f)"
    using past by (force simp: dom in_window_def dom_def)
  moreover have "distinct (map (\<lambda>(k, s, x). x) ?f)"
    using dist by (rule distinct_map_filter)
  ultimately have "card (dom z) = length ?f"
    by (metis distinct_card length_map)
  also have "\<dots> = admitted_in w (strip full) k T"
    by (simp add: admitted_in_def strip_def filter_map comp_def split_beta')
  finally show ?thesis .
qed

context redis_server
begin

lemma tracks_time:
  assumes inv: "invar r" and tr: "tracks zset deadline l T full r" and le: "T \<le> now"
  shows "tracks zset deadline l now full (server_time R now r)"
proof -
  let ?r = "server_time R now r"
  have sub: "zset r k x = Some s" if "zset ?r k x = Some s" for k x s
    using that by (auto simp: time_zset [OF inv] split: option.splits if_splits)
  have dl: "deadline r k = Some d" if "deadline ?r k = Some d" for k d
    using that by (auto simp: time_deadline [OF inv] split: option.splits if_splits)
  have keep: "zset ?r (redis_key l k) x = Some s" if "zset r (redis_key l k) x = Some s" "now - l_windowMS l < s" for k x s
    using that tracks_deadline [OF tr that(1)] by (auto simp: time_zset [OF inv] split: option.split)
  have "zset ?r (redis_key l k) x = Some s \<longleftrightarrow> (k, s, x) \<in> set full" if s: "now - l_windowMS l < s" for k x s
  proof -
    from s le have "T - l_windowMS l < s" by simp
    then show ?thesis
      using tracks_live [OF tr, of s k x] sub [of "redis_key l k" x s] keep [of k x s, OF _ s] by blast
  qed
  moreover have "s \<le> now" if "(k, s, x) \<in> set full" for k s x
    using tracks_log [OF tr that] le by simp
  moreover have "s \<le> now" if "zset ?r (redis_key l k) x = Some s" for k x s
    using tracks_past [OF tr sub [OF that]] le by simp
  moreover have "s + l_windowMS l \<le> d"
    if "zset ?r (redis_key l k) x = Some s" "deadline ?r (redis_key l k) = Some d" for k x s d
    using tracks_deadline [OF tr sub [OF that(1)] dl [OF that(2)]] .
  ultimately show ?thesis
    using tracks_distinct [OF tr] by (auto simp: tracks_def)
qed

lemma tracks_zrem:
  assumes inv: "invar r" and tr: "tracks zset deadline l now full r"
  shows "tracks zset deadline l now full (ZREMRANGEBYSCORE R (redis_key l key) (now - l_windowMS l) r)"
proof -
  let ?r = "ZREMRANGEBYSCORE R (redis_key l key) (now - l_windowMS l) r"
  have z: "zset ?r (redis_key l k) x = Some s \<longleftrightarrow>
      zset r (redis_key l k) x = Some s \<and> (k = key \<longrightarrow> now - l_windowMS l < s)" for k x s
    by (auto simp: zrem_zset [OF inv] above_Some)
  have "deadline r k = Some d" if "deadline ?r k = Some d" for k d
    using that by (auto simp: zrem_deadline [OF inv] split: if_splits)
  then show ?thesis
    using tr unfolding tracks_def z by blast
qed

lemma zrem_key:
  assumes inv: "invar r" and tr: "tracks zset deadline l now full r"
  shows "zset (ZREMRANGEBYSCORE R (redis_key l key) (now - l_windowMS l) r) (redis_key l key) x = Some s
    \<longleftrightarrow> (key, s, x) \<in> set full \<and> now - l_windowMS l < s"
  using tracks_live [OF tr, of s key x] by (auto simp: zrem_zset [OF inv] above_Some)

lemma zrem_zcard:
  assumes inv: "invar r" and tr: "tracks zset deadline l now full r"
  shows "ZCARD R (redis_key l key) (ZREMRANGEBYSCORE R (redis_key l key) (now - l_windowMS l) r)
    = int (admitted_in (l_windowMS l) (strip full) key now)"
  unfolding zcard [OF zrem_invar [OF inv]] of_nat_eq_iff
  by (rule live_card [OF tracks_distinct [OF tr] tracks_log [OF tr] zrem_key [OF inv tr]])

lemma tracks_admit:
  assumes inv: "invar r" and tr: "tracks zset deadline l now full r" and clk: "clock r = now"
    and w: "0 < l_windowMS l" and fresh: "token \<notin> (\<lambda>(k, s, x). x) ` set full"
    and clean: "\<And>x s. zset r (redis_key l key) x = Some s \<Longrightarrow> now - l_windowMS l < s"
  shows "tracks zset deadline l now ((key, now, token) # full)
    (PEXPIRE R (redis_key l key) (l_windowMS l) (ZADD R (redis_key l key) now token r))"
proof -
  let ?a = "ZADD R (redis_key l key) now token r"
  let ?r = "PEXPIRE R (redis_key l key) (l_windowMS l) ?a"
  have inv': "invar ?a" by (rule zadd_invar [OF inv])
  have z: "zset ?r = (zset r)(redis_key l key := (zset r (redis_key l key))(token \<mapsto> now))"
    by (simp add: pexpire_zset [OF inv' w] zadd_zset [OF inv])
  have ne: "zset ?a (redis_key l key) \<noteq> Map.empty"
    by (simp add: zadd_zset [OF inv])
  have d: "deadline ?r = (deadline r)(redis_key l key \<mapsto> now + l_windowMS l)"
    by (simp add: pexpire_deadline [OF inv' w ne] zadd_clock [OF inv] zadd_deadline [OF inv] clk)
  have new: "zset r (redis_key l key) token = None"
  proof (rule ccontr)
    assume "zset r (redis_key l key) token \<noteq> None"
    then obtain s where s: "zset r (redis_key l key) token = Some s" by blast
    from tracks_live [OF tr clean [OF s]] s have "(key, s, token) \<in> set full" by simp
    with fresh show False by force
  qed
  have "zset ?r (redis_key l k) x = Some s \<longleftrightarrow> (k, s, x) \<in> set ((key, now, token) # full)"
    if "now - l_windowMS l < s" for k x s
    using tracks_live [OF tr that, of k x] new fresh by (auto simp: z image_iff)
  moreover have "s \<le> now" if "zset ?r (redis_key l k) x = Some s" for k x s
    using that tracks_past [OF tr, of k x s] by (auto simp: z split: if_splits)
  moreover have "s + l_windowMS l \<le> e"
    if "zset ?r (redis_key l k) x = Some s" "deadline ?r (redis_key l k) = Some e" for k x s e
    using that tracks_past [OF tr, of k x s] tracks_deadline [OF tr, of k x s e]
    by (auto simp: z d split: if_splits)
  ultimately show ?thesis
    using tracks_distinct [OF tr] tracks_log [OF tr] fresh by (auto simp: tracks_def)
qed

text \<open>One call of \<open>Allow\<close> decides by the log and extends it exactly when it admits.\<close>

lemma Allow_step:
  assumes inv: "invar r" and tr: "tracks zset deadline l T full r" and le: "T \<le> now"
    and w: "0 < l_windowMS l" and fresh: "mk_token now uuid \<notin> (\<lambda>(k, s, x). x) ` set full"
    and run: "Allow R l key now uuid None (server_time R now r) = (r', d)"
  shows "invar r'
    \<and> (allowed d \<longleftrightarrow> int (admitted_in (l_windowMS l) (strip full) key now) < l_limit l)
    \<and> tracks zset deadline l now (if allowed d then (key, now, mk_token now uuid) # full else full) r'"
proof -
  let ?s = "server_time R now r"
  let ?z = "ZREMRANGEBYSCORE R (redis_key l key) (now - l_windowMS l) ?s"
  have invs: "invar ?s" by (rule time_invar [OF inv])
  have trs: "tracks zset deadline l now full ?s" by (rule tracks_time [OF inv tr le])
  have invz: "invar ?z" by (rule zrem_invar [OF invs])
  have trz: "tracks zset deadline l now full ?z" by (rule tracks_zrem [OF invs trs])
  have clkz: "clock ?z = now" by (simp add: clocks inv invs)
  have clean: "now - l_windowMS l < s" if "zset ?z (redis_key l key) x = Some s" for x s
    using that zrem_key [OF invs trs] by blast
  have admit: "tracks zset deadline l now ((key, now, mk_token now uuid) # full)
      (PEXPIRE R (redis_key l key) (l_windowMS l) (ZADD R (redis_key l key) now (mk_token now uuid) ?z))"
    using tracks_admit [OF invz trz clkz w fresh clean] .
  show ?thesis
    using run invz trz admit
    by (auto simp: Allow_def slidingWindowScript_def Let_def zrem_zcard [OF invs trs] decode_reply_def
        as_int64_def allowed_def invars split: if_splits)
qed

lemma allow_run_log:
  assumes "invar r" and "tracks zset deadline l T full r" and "0 < l_windowMS l"
    and "sorted (T # map (\<lambda>(k, t, u). t) reqs)"
    and "distinct (map (\<lambda>(k, t, u). u) reqs)"
    and "(\<lambda>(k, t, u). mk_token t u) ` set reqs \<inter> (\<lambda>(k, s, x). x) ` set full = {}"
  shows "map allowed (snd (allow_run R l reqs r))
      = window_log (l_windowMS l) (l_limit l) (strip full) (map (\<lambda>(k, t, u). (k, t)) reqs)
    \<and> invar (fst (allow_run R l reqs r))
    \<and> (\<exists>full'. tracks zset deadline l (last (T # map (\<lambda>(k, t, u). t) reqs)) full' (fst (allow_run R l reqs r))
        \<and> strip full' = log_after (l_windowMS l) (l_limit l) (strip full) (map (\<lambda>(k, t, u). (k, t)) reqs)
        \<and> set full' \<subseteq> set full \<union> (\<lambda>(k, t, u). (k, t, mk_token t u)) ` set reqs)"
  using assms
proof (induction reqs arbitrary: r T full)
  case Nil
  then show ?case by auto
next
  case (Cons q reqs)
  obtain key now uuid where q: "q = (key, now, uuid)" by (cases q)
  obtain r' d where run: "Allow R l key now uuid None (server_time R now r) = (r', d)" by fastforce
  let ?full = "if allowed d then (key, now, mk_token now uuid) # full else full"
  have fresh: "mk_token now uuid \<notin> (\<lambda>(k, s, x). x) ` set full"
    using Cons.prems(6) by (auto simp: q)
  have le: "T \<le> now" using Cons.prems(4) by (simp add: q)
  note step = Allow_step [OF Cons.prems(1,2) le Cons.prems(3) fresh run]
  have "(\<lambda>(k, t, u). mk_token t u) ` set reqs \<inter> (\<lambda>(k, s, x). x) ` set ?full = {}"
    using Cons.prems(5,6) by (force simp: q dest: mk_token_inj)
  then have IH: "map allowed (snd (allow_run R l reqs r'))
      = window_log (l_windowMS l) (l_limit l) (strip ?full) (map (\<lambda>(k, t, u). (k, t)) reqs)
    \<and> invar (fst (allow_run R l reqs r'))
    \<and> (\<exists>full'. tracks zset deadline l (last (now # map (\<lambda>(k, t, u). t) reqs)) full' (fst (allow_run R l reqs r'))
        \<and> strip full' = log_after (l_windowMS l) (l_limit l) (strip ?full) (map (\<lambda>(k, t, u). (k, t)) reqs)
        \<and> set full' \<subseteq> set ?full \<union> (\<lambda>(k, t, u). (k, t, mk_token t u)) ` set reqs)"
    using step Cons.prems by (intro Cons.IH [of r' now ?full]) (auto simp: q)
  have head: "strip ?full = (if int (admitted_in (l_windowMS l) (strip full) key now) < l_limit l
      then (key, now) # strip full else strip full)"
    using step by (auto simp: strip_def)
  from IH obtain full' where
    "tracks zset deadline l (last (now # map (\<lambda>(k, t, u). t) reqs)) full' (fst (allow_run R l reqs r'))"
    "strip full' = log_after (l_windowMS l) (l_limit l) (strip ?full) (map (\<lambda>(k, t, u). (k, t)) reqs)"
    "set full' \<subseteq> set ?full \<union> (\<lambda>(k, t, u). (k, t, mk_token t u)) ` set reqs"
    by blast
  moreover from this(3) have "set full' \<subseteq> set full \<union> (\<lambda>(k, t, u). (k, t, mk_token t u)) ` set (q # reqs)"
    by (auto simp: q split: if_splits)
  ultimately show ?case
    using IH step head by (auto simp: q run Let_def split_beta' intro!: exI [of _ full'])
qed

text \<open>A rejection carries the time until the oldest live token leaves the window, at least a second.\<close>

lemma Allow_reject:
  assumes inv: "invar r" and tr: "tracks zset deadline l T full r" and le: "T \<le> now"
    and w: "0 < l_windowMS l" "l_windowMS l \<le> 2 ^ 40" and lim: "0 < l_limit l"
    and run: "Allow R l key now uuid None (server_time R now r) = (r', Inr d)" and rej: "\<not> d_Allowed d"
  shows "\<exists>s. (key, s) \<in> set (strip full) \<and> in_window (l_windowMS l) now s
    \<and> d_RetryAfter d = max second ((s + l_windowMS l - now) * millisecond)"
proof -
  let ?s = "server_time R now r"
  let ?z = "ZREMRANGEBYSCORE R (redis_key l key) (now - l_windowMS l) ?s"
  have invs: "invar ?s" by (rule time_invar [OF inv])
  have trs: "tracks zset deadline l now full ?s" by (rule tracks_time [OF inv tr le])
  have invz: "invar ?z" by (rule zrem_invar [OF invs])
  have full: "ZCARD R (redis_key l key) ?z \<ge> l_limit l"
    using run rej by (auto simp: Allow_def slidingWindowScript_def Let_def decode_reply_def as_int64_def split: if_splits)
  with lim have "zset ?z (redis_key l key) \<noteq> Map.empty"
    by (auto simp: zcard [OF invz])
  then obtain x s rest where first: "ZRANGE_0_0_WITHSCORES R (redis_key l key) ?z = (x, s) # rest"
    using zrange_Nil [OF invz, of "redis_key l key"] by (cases "ZRANGE_0_0_WITHSCORES R (redis_key l key) ?z") auto
  from zrange_Cons [OF invz first] have "zset ?z (redis_key l key) x = Some s" by simp
  then have s: "(key, s, x) \<in> set full" "now - l_windowMS l < s"
    using zrem_key [OF invs trs] by simp_all
  with tracks_log [OF tr] le have le': "s \<le> now" by fastforce
  have wrap: "in_int64 ((s + l_windowMS l - now) * millisecond)"
    using s(2) le' w(2) by (simp add: in_int64_def millisecond_def)
  have "d_RetryAfter d = max second ((s + l_windowMS l - now) * millisecond)"
    using run rej full s(2) first wrap
    by (auto simp: Allow_def slidingWindowScript_def Let_def decode_reply_def as_int64_def max_def)
  moreover have "(key, s) \<in> set (strip full)" using s(1) by (force simp: strip_def)
  ultimately show ?thesis using s(2) le' by (auto simp: in_window_def)
qed

end

subsection \<open>The window bound\<close>

lemma admitted_in_Cons:
  "admitted_in w ((k, s) # log) key t = (if k = key \<and> in_window w t s then 1 else 0) + admitted_in w log key t"
  by (simp add: admitted_in_def)

lemma admitted_in_mono:
  assumes "\<And>s. (key, s) \<in> set log \<Longrightarrow> in_window w t s \<Longrightarrow> in_window w t' s"
  shows "admitted_in w log key t \<le> admitted_in w log key t'"
  using assms by (induction log) (auto simp: admitted_in_def)

lemma admitted_in_less:
  assumes "\<And>s. (key, s) \<in> set log \<Longrightarrow> in_window w t s \<Longrightarrow> in_window w t' s"
    and "(key, s0) \<in> set log" and "in_window w t' s0" and "\<not> in_window w t s0"
  shows "admitted_in w log key t < admitted_in w log key t'"
  using assms
proof (induction log)
  case (Cons a log)
  obtain k s where a: "a = (k, s)" by (cases a)
  have mono: "admitted_in w log key t \<le> admitted_in w log key t'"
    using Cons.prems(1) by (intro admitted_in_mono) auto
  show ?case
  proof (cases "(key, s0) \<in> set log")
    case True
    with Cons have "admitted_in w log key t < admitted_in w log key t'" by auto
    with Cons.prems(1) a show ?thesis by (auto simp: admitted_in_Cons)
  next
    case False
    with Cons.prems a mono show ?thesis by (auto simp: admitted_in_Cons)
  qed
qed simp

lemma log_after_bound:
  assumes "\<And>k t. int (admitted_in w log k t) \<le> max 0 limit"
    and "\<And>k s. (k, s) \<in> set log \<Longrightarrow> s \<le> T" and "sorted (T # map snd reqs)"
  shows "int (admitted_in w (log_after w limit log reqs) k t) \<le> max 0 limit"
  using assms
proof (induction reqs arbitrary: log T)
  case Nil
  then show ?case by simp
next
  case (Cons q reqs)
  obtain key now where q: "q = (key, now)" by (cases q)
  let ?log = "if int (admitted_in w log key now) < limit then (key, now) # log else log"
  have le: "T \<le> now" using Cons.prems(3) by (simp add: q)
  have "int (admitted_in w ?log j u) \<le> max 0 limit" for j u
  proof (cases "int (admitted_in w log key now) < limit \<and> j = key \<and> in_window w u now")
    case True
    have "admitted_in w log key u \<le> admitted_in w log key now"
      using True Cons.prems(2) le by (intro admitted_in_mono) (fastforce simp: in_window_def)
    with True show ?thesis by (simp add: admitted_in_Cons)
  next
    case False
    with Cons.prems(1) [of j u] show ?thesis by (auto simp: admitted_in_Cons)
  qed
  moreover have "s \<le> now" if "(k, s) \<in> set ?log" for k s
    using that Cons.prems(2) [of k s] le by (auto split: if_splits)
  ultimately have "int (admitted_in w (log_after w limit ?log reqs) k t) \<le> max 0 limit"
    using Cons.prems(3) by (intro Cons.IH [of ?log now]) (auto simp: q)
  then show ?case by (simp add: q)
qed

lemma log_after_past:
  assumes "\<And>k s. (k, s) \<in> set log \<Longrightarrow> s \<le> T" and "sorted (T # map snd reqs)"
    and "(k, s) \<in> set (log_after w limit log reqs)"
  shows "s \<le> last (T # map snd reqs)"
  using assms
proof (induction reqs arbitrary: log T)
  case (Cons q reqs)
  obtain key now where q: "q = (key, now)" by (cases q)
  let ?log = "if int (admitted_in w log key now) < limit then (key, now) # log else log"
  have "s' \<le> now" if "(k', s') \<in> set ?log" for k' s'
    using that Cons.prems(1) [of k' s'] Cons.prems(2) by (auto simp: q split: if_splits)
  with Cons.prems show ?case
    using Cons.IH [of ?log now] by (simp add: q)
qed auto

lemma log_after_verdicts:
  "log_after w limit log reqs = rev (map fst (filter snd (zip reqs (window_log w limit log reqs)))) @ log"
  by (induction w limit log reqs rule: log_after.induct) (simp_all add: Let_def)

lemma allow_run_append:
  "allow_run R l (as @ bs) r =
     (let (r1, ds) = allow_run R l as r; (r2, es) = allow_run R l bs r1 in (r2, ds @ es))"
  by (induction as arbitrary: r) (auto simp: Let_def split_beta')

lemma length_allow_run [simp]: "length (snd (allow_run R l reqs r)) = length reqs"
  by (induction reqs arbitrary: r) (auto simp: Let_def split_beta')

lemma window_NewRedisLimiter [simp]: "l_windowMS (NewRedisLimiter rpm burst) = 60000"
  by (simp add: NewRedisLimiter_def)

lemma limit_NewRedisLimiter [simp]: "l_limit (NewRedisLimiter rpm burst) = wrap_int64 (rpm + burst)"
  by (simp add: NewRedisLimiter_def)

text \<open>A run of the limiter on a server that holds none of its keys, in time order, with fresh UUIDs.\<close>

definition fresh_run :: "('r \<Rightarrow> string \<Rightarrow> (string \<rightharpoonup> int)) \<Rightarrow> RedisLimiter \<Rightarrow> request list \<Rightarrow> 'r \<Rightarrow> bool" where
  "fresh_run zset l reqs r \<longleftrightarrow>
     (\<forall>k. zset r (redis_key l k) = Map.empty)
     \<and> sorted (map (\<lambda>(k, t, u). t) reqs) \<and> distinct (map (\<lambda>(k, t, u). u) reqs)"

definition start_time :: "request list \<Rightarrow> int" where
  "start_time reqs = (case reqs of [] \<Rightarrow> 0 | (k, t, u) # _ \<Rightarrow> t)"

lemma fresh_run_tracks:
  "fresh_run zset l reqs r \<Longrightarrow> tracks zset deadline l (start_time reqs) [] r
     \<and> sorted (start_time reqs # map (\<lambda>(k, t, u). t) reqs)"
  by (auto simp: fresh_run_def tracks_def start_time_def split: list.split)

context redis_server
begin

text \<open>Two calls of one key: after the announced wait the oldest live token is gone.\<close>

lemma Allow_retry:
  assumes inv: "invar r" and tr: "tracks zset deadline l T full r" and le: "T \<le> t1" "t1 \<le> t2"
    and w: "0 < l_windowMS l" "l_windowMS l \<le> 2 ^ 40" and lim: "0 < l_limit l"
    and bound: "int (admitted_in (l_windowMS l) (strip full) key t1) \<le> l_limit l"
    and fresh: "mk_token t1 u1 \<notin> (\<lambda>(k, s, x). x) ` set full" "mk_token t2 u2 \<notin> (\<lambda>(k, s, x). x) ` set full"
    and run1: "Allow R l key t1 u1 None (server_time R t1 r) = (r1, Inr d1)" and rej: "\<not> d_Allowed d1"
    and run2: "Allow R l key t2 u2 None (server_time R t2 r1) = (r2, d2)"
    and wait: "t1 * millisecond + d_RetryAfter d1 \<le> t2 * millisecond"
  shows "allowed d2 \<and> second \<le> d_RetryAfter d1 \<and> d_RetryAfter d1 \<le> max second (l_windowMS l * millisecond)"
proof -
  have "\<not> allowed (Inr d1)" using rej by (simp add: allowed_def)
  with Allow_step [OF inv tr le(1) w(1) fresh(1) run1] have s1: "invar r1" "tracks zset deadline l t1 full r1"
    by simp_all
  obtain s where s: "(key, s) \<in> set (strip full)" "in_window (l_windowMS l) t1 s"
    and retry: "d_RetryAfter d1 = max second ((s + l_windowMS l - t1) * millisecond)"
    using Allow_reject [OF inv tr le(1) w lim run1 rej] by blast
  have "s + l_windowMS l \<le> t2"
    using wait retry by (simp add: millisecond_def max_def split: if_splits)
  then have out: "\<not> in_window (l_windowMS l) t2 s" by (simp add: in_window_def)
  have "in_window (l_windowMS l) t1 x" if "(key, x) \<in> set (strip full)" "in_window (l_windowMS l) t2 x" for x
    using that tracks_log [OF s1(2)] le(2) by (fastforce simp: in_window_def strip_def)
  from admitted_in_less [OF this s out] bound
  have "int (admitted_in (l_windowMS l) (strip full) key t2) < l_limit l" by simp
  with Allow_step [OF s1 le(2) w(1) fresh(2) run2] have "allowed d2" by simp
  with retry s(2) show ?thesis by (auto simp: in_window_def millisecond_def max_def)
qed

end

text \<open>Whole runs of the limiter, on any server that meets the contract.\<close>

lemma allow_run_window_log:
  assumes "redis_server R invar zset deadline clock" and "invar r"
    and "fresh_run zset (NewRedisLimiter rpm burst) reqs r"
  shows "map allowed (snd (allow_run R (NewRedisLimiter rpm burst) reqs r))
    = window_log 60000 (wrap_int64 (rpm + burst)) [] (map (\<lambda>(k, t, u). (k, t)) reqs)"
proof -
  let ?l = "NewRedisLimiter rpm burst"
  note start = fresh_run_tracks [OF assms(3), of deadline]
  have "distinct (map (\<lambda>(k, t, u). u) reqs)" using assms(3) by (simp add: fresh_run_def)
  then show ?thesis
    using redis_server.allow_run_log [OF assms(1,2) start [THEN conjunct1] _ start [THEN conjunct2]]
    by (simp add: strip_def)
qed

lemma allow_run_bound:
  assumes "redis_server R invar zset deadline clock" and "invar r"
    and "fresh_run zset (NewRedisLimiter rpm burst) reqs r"
  shows "int (length (filter (\<lambda>((k, t, u), d). k = key \<and> allowed d \<and> now - 60000 < t \<and> t \<le> now)
           (zip reqs (snd (allow_run R (NewRedisLimiter rpm burst) reqs r)))))
         \<le> max 0 (wrap_int64 (rpm + burst))"
proof -
  let ?ds = "snd (allow_run R (NewRedisLimiter rpm burst) reqs r)"
  let ?lim = "wrap_int64 (rpm + burst)"
  let ?kts = "map (\<lambda>(k, t, u). (k, t)) reqs"
  note start = fresh_run_tracks [OF assms(3), of deadline]
  have dist: "distinct (map (\<lambda>(k, t, u). u) reqs)" using assms(3) by (simp add: fresh_run_def)
  have verdicts: "map allowed ?ds = window_log 60000 ?lim [] ?kts"
    using redis_server.allow_run_log [OF assms(1,2) start [THEN conjunct1] _ start [THEN conjunct2]] dist
    by (simp add: strip_def)
  have "sorted (start_time reqs # map snd ?kts)"
    using start by (simp add: comp_def split_beta')
  then have "int (admitted_in 60000 (log_after 60000 ?lim [] ?kts) key now) \<le> max 0 ?lim"
    by (rule log_after_bound [rotated 2]) (simp_all add: admitted_in_def)
  also have "log_after 60000 ?lim [] ?kts
      = rev (map (\<lambda>((k, t, u), d). (k, t)) (filter (\<lambda>(q, d). allowed d) (zip reqs ?ds)))"
    unfolding log_after_verdicts verdicts [symmetric] zip_map_map
    by (simp add: filter_map comp_def split_beta' rev_map)
  finally show ?thesis
    by (simp add: admitted_in_def in_window_def filter_map rev_map [symmetric] rev_filter [symmetric]
        comp_def split_beta' conj_ac)
qed

subsection \<open>Properties\<close>

text \<open>
  Property C2. The Redis-backed limiter implements the sliding-window log: on any server that
  behaves as Redis documents, a run of requests in time order gets exactly the verdicts of the
  specification, in which a request is admitted if and only if fewer than rate plus burst admitted
  requests of its key lie in the 60 seconds that end at the request. In particular key expiry and
  eviction never forget a token that still counts.
\<close>

theorem limiter_refines_window_log:
  assumes "redis_server R invar zset deadline clock" and "invar r"
    and "fresh_run zset (NewRedisLimiter rpm burst) reqs r"
  shows "map allowed (snd (allow_run R (NewRedisLimiter rpm burst) reqs r))
    = window_log 60000 (wrap_int64 (rpm + burst)) [] (map (\<lambda>(k, t, u). (k, t)) reqs)"
  using assms by (rule allow_run_window_log)

theorem limiter_refines_window_log_witness:
  "map allowed (snd (allow_run store_ops (NewRedisLimiter 1 1)
      [(''a'', 1000, ''u1''), (''a'', 2000, ''u2''), (''a'', 3000, ''u3''), (''a'', 61000, ''u4'')] empty_store))
    = [True, True, False, True]"
proof -
  let ?reqs = "[(''a'', 1000, ''u1''), (''a'', 2000, ''u2''), (''a'', 3000, ''u3''), (''a'', 61000, ''u4'')]"
  have inv: "store_invar empty_store" by (simp add: store_invar_def empty_store_def)
  have "fresh_run store_zset (NewRedisLimiter 1 1) ?reqs empty_store"
    by (simp add: fresh_run_def store_zset_def empty_store_def)
  from limiter_refines_window_log [OF store.redis_server_axioms inv this] show ?thesis
    by (simp add: Let_def admitted_in_def in_window_def in_int64_def)
qed

text \<open>
  Property C3. No key is admitted more than rate plus burst times in any 60 seconds: over a whole
  run, and for every instant, the admitted requests of a key in the window ending at that instant
  number at most the limit (none, when the limit is not positive).
\<close>

theorem limiter_window_bound:
  assumes "redis_server R invar zset deadline clock" and "invar r"
    and "fresh_run zset (NewRedisLimiter rpm burst) reqs r"
  shows "int (length (filter (\<lambda>((k, t, u), d). k = key \<and> allowed d \<and> now - 60000 < t \<and> t \<le> now)
           (zip reqs (snd (allow_run R (NewRedisLimiter rpm burst) reqs r)))))
         \<le> max 0 (wrap_int64 (rpm + burst))"
  using assms by (rule allow_run_bound)

theorem limiter_window_bound_witness:
  "int (length (filter (\<lambda>((k, t, u), d). k = ''a'' \<and> allowed d \<and> 3500 - 60000 < t \<and> t \<le> 3500)
      (zip [(''a'', 1000::int, ''u1''), (''a'', 2000, ''u2''), (''a'', 3000, ''u3'')]
        (snd (allow_run store_ops (NewRedisLimiter 1 1)
          [(''a'', 1000, ''u1''), (''a'', 2000, ''u2''), (''a'', 3000, ''u3'')] empty_store))))) \<le> 2"
proof -
  let ?reqs = "[(''a'', 1000, ''u1''), (''a'', 2000, ''u2''), (''a'', 3000, ''u3'')]"
  have inv: "store_invar empty_store" by (simp add: store_invar_def empty_store_def)
  have fresh: "fresh_run store_zset (NewRedisLimiter 1 1) ?reqs empty_store"
    by (simp add: fresh_run_def store_zset_def empty_store_def)
  have lim: "max 0 (wrap_int64 (1 + 1)) = 2" by (simp add: in_int64_def)
  show ?thesis
    using limiter_window_bound [OF store.redis_server_axioms inv fresh, where key = "''a''" and now = 3500]
    unfolding lim .
qed

text \<open>
  Property C4. Waiting as told is enough: a key with a positive limit that was refused at one
  request and comes back after the announced \<open>RetryAfter\<close>, with no other request of any key in
  between, is admitted; and the announced time is at least one second and at most the window.
\<close>

theorem retry_after_suffices:
  assumes "redis_server R invar zset deadline clock" and "invar r"
    and "fresh_run zset (NewRedisLimiter rpm burst) (reqs @ [(k, t1, u1), (k, t2, u2)]) r"
    and "0 < wrap_int64 (rpm + burst)"
    and "snd (allow_run R (NewRedisLimiter rpm burst) (reqs @ [(k, t1, u1), (k, t2, u2)]) r)
           = ds @ [Inr d1, d2]"
    and "\<not> d_Allowed d1" and "t1 * millisecond + d_RetryAfter d1 \<le> t2 * millisecond"
  shows "allowed d2 \<and> second \<le> d_RetryAfter d1 \<and> d_RetryAfter d1 \<le> 60 * second"
proof -
  let ?l = "NewRedisLimiter rpm burst" and ?lim = "wrap_int64 (rpm + burst)"
  let ?all = "reqs @ [(k, t1, u1), (k, t2, u2)]"
  let ?kts = "map (\<lambda>(k, t, u). (k, t)) reqs"
  define T where "T = start_time ?all"
  have tr: "tracks zset deadline ?l T [] r" and sorted: "sorted (T # map (\<lambda>(k, t, u). t) ?all)"
    using fresh_run_tracks [OF assms(3), of deadline] by (simp_all add: T_def)
  have dist: "distinct (map (\<lambda>(k, t, u). u) ?all)" using assms(3) by (simp add: fresh_run_def)
  have sreqs: "sorted (T # map (\<lambda>(k, t, u). t) reqs)" and t12: "t1 \<le> t2"
    and before: "\<forall>x \<in> set (T # map (\<lambda>(k, t, u). t) reqs). x \<le> t1"
    using sorted by (auto simp: sorted_append)
  have le1: "last (T # map (\<lambda>(k, t, u). t) reqs) \<le> t1"
    by (rule bspec [OF before last_in_set]) simp
  define r0 where "r0 = fst (allow_run R ?l reqs r)"
  obtain full where inv0: "invar r0" and tr0: "tracks zset deadline ?l (last (T # map (\<lambda>(k, t, u). t) reqs)) full r0"
    and log: "strip full = log_after 60000 ?lim [] ?kts"
    and toks: "set full \<subseteq> (\<lambda>(k, t, u). (k, t, mk_token t u)) ` set reqs"
    using redis_server.allow_run_log [OF assms(1,2) tr _ sreqs] dist by (auto simp: strip_def r0_def)
  have fresh: "mk_token t u \<notin> (\<lambda>(k, s, x). x) ` set full" if "u \<in> {u1, u2}" for t u
    using toks dist that by (force dest: mk_token_inj)
  have "sorted (T # map snd ?kts)" using sreqs by (simp add: comp_def split_beta')
  then have bound: "int (admitted_in 60000 (strip full) k t1) \<le> ?lim"
    using log_after_bound [of 60000 "[]" ?lim T ?kts k t1] assms(4) by (simp add: log admitted_in_def)
  obtain r1 e1 where run1: "Allow R ?l k t1 u1 None (server_time R t1 r0) = (r1, e1)" by fastforce
  obtain r2 e2 where run2: "Allow R ?l k t2 u2 None (server_time R t2 r1) = (r2, e2)" by fastforce
  have "e1 = Inr d1" and "e2 = d2"
    using assms(5) by (simp_all add: allow_run_append r0_def [symmetric] run1 run2 split_beta' Let_def)
  with run1 run2 have run: "Allow R ?l k t1 u1 None (server_time R t1 r0) = (r1, Inr d1)"
      "Allow R ?l k t2 u2 None (server_time R t2 r1) = (r2, d2)"
    by simp_all
  have "allowed d2 \<and> second \<le> d_RetryAfter d1 \<and> d_RetryAfter d1 \<le> max second (l_windowMS ?l * millisecond)"
    by (rule redis_server.Allow_retry [OF assms(1) inv0 tr0 le1 t12 _ _ _ _ fresh fresh run(1) assms(6) run(2) assms(7)])
      (use bound assms(4) in simp_all)
  then show ?thesis by (simp add: second_def millisecond_def)
qed

theorem retry_after_suffices_witness:
  "map allowed (snd (allow_run store_ops (NewRedisLimiter 1 0)
      ([(''a'', 1000, ''u1'')] @ [(''a'', 2500, ''u2''), (''a'', 61000, ''u3'')]) empty_store))
    = [True, False, True]"
proof -
  let ?run = "allow_run store_ops (NewRedisLimiter 1 0)
      ([(''a'', 1000, ''u1'')] @ [(''a'', 2500, ''u2''), (''a'', 61000, ''u3'')]) empty_store"
  have inv: "store_invar empty_store" by (simp add: store_invar_def empty_store_def)
  have fresh: "fresh_run store_zset (NewRedisLimiter 1 0)
      ([(''a'', 1000, ''u1'')] @ [(''a'', 2500, ''u2''), (''a'', 61000, ''u3'')]) empty_store"
    by (simp add: fresh_run_def store_zset_def empty_store_def)
  have ds: "snd ?run = [Inr \<lparr>d_Allowed = True, d_Limit = 1, d_Remaining = 0, d_RetryAfter = 0\<rparr>]
      @ [Inr \<lparr>d_Allowed = False, d_Limit = 1, d_Remaining = 0, d_RetryAfter = 58500000000\<rparr>, snd ?run ! 2]"
    by (simp add: Allow_def slidingWindowScript_def Let_def decode_reply_def as_int64_def
        NewRedisLimiter_def redis_key_def in_int64_def second_def millisecond_def
        store_ops_def store_zrem_def store_zcard_def store_zrange_def store_zadd_def store_pexpire_def
        store_time_def store_expired_def empty_store_def)
  have "allowed (snd ?run ! 2)"
    using retry_after_suffices [OF store.redis_server_axioms inv fresh _ ds]
    by (simp add: in_int64_def millisecond_def)
  then show ?thesis by (subst ds) (simp add: allowed_def)
qed

end
