(* ===== verification/Keepalive.thy ===== *)
theory Keepalive
  imports Limiter
begin

text \<open>
  The timing of a WebSocket connection in \<open>internal/wshub/client.go\<close>: the read deadline that \<open>Serve\<close>
  sets and each pong moves, and the pings of the write pump. Times are nanoseconds. The peer is the
  list of what arrives from it, with arrival times; after the list it is silent.
\<close>

definition pingInterval :: int where "pingInterval = 30 * second"
definition pongTimeout :: int where "pongTimeout = 60 * second"
definition writeTimeout :: int where "writeTimeout = 10 * second"

lemmas timeouts = pingInterval_def pongTimeout_def second_def

datatype arrival = Pong | Frame | ReadError

text \<open>
  \<open>readPump\<close> under a read deadline: the time at which it returns. \<open>ReadMessage\<close> handles pongs inside,
  hands frames to the loop, which drops them, and fails at the deadline or on a connection error.
\<close>

fun readPump :: "int \<Rightarrow> (int \<times> arrival) list \<Rightarrow> int" where
  "readPump deadline [] = deadline"
| "readPump deadline ((t, a) # rest) =
     (if deadline \<le> t then deadline
      else case a of
        Pong \<Rightarrow> readPump (t + pongTimeout) rest
      | Frame \<Rightarrow> readPump deadline rest
      | ReadError \<Rightarrow> t)"

text \<open>The read side of \<open>Serve\<close>, for a connection upgraded at \<open>start\<close>.\<close>

definition Serve_read :: "int \<Rightarrow> (int \<times> arrival) list \<Rightarrow> int" where
  "Serve_read start arrivals = readPump (start + pongTimeout) arrivals"

text \<open>The \<open>k\<close>-th ping of a write pump that runs undisturbed.\<close>

definition ping_at :: "int \<Rightarrow> nat \<Rightarrow> int" where
  "ping_at start k = start + pingInterval * (int k + 1)"

definition pongs :: "(int \<times> arrival) list \<Rightarrow> int list" where
  "pongs arrivals = map fst (filter (\<lambda>(t, a). a = Pong) arrivals)"

text \<open>A peer that answers every ping within 30 seconds, as far as the list goes.\<close>

definition responsive :: "int \<Rightarrow> int list \<Rightarrow> bool" where
  "responsive start ps \<longleftrightarrow>
     (\<forall>k < length ps. ping_at start k \<le> ps ! k \<and> ps ! k < ping_at start k + (pongTimeout - pingInterval))"

fun gaps_ok :: "int \<Rightarrow> int list \<Rightarrow> bool" where
  "gaps_ok t [] = True"
| "gaps_ok t (p # ps) = (p < t + pongTimeout \<and> gaps_ok p ps)"

lemma pongs_simps [simp]:
  "pongs [] = []" "pongs ((t, a) # rest) = (if a = Pong then t # pongs rest else pongs rest)"
  by (simp_all add: pongs_def)

lemma readPump_le: "readPump (t0 + pongTimeout) es \<le> Max (set (t0 # pongs es)) + pongTimeout"
proof (induction es arbitrary: t0)
  case (Cons e es)
  obtain t a where e: "e = (t, a)" by (cases e)
  have mono: "Max (set (x # pongs es)) \<le> Max (set (t0 # x # pongs es))" for x
    by (rule Max_mono) auto
  have t0: "t0 \<le> Max (set (t0 # pongs (e # es)))" by (rule Max_ge) simp_all
  show ?case
  proof (cases a)
    case Pong
    have "readPump (t + pongTimeout) es \<le> Max (set (t0 # t # pongs es)) + pongTimeout"
      using Cons.IH [of t] mono [of t] by linarith
    with t0 show ?thesis by (simp add: e Pong)
  next
    case Frame
    with Cons.IH [of t0] t0 show ?thesis by (simp add: e)
  next
    case ReadError
    then have "readPump (t0 + pongTimeout) (e # es) \<le> t0 + pongTimeout" by (simp add: e)
    with t0 show ?thesis by linarith
  qed
qed simp

lemma readPump_alive:
  assumes "sorted (map fst es)" and "list_all (\<lambda>(t, a). a \<noteq> ReadError) es" and "gaps_ok t0 (pongs es)"
  shows "readPump (t0 + pongTimeout) es = last (t0 # pongs es) + pongTimeout"
  using assms
proof (induction es arbitrary: t0)
  case (Cons e es)
  obtain t a where e: "e = (t, a)" by (cases e)
  show ?case
  proof (cases a)
    case Pong
    with Cons show ?thesis by (simp add: e)
  next
    case Frame
    show ?thesis
    proof (cases "pongs es")
      case Nil
      with Cons Frame show ?thesis by (auto simp: e)
    next
      case (Cons p ps)
      moreover have "set (pongs es) \<subseteq> set (map fst es)" by (auto simp: pongs_def)
      ultimately have "p \<in> set (map fst es)" by auto
      then have "t \<le> p" using Cons.prems(1) by (auto simp: e)
      then have "t < t0 + pongTimeout" using Cons.prems(3) Frame Cons by (simp add: e)
      with Cons.IH [of t0] Cons.prems Frame show ?thesis by (simp add: e)
    qed
  next
    case ReadError
    with Cons.prems show ?thesis by (simp add: e)
  qed
qed simp

lemma responsive_gaps:
  assumes "responsive start ps"
  shows "gaps_ok start ps"
proof -
  have "gaps_ok (if i = 0 then start else ps ! (i - 1)) (drop i ps)" if "i \<le> length ps" for i
    using that
  proof (induction "length ps - i" arbitrary: i)
    case (Suc n)
    then have i: "i < length ps" "drop i ps = ps ! i # drop (Suc i) ps" by (simp_all add: Cons_nth_drop_Suc)
    have now: "ps ! i < ping_at start i + (pongTimeout - pingInterval)" using assms i(1) by (simp add: responsive_def)
    have "ps ! i < (if i = 0 then start else ps ! (i - 1)) + pongTimeout"
    proof (cases i)
      case 0
      with now show ?thesis by (simp add: ping_at_def)
    next
      case (Suc j)
      then have "ping_at start j \<le> ps ! j" using assms i(1) by (simp add: responsive_def)
      with now Suc show ?thesis by (simp add: ping_at_def timeouts)
    qed
    with Suc.hyps(1) [of "Suc i"] Suc.hyps(2) i show ?case by simp
  qed simp
  from this [of 0] show ?thesis by simp
qed

subsection \<open>Properties\<close>

text \<open>
  Property C16. The keepalive tells dead peers from live ones. Whatever a peer does, its read pump
  returns, and with it the client is closed, at most 60 seconds after its last pong (or after the
  upgrade); and a peer that answers every ping within 30 seconds and has no connection error is
  never cut off before it stops answering: the pump returns exactly 60 seconds after the last pong.
\<close>

theorem keepalive:
  "Serve_read start es \<le> Max (set (start # pongs es)) + pongTimeout
   \<and> (sorted (map fst es) \<and> list_all (\<lambda>(t, a). a \<noteq> ReadError) es \<and> responsive start (pongs es)
      \<longrightarrow> Serve_read start es = last (start # pongs es) + pongTimeout)"
  unfolding Serve_read_def using readPump_le readPump_alive responsive_gaps by blast

theorem keepalive_witness:
  "Serve_read 0 [(31000000000, Pong), (45000000000, Frame), (61000000000, Pong)] = 121000000000"
proof -
  let ?es = "[(31000000000, Pong), (45000000000, Frame), (61000000000, Pong)]"
  have "responsive 0 (pongs ?es)"
    by (auto simp: responsive_def ping_at_def timeouts less_Suc_eq numeral_2_eq_2)
  then show ?thesis using keepalive [of 0 ?es] by (simp add: timeouts)
qed

end
