(* ===== verification/Http.thy ===== *)
theory Http
  imports Json
begin

text \<open>
  What the handlers and middleware see of \<open>net/http\<close>. A response writer keeps the live header map,
  the status and header snapshot that went out with the first \<open>WriteHeader\<close>, and the body; later
  calls of \<open>WriteHeader\<close> do not change what was sent. A handler is a function on the request, the
  writer and a world state, and ends normally or with a panic.

  The writers that record the status (\<open>statusRecorder\<close>, \<open>metricsRecorder\<close>) wrap one another; the
  stack \<open>w_Recorders\<close> holds them, innermost first, and an explicit \<open>WriteHeader\<close> passes through
  all of them on its way to the connection, while a plain \<open>Write\<close> does not.
\<close>

subsection \<open>Headers\<close>

type_synonym header = "string \<rightharpoonup> string list"

text \<open>\<open>CanonicalHeaderKey\<close> on names made of letters, digits and hyphens.\<close>

fun canon_loop :: "bool \<Rightarrow> string \<Rightarrow> string" where
  "canon_loop up [] = []"
| "canon_loop up (c # cs) = (if up then upper_byte c else lower_byte c) # canon_loop (c = CHR ''-'') cs"

definition CanonicalHeaderKey :: "string \<Rightarrow> string" where
  "CanonicalHeaderKey k = canon_loop True k"

definition Header_Get :: "header \<Rightarrow> string \<Rightarrow> string" where
  "Header_Get h k = (case h (CanonicalHeaderKey k) of Some (v # _) \<Rightarrow> v | _ \<Rightarrow> '''')"

definition Header_Set :: "header \<Rightarrow> string \<Rightarrow> string \<Rightarrow> header" where
  "Header_Set h k v = h(CanonicalHeaderKey k \<mapsto> [v])"

definition Header_Del :: "header \<Rightarrow> string \<Rightarrow> header" where
  "Header_Del h k = h(CanonicalHeaderKey k := None)"

subsection \<open>Requests and responses\<close>

text \<open>
  \<open>q_Params\<close> are the path parameters the router extracted, \<open>q_Query\<close> the decoded query string and
  \<open>q_RequestID\<close> the context value of the request-id middleware.
\<close>

record Request =
  q_Method :: string
  q_Path :: string
  q_RemoteAddr :: string
  q_Header :: header
  q_Query :: "(string \<times> string) list"
  q_Params :: "(string \<times> string) list"
  q_RequestID :: "string option"

definition lookup_or_empty :: "(string \<times> string) list \<Rightarrow> string \<Rightarrow> string" where
  "lookup_or_empty kvs k = (case map_of kvs k of None \<Rightarrow> '''' | Some v \<Rightarrow> v)"

definition query_Get :: "Request \<Rightarrow> string \<Rightarrow> string" where
  "query_Get r k = lookup_or_empty (q_Query r) k"

definition URLParam :: "Request \<Rightarrow> string \<Rightarrow> string" where
  "URLParam r k = lookup_or_empty (q_Params r) k"

datatype body = BJson json | BText string

record Response =
  w_Header :: header
  w_Sent :: "(int \<times> header) option"
  w_Body :: "body list"
  w_Recorders :: "(int \<times> bool) list"

definition new_Response :: Response where
  "new_Response = \<lparr>w_Header = Map.empty, w_Sent = None, w_Body = [], w_Recorders = []\<rparr>"

definition set_header :: "string \<Rightarrow> string \<Rightarrow> Response \<Rightarrow> Response" where
  "set_header k v w = w\<lparr>w_Header := Header_Set (w_Header w) k v\<rparr>"

definition conn_WriteHeader :: "int \<Rightarrow> Response \<Rightarrow> Response" where
  "conn_WriteHeader code w =
     (case w_Sent w of None \<Rightarrow> w\<lparr>w_Sent := Some (code, w_Header w)\<rparr> | Some _ \<Rightarrow> w)"

text \<open>One recorder's \<open>WriteHeader\<close>: the first code sticks.\<close>

definition recorder_WriteHeader :: "int \<Rightarrow> int \<times> bool \<Rightarrow> int \<times> bool" where
  "recorder_WriteHeader code rec = (case rec of (status, wrote) \<Rightarrow> if \<not> wrote then (code, True) else (status, wrote))"

definition WriteHeader :: "int \<Rightarrow> Response \<Rightarrow> Response" where
  "WriteHeader code w =
     conn_WriteHeader code (w\<lparr>w_Recorders := map (recorder_WriteHeader code) (w_Recorders w)\<rparr>)"

definition Write :: "body \<Rightarrow> Response \<Rightarrow> Response" where
  "Write b w = (let w' = conn_WriteHeader 200 w in w'\<lparr>w_Body := w_Body w' @ [b]\<rparr>)"

text \<open>\<open>http.Error\<close>.\<close>

definition http_Error :: "string \<Rightarrow> int \<Rightarrow> Response \<Rightarrow> Response" where
  "http_Error msg code w =
     (let w1 = w\<lparr>w_Header := Header_Del (w_Header w) ''Content-Length''\<rparr>;
          w2 = set_header ''Content-Type'' ''text/plain; charset=utf-8'' w1;
          w3 = set_header ''X-Content-Type-Options'' ''nosniff'' w2
      in Write (BText (msg @ [CHR 0x0A])) (WriteHeader code w3))"

text \<open>
  The encoder buffers the whole text and writes it only when encoding succeeded. Both
  \<open>writeJSON\<close> functions and the middleware's refusal use it after the status.
\<close>

definition json_Encode :: "json \<Rightarrow> Response \<Rightarrow> Response" where
  "json_Encode j w = (case json_Marshal j of Inl _ \<Rightarrow> w | Inr t \<Rightarrow> Write (BJson t) w)"

definition writeJSON :: "int \<Rightarrow> json \<Rightarrow> Response \<Rightarrow> Response" where
  "writeJSON status j w =
     json_Encode j (WriteHeader status (set_header ''Content-Type'' ''application/json; charset=utf-8'' w))"

definition json_error :: "string \<Rightarrow> string \<Rightarrow> json" where
  "json_error code message = JObj [(''code'', JStr code), (''message'', JStr message)]"

definition writeError :: "int \<Rightarrow> string \<Rightarrow> string \<Rightarrow> Response \<Rightarrow> Response" where
  "writeError status code message w = writeJSON status (json_error code message) w"

subsection \<open>Handlers\<close>

type_synonym 's handler = "Request \<Rightarrow> Response \<Rightarrow> 's \<Rightarrow> Response \<times> 's \<times> string option"
type_synonym 's middleware = "'s handler \<Rightarrow> 's handler"

text \<open>What the client receives once the handler has returned; net/http sends 200 if nothing was.\<close>

definition sent_status :: "Response \<Rightarrow> int" where
  "sent_status w = (case w_Sent w of None \<Rightarrow> 200 | Some (c, h) \<Rightarrow> c)"

definition sent_header :: "Response \<Rightarrow> string \<Rightarrow> string" where
  "sent_header w k = (case w_Sent w of None \<Rightarrow> Header_Get (w_Header w) k | Some (c, h) \<Rightarrow> Header_Get h k)"

definition fresh_writer :: "Response \<Rightarrow> bool" where
  "fresh_writer w \<longleftrightarrow> w_Sent w = None \<and> w_Body w = []"

subsection \<open>Writer facts\<close>

lemmas writer_defs = set_header_def conn_WriteHeader_def WriteHeader_def Write_def json_Encode_def

lemma Header_Get_Set: "Header_Get (Header_Set h k v) k' =
    (if CanonicalHeaderKey k' = CanonicalHeaderKey k then v else Header_Get h k')"
  by (simp add: Header_Get_def Header_Set_def)

lemma set_header_fresh [simp]: "fresh_writer (set_header k v w) \<longleftrightarrow> fresh_writer w"
  by (simp add: fresh_writer_def set_header_def)

lemma writeJSON_fresh:
  assumes "fresh_writer w"
  shows "sent_status (writeJSON status j w) = status"
    and "sent_header (writeJSON status j w) k =
      (if CanonicalHeaderKey k = ''Content-Type'' then ''application/json; charset=utf-8'' else Header_Get (w_Header w) k)"
    and "w_Body (writeJSON status j w) = (if json_ok j then [BJson j] else [])"
proof -
  have ct: "CanonicalHeaderKey ''Content-Type'' = ''Content-Type''" by code_simp
  show "sent_status (writeJSON status j w) = status"
    and "sent_header (writeJSON status j w) k =
      (if CanonicalHeaderKey k = ''Content-Type'' then ''application/json; charset=utf-8'' else Header_Get (w_Header w) k)"
    and "w_Body (writeJSON status j w) = (if json_ok j then [BJson j] else [])"
    using assms
    by (auto simp: writeJSON_def writer_defs fresh_writer_def sent_status_def sent_header_def json_Marshal_def
        Header_Get_Set ct Let_def)
qed

lemma writeError_fresh:
  assumes "fresh_writer w"
  shows "sent_status (writeError status code msg w) = status"
    and "w_Body (writeError status code msg w) = [BJson (json_error code msg)]"
  using assms by (simp_all add: writeError_def writeJSON_fresh json_error_def)

text \<open>A response that has started keeps its status and headers.\<close>

lemma WriteHeader_sent: "w_Sent w = Some x \<Longrightarrow> w_Sent (WriteHeader code w) = Some x"
  by (simp add: WriteHeader_def conn_WriteHeader_def)

lemma Write_sent: "w_Sent w = Some x \<Longrightarrow> w_Sent (Write b w) = Some x"
  by (simp add: Write_def conn_WriteHeader_def)

end
