(* ===== verification/Handlers.thy ===== *)
theory Handlers
  imports Registry Http
begin

text \<open>
  The REST handlers of \<open>internal/handlers/handlers.go\<close> and \<open>submissions.go\<close>. The upstream services
  are the stubs of the clients, one fixed answer per request message; a handler reads them and the
  registry and writes one response.
\<close>

record API =
  api_Price :: price_stub
  api_Indexer :: indexer_stub
  api_Oracle :: oracle_stub
  api_Registry :: Registry
  api_Author :: AuthorConfig
  api_Version :: string
  api_ServiceID :: string

subsection \<open>Health\<close>

definition Health :: "API \<Rightarrow> Request \<Rightarrow> Response \<Rightarrow> Response" where
  "Health a r w =
     writeJSON 200
       (json_health
          \<lparr>hr_Status = ''ok'', hr_Service = api_ServiceID a, hr_Version = api_Version a,
           hr_Author = \<lparr>au_Name = author_Name (api_Author a), au_Links = author_Links (api_Author a)\<rparr>\<rparr>) w"

subsection \<open>The last on-chain round\<close>

definition latest_filter :: "string \<Rightarrow> ListEventsFilter" where
  "latest_filter idHash =
     \<lparr>lf_Kinds = [EventKindPriceFulfilled], lf_AssetID = idHash, lf_FromBlock = 0, lf_ToBlock = 0,
      lf_Page = \<lparr>pg_Number = 1, pg_Size = 1\<rparr>\<rparr>"

text \<open>The event and its payload, whose pointer the guard has checked.\<close>

definition latestOnChainRound :: "keccak256 \<Rightarrow> API \<Rightarrow> string \<Rightarrow> (Event \<times> PriceFulfilledEvent) option" where
  "latestOnChainRound keccak a assetID =
     (case AssetIDHash keccak assetID of
        None \<Rightarrow> None
      | Some idHash \<Rightarrow>
          (case indexer_ListEvents (api_Indexer a) (latest_filter idHash) of
             Inl err \<Rightarrow> None
           | Inr (events, _) \<Rightarrow>
               (case events of
                  [] \<Rightarrow> None
                | e # _ \<Rightarrow>
                    (case e_PriceFulfilled e of
                       None \<Rightarrow> None
                     | Some pf \<Rightarrow> if \<not> EqualFold (pf_AssetID pf) idHash then None else Some (e, pf)))))"

definition attachLastOnChain :: "keccak256 \<Rightarrow> API \<Rightarrow> Asset \<Rightarrow> AssetSummary \<Rightarrow> AssetSummary" where
  "attachLastOnChain keccak a asset summary =
     (case latestOnChainRound keccak a (a_ID asset) of
        None \<Rightarrow> summary
      | Some (ev, pf) \<Rightarrow>
          summary\<lparr>as_LastOnChainPrice := pf_Price pf, as_LastOnChainTx := em_TxHash (e_Meta ev),
                  as_LastOnChainAt := Some (em_ObservedAt (e_Meta ev))\<rparr>)"

subsection \<open>Assets\<close>

definition with_address :: "Registry \<Rightarrow> Asset \<Rightarrow> Asset" where
  "with_address reg asset =
     (case registry_Aggregator reg (a_ID asset) of
        None \<Rightarrow> asset
      | Some addr \<Rightarrow> asset\<lparr>a_AggregatorAddress := addr\<rparr>)"

definition asset_summary :: "keccak256 \<Rightarrow> API \<Rightarrow> Asset \<Rightarrow> AssetSummary" where
  "asset_summary keccak a asset =
     (let summary =
            \<lparr>as_Asset = with_address (api_Registry a) asset, as_LatestPrice = None,
             as_LastOnChainPrice = '''', as_LastOnChainAt = None, as_LastOnChainTx = ''''\<rparr>;
          summary =
            (case price_GetPrice (api_Price a) (a_ID asset) of
               Inr price \<Rightarrow> summary\<lparr>as_LatestPrice := Some price\<rparr>
             | Inl err \<Rightarrow> summary)
      in attachLastOnChain keccak a asset summary)"

definition ListAssets :: "keccak256 \<Rightarrow> API \<Rightarrow> Request \<Rightarrow> Response \<Rightarrow> Response" where
  "ListAssets keccak a r w =
     writeJSON 200
       (json_map [(''assets'', JArr (map (\<lambda>asset. json_asset_summary (asset_summary keccak a asset)) AssetCatalog))]) w"

definition price_detail :: "keccak256 \<Rightarrow> API \<Rightarrow> string \<Rightarrow> Asset \<Rightarrow> AggregatedPrice \<Rightarrow> PriceDetail" where
  "price_detail keccak a assetID asset price =
     (let detail =
            \<lparr>pd_Asset = asset, pd_AggregatedPrice = price, pd_LastOnChainPrice = '''', pd_LastOnChainAt = None,
             pd_LastOnChainTx = '''', pd_LastRoundID = '''', pd_Sources = ap_Sources price\<rparr>;
          detail =
            (case registry_Aggregator (api_Registry a) assetID of
               None \<Rightarrow> detail
             | Some addr \<Rightarrow> detail\<lparr>pd_Asset := (pd_Asset detail)\<lparr>a_AggregatorAddress := addr\<rparr>\<rparr>)
      in case latestOnChainRound keccak a assetID of
           None \<Rightarrow> detail
         | Some (ev, pf) \<Rightarrow>
             detail\<lparr>pd_LastOnChainPrice := pf_Price pf, pd_LastRoundID := pf_RoundID pf,
                    pd_LastOnChainTx := em_TxHash (e_Meta ev),
                    pd_LastOnChainAt := Some (em_ObservedAt (e_Meta ev))\<rparr>)"

definition GetAssetPrice :: "keccak256 \<Rightarrow> API \<Rightarrow> Request \<Rightarrow> Response \<Rightarrow> Response" where
  "GetAssetPrice keccak a r w =
     (let assetID = NormaliseAssetID (URLParam r ''id'') in
      case FindAsset assetID of
        None \<Rightarrow> writeError 404 ''asset_not_tracked'' ''asset is not tracked'' w
      | Some asset \<Rightarrow>
          (case price_GetPrice (api_Price a) assetID of
             Inl err \<Rightarrow>
               (if errors_Is err Price_ErrNotFound
                then writeError 404 ''no_price'' ''no aggregated price for this asset yet'' w
                else writeError 502 ''upstream_unavailable'' ''price-service unreachable'' w)
           | Inr price \<Rightarrow> writeJSON 200 (json_price_detail (price_detail keccak a assetID asset price)) w))"

subsection \<open>Requests\<close>

definition isDecimal :: "string \<Rightarrow> bool" where
  "isDecimal s = (if s = '''' then False else list_all (\<lambda>c. \<not> (byte_val c < 48 \<or> byte_val c > 57)) s)"

definition GetRequest :: "API \<Rightarrow> Request \<Rightarrow> Response \<Rightarrow> Response" where
  "GetRequest a r w =
     (let reqID = TrimSpace (URLParam r ''reqId'') in
      if reqID = '''' then writeError 400 ''invalid_req_id'' ''req_id is required'' w
      else if \<not> isDecimal reqID then writeError 400 ''invalid_req_id'' ''req_id must be a base-10 uint256'' w
      else case indexer_GetRequest (api_Indexer a) reqID of
        Inl err \<Rightarrow>
          (if errors_Is err Indexer_ErrNotFound
           then writeError 404 ''request_not_found'' ''request not observed by indexer'' w
           else writeError 502 ''upstream_unavailable'' ''indexer-service unreachable'' w)
      | Inr summary \<Rightarrow> writeJSON 200 (json_request summary) w)"

subsection \<open>Submissions\<close>

definition defaultSubmissionsPageSize :: i32 where "defaultSubmissionsPageSize = 25"
definition maxSubmissionsPageSize :: i32 where "maxSubmissionsPageSize = 100"
definition maxPageNumber :: i32 where "maxPageNumber = push_bit 20 1"

definition parsePositivePageParam :: "string \<Rightarrow> i32 \<Rightarrow> i32" where
  "parsePositivePageParam s dflt =
     (if s = '''' then dflt
      else case Atoi s of
        None \<Rightarrow> dflt
      | Some n \<Rightarrow>
          if n < 1 then dflt
          else if n > sint maxPageNumber then maxPageNumber
          else word_of_int n)"

definition submissions_page :: "Request \<Rightarrow> Page" where
  "submissions_page r =
     (let page = parsePositivePageParam (query_Get r ''page'') 1;
          pageSize = parsePositivePageParam (query_Get r ''page_size'') defaultSubmissionsPageSize
      in \<lparr>pg_Number = page,
          pg_Size = (if sint pageSize > sint maxSubmissionsPageSize then maxSubmissionsPageSize else pageSize)\<rparr>)"

definition json_submissions :: "SubmissionStatus list \<Rightarrow> PageInfo \<Rightarrow> json" where
  "json_submissions subs pageInfo =
     json_map
       [(''submissions'', JArr (map json_submission subs)),
        (''page'', json_map
           [(''number'', JInt (sint (pi_Number pageInfo))), (''size'', JInt (sint (pi_Size pageInfo))),
            (''total_items'', JInt (sint (pi_TotalItems pageInfo))),
            (''total_pages'', JInt (sint (pi_TotalPages pageInfo)))])]"

definition ListSubmissions :: "API \<Rightarrow> Request \<Rightarrow> Response \<Rightarrow> Response" where
  "ListSubmissions a r w =
     (let assetID = NormaliseAssetID (query_Get r ''asset_id'') in
      if assetID \<noteq> '''' \<and> FindAsset assetID = None
      then writeError 400 ''asset_not_tracked'' ''asset_id filter is not a tracked asset'' w
      else case oracle_ListSubmissions (api_Oracle a) \<lparr>lsf_AssetID = assetID, lsf_Page = submissions_page r\<rparr> of
        Inl err \<Rightarrow> writeError 502 ''upstream_unavailable'' ''oracle-service unreachable'' w
      | Inr (subs, pageInfo) \<Rightarrow> writeJSON 200 (json_submissions subs pageInfo) w)"

definition isTxHash :: "string \<Rightarrow> bool" where
  "isTxHash s =
     (if length s \<noteq> 66 \<or> (take 2 s \<noteq> ''0x'' \<and> take 2 s \<noteq> ''0X'') then False
      else list_all (\<lambda>c. \<not> ((byte_val c < 48 \<or> byte_val c > 57) \<and> (byte_val c < 97 \<or> byte_val c > 102)
                             \<and> (byte_val c < 65 \<or> byte_val c > 70))) (drop 2 s))"

definition submission_answer :: "SubmissionStatus go_result \<Rightarrow> Response \<Rightarrow> Response" where
  "submission_answer res w =
     (case res of
        Inl err \<Rightarrow>
          (if errors_Is err Oracle_ErrNotFound
           then writeError 404 ''submission_not_found'' ''no submission for that id'' w
           else if errors_Is err Oracle_ErrInvalidArgument
           then writeError 400 ''invalid_submission_id'' ''oracle rejected the lookup key'' w
           else writeError 502 ''upstream_unavailable'' ''oracle-service unreachable'' w)
      | Inr sub \<Rightarrow> writeJSON 200 (json_submission sub) w)"

definition GetSubmission :: "API \<Rightarrow> Request \<Rightarrow> Response \<Rightarrow> Response" where
  "GetSubmission a r w =
     (let i = TrimSpace (URLParam r ''id'') in
      if isTxHash i then submission_answer (GetSubmissionByTxHash (api_Oracle a) (ToLower i)) w
      else if isDecimal i \<and> i \<noteq> ''0'' then submission_answer (GetSubmissionByReqID (api_Oracle a) i) w
      else writeError 400 ''invalid_submission_id''
             ''id must be a base-10 req_id (non-zero) or a 0x-prefixed 32-byte tx hash'' w)"

subsection \<open>Upstream answers\<close>

text \<open>A unary gRPC call returns a message or a status error, as the gRPC runtime documents.\<close>

definition grpc_call :: "'a go_result \<Rightarrow> bool" where
  "grpc_call res = (case res of Inr _ \<Rightarrow> True | Inl (ErrStatus _ _) \<Rightarrow> True | Inl _ \<Rightarrow> False)"

definition failed_with :: "'a go_result \<Rightarrow> grpc_code \<Rightarrow> bool" where
  "failed_with res c = (case res of Inl (ErrStatus d _) \<Rightarrow> d = c | _ \<Rightarrow> False)"

lemma grpc_call_cases:
  assumes "grpc_call res"
  obtains (ok) v where "res = Inr v" | (err) c m where "res = Inl (ErrStatus c m)"
  using assms by (auto simp: grpc_call_def split: sum.splits go_error.splits)

lemma price_GetPrice_grpc:
  assumes "grpc_call (ps_GetPrice c i)"
  shows "price_GetPrice c i =
    (case ps_GetPrice c i of
       Inr resp \<Rightarrow> Inr (AggregatedPriceFromProto resp)
     | Inl e \<Rightarrow> Inl (if failed_with (ps_GetPrice c i) C_NotFound then ErrSentinel Price_ErrNotFound
                     else ErrWrap (''price.GetPrice('' @ i @ '')'') e))"
  using assms
  by (rule grpc_call_cases)
    (auto simp: price_lookup.lookup_ok price_lookup.lookup_err notfound_only_def failed_with_def)

lemma not_Is_status: "res = Inl (ErrStatus c m) \<Longrightarrow> \<not> errors_Is (ErrWrap what (ErrStatus c m)) s"
  by simp

subsection \<open>The last round belongs to the asset\<close>

lemma plain_lower: "plain_byte (lower_byte c) \<longleftrightarrow> plain_byte c"
  by (auto simp: plain_byte_def lower_byte_def is_upper_byte_def)

lemma TrimSpace_fold:
  assumes "EqualFold s t" and "t = [] \<or> plain_byte (hd t) \<and> plain_byte (last t)"
  shows "TrimSpace s = s"
proof (rule TrimSpace_plain)
  have eq: "ToLower s = ToLower t" using assms(1) by (simp add: EqualFold_def)
  show "s = [] \<or> plain_byte (hd s) \<and> plain_byte (last s)"
  proof (cases "s = []")
    case False
    then have "t \<noteq> []" using eq by (metis ToLower_eq_Nil)
    have "lower_byte (hd s) = lower_byte (hd t)" "lower_byte (last s) = lower_byte (last t)"
      using arg_cong [OF eq, of hd] arg_cong [OF eq, of last] False \<open>t \<noteq> []\<close>
      by (simp_all add: ToLower_def hd_map last_map)
    then show ?thesis using assms(2) \<open>t \<noteq> []\<close> by (metis plain_lower)
  qed simp
qed

lemma asset_hash_ends:
  assumes "keccak_contract keccak"
  shows "plain_byte (hd (asset_hash keccak a)) \<and> plain_byte (last (asset_hash keccak a))"
proof -
  let ?e = "EncodeToString (keccak (ToUpper (a_Symbol a)))"
  have "?e \<noteq> []" using assms by (auto simp: keccak_contract_def simp flip: length_greater_0_conv)
  moreover from this have "plain_byte (last ?e)"
    using EncodeToString_plain [of "keccak (ToUpper (a_Symbol a))"] by (simp add: list_all_iff)
  ultimately show ?thesis by (simp add: asset_hash_def plain_byte_def byte_val_def)
qed

lemma latestOnChainRound_Some:
  assumes "keccak_contract keccak" and "latestOnChainRound keccak a i = Some (e, pf)"
  shows "\<exists>asset. FindAsset i = Some asset \<and> AssetByIDHash keccak (pf_AssetID pf) = Some asset
    \<and> e_PriceFulfilled e = Some pf"
proof -
  obtain asset where asset: "FindAsset i = Some asset" and fold: "EqualFold (pf_AssetID pf) (asset_hash keccak asset)"
      and pf: "e_PriceFulfilled e = Some pf"
    using assms(2)
    by (auto simp: latestOnChainRound_def AssetIDHash_eq split: option.splits sum.splits list.splits if_splits)
  have "TrimSpace (pf_AssetID pf) = pf_AssetID pf"
    using TrimSpace_fold [OF fold] asset_hash_ends [OF assms(1)] by blast
  moreover have "ToLower (pf_AssetID pf) = asset_hash keccak asset"
    using fold by (simp add: EqualFold_def asset_hash_lower)
  ultimately have "AssetByIDHash keccak (pf_AssetID pf) = Some asset"
    using asset by (simp add: AssetByIDHash_Some_iff [OF assms(1)] FindAsset_Some_iff)
  with asset pf show ?thesis by blast
qed

subsection \<open>Validation facts\<close>

lemma isDecimal_iff: "isDecimal s \<longleftrightarrow> s \<noteq> '''' \<and> list_all is_digit_byte s"
  by (auto simp: isDecimal_def is_digit_byte_def list_all_iff not_less)

lemma isTxHash_not_decimal: "isTxHash s \<Longrightarrow> \<not> isDecimal s"
proof -
  assume h: "isTxHash s"
  then obtain c d cs where s: "s = c # d # cs"
    by (cases s; cases "tl s") (auto simp: isTxHash_def split: if_splits)
  have "d \<in> {CHR ''x'', CHR ''X''}" using h by (auto simp: isTxHash_def s split: if_splits)
  then show ?thesis by (auto simp: isDecimal_iff s is_digit_byte_def byte_val_def)
qed

lemma parsePositivePageParam_Itoa:
  assumes "in_int64 n" "1 \<le> n" "n \<le> 2 ^ 20"
  shows "parsePositivePageParam (Itoa n) dflt = word_of_int n"
proof -
  have "Itoa n \<noteq> ''''" using assms(2) by (simp add: Itoa_def)
  moreover have "sint maxPageNumber = 2 ^ 20" by (simp add: maxPageNumber_def)
  ultimately show ?thesis using assms by (simp add: parsePositivePageParam_def Atoi_Itoa)
qed

lemma sint_i32: "0 \<le> n \<Longrightarrow> n \<le> 2 ^ 20 \<Longrightarrow> sint (word_of_int n :: i32) = n"
  by (simp add: sint_sbintrunc' signed_take_bit_int_eq_self)

lemma parsePositivePageParam_range:
  assumes "1 \<le> sint dflt" "sint dflt \<le> 2 ^ 20"
  shows "1 \<le> sint (parsePositivePageParam s dflt) \<and> sint (parsePositivePageParam s dflt) \<le> 2 ^ 20"
proof -
  have "sint maxPageNumber = 2 ^ 20" by (simp add: maxPageNumber_def)
  then show ?thesis
    using assms by (auto simp: parsePositivePageParam_def sint_i32 split: option.split)
qed

subsection \<open>Answers\<close>

text \<open>A response with this status and exactly this JSON body, or no body when it cannot be encoded.\<close>

definition answers :: "Response \<Rightarrow> int \<Rightarrow> json \<Rightarrow> bool" where
  "answers w status j \<longleftrightarrow> sent_status w = status \<and> w_Body w = (if json_ok j then [BJson j] else [])
     \<and> sent_header w ''Content-Type'' = ''application/json; charset=utf-8''"

lemma canon_content_type: "CanonicalHeaderKey ''Content-Type'' = ''Content-Type''"
  by code_simp

lemma answers_writeJSON [simp]: "fresh_writer w \<Longrightarrow> answers (writeJSON status j w) status j"
  by (simp add: answers_def writeJSON_fresh canon_content_type)

lemma answers_writeError [simp]: "fresh_writer w \<Longrightarrow> answers (writeError status c m w) status (json_error c m)"
  by (simp add: writeError_def)

lemma GetAssetPrice_asset:
  assumes "grpc_call (ps_GetPrice (api_Price a) (ToLower i))" "FindAsset i = Some asset" "URLParam r ''id'' = i"
  shows "GetAssetPrice keccak a r w =
    (case ps_GetPrice (api_Price a) (a_ID asset) of
       Inr p \<Rightarrow> writeJSON 200 (json_price_detail (price_detail keccak a (a_ID asset) asset (AggregatedPriceFromProto p))) w
     | Inl e \<Rightarrow> if failed_with (ps_GetPrice (api_Price a) (a_ID asset)) C_NotFound
               then writeError 404 ''no_price'' ''no aggregated price for this asset yet'' w
               else writeError 502 ''upstream_unavailable'' ''price-service unreachable'' w)"
proof -
  have i: "ToLower i = a_ID asset" using assms(2) by (simp add: FindAsset_Some_iff)
  with assms(1) have g: "grpc_call (ps_GetPrice (api_Price a) (a_ID asset))" by simp
  have "FindAsset (a_ID asset) = Some asset" using assms(2) FindAsset_lower [of i] by (simp add: i)
  with g show ?thesis
    using assms(3) i price_GetPrice_grpc [OF g]
    by (cases rule: grpc_call_cases) (auto simp: GetAssetPrice_def Let_def failed_with_def)
qed

lemma indexer_GetRequest_grpc:
  assumes "grpc_call (is_GetRequest c i)"
  shows "indexer_GetRequest c i =
    (case is_GetRequest c i of
       Inr resp \<Rightarrow> Inr (RequestSummaryFromProto resp)
     | Inl e \<Rightarrow> Inl (if failed_with (is_GetRequest c i) C_NotFound then ErrSentinel Indexer_ErrNotFound
                     else ErrWrap (''indexer.GetRequest('' @ i @ '')'') e))"
  using assms
  by (rule grpc_call_cases)
    (auto simp: request_lookup.lookup_ok request_lookup.lookup_err notfound_only_def failed_with_def)

lemma submission_answer_grpc:
  assumes "grpc_call (os_GetSubmissionStatus c q)"
  shows "submission_answer (getSubmission c q) w =
    (case os_GetSubmissionStatus c q of
       Inr resp \<Rightarrow> writeJSON 200 (json_submission (SubmissionStatusFromProto resp)) w
     | Inl e \<Rightarrow>
         if failed_with (os_GetSubmissionStatus c q) C_NotFound
         then writeError 404 ''submission_not_found'' ''no submission for that id'' w
         else if failed_with (os_GetSubmissionStatus c q) C_InvalidArgument
         then writeError 400 ''invalid_submission_id'' ''oracle rejected the lookup key'' w
         else writeError 502 ''upstream_unavailable'' ''oracle-service unreachable'' w)"
  using assms
  by (rule grpc_call_cases)
    (auto simp: submission_lookup.lookup_ok submission_lookup.lookup_err oracle_handled_def failed_with_def
      submission_answer_def)

text \<open>The message the oracle service gets for an id.\<close>

definition submission_query :: "string \<Rightarrow> pb_GetSubmissionStatusRequest" where
  "submission_query i =
     (if isTxHash i then \<lparr>gsr_req_id = '''', gsr_tx_hash = ToLower i\<rparr> else \<lparr>gsr_req_id = i, gsr_tx_hash = ''''\<rparr>)"

lemma GetSubmission_query:
  "GetSubmission a r w =
    (let i = TrimSpace (URLParam r ''id'') in
     if \<not> isTxHash i \<and> (\<not> isDecimal i \<or> i = ''0'')
     then writeError 400 ''invalid_submission_id''
            ''id must be a base-10 req_id (non-zero) or a 0x-prefixed 32-byte tx hash'' w
     else submission_answer (getSubmission (api_Oracle a) (submission_query i)) w)"
  by (simp add: GetSubmission_def Let_def GetSubmissionByTxHash_def GetSubmissionByReqID_def submission_query_def)

subsection \<open>Tiles\<close>

definition tile_ok :: "AssetSummary \<Rightarrow> bool" where
  "tile_ok t \<longleftrightarrow> (case as_LatestPrice t of None \<Rightarrow> True | Some p \<Rightarrow> price_ok p)
     \<and> (case as_LastOnChainAt t of None \<Rightarrow> True | Some x \<Rightarrow> year_4digits x)"

lemma json_ok_tile: "json_ok (json_asset_summary t) \<longleftrightarrow> tile_ok t"
  by (simp add: json_asset_summary_def tile_ok_def split: option.split)

lemma json_ok_tiles:
  "json_ok (json_map [(''assets'', JArr (map (\<lambda>x. json_asset_summary (f x)) xs))]) \<longleftrightarrow> list_all (\<lambda>x. tile_ok (f x)) xs"
  by (simp add: list.pred_map comp_def json_ok_tile)

lemma asset_summary_fields:
  "as_Asset (asset_summary keccak a asset) = with_address (api_Registry a) asset"
  "as_LatestPrice (asset_summary keccak a asset) =
     (case price_GetPrice (api_Price a) (a_ID asset) of Inr p \<Rightarrow> Some p | Inl _ \<Rightarrow> None)"
  "latestOnChainRound keccak a (a_ID asset) = None \<Longrightarrow>
     as_LastOnChainPrice (asset_summary keccak a asset) = '''' \<and> as_LastOnChainTx (asset_summary keccak a asset) = ''''
     \<and> as_LastOnChainAt (asset_summary keccak a asset) = None"
  "latestOnChainRound keccak a (a_ID asset) = Some (e, pf) \<Longrightarrow>
     as_LastOnChainPrice (asset_summary keccak a asset) = pf_Price pf
     \<and> as_LastOnChainTx (asset_summary keccak a asset) = em_TxHash (e_Meta e)
     \<and> as_LastOnChainAt (asset_summary keccak a asset) = Some (em_ObservedAt (e_Meta e))"
  by (simp_all add: asset_summary_def attachLastOnChain_def Let_def split: option.split sum.split)

lemma with_address_fields:
  "a_ID (with_address reg asset) = a_ID asset"
  "a_AggregatorAddress (with_address reg asset) =
     (case registry_Aggregator reg (a_ID asset) of None \<Rightarrow> a_AggregatorAddress asset | Some x \<Rightarrow> x)"
  by (simp_all add: with_address_def split: option.split)

subsection \<open>A concrete upstream\<close>

text \<open>
  Services with one price, no requests and no submissions, for the examples below: \<open>weth\<close> is known,
  every other asset, request and submission is not found, and the event history is empty.
\<close>

definition sample_price :: "float64 \<Rightarrow> pb_AggregatedPrice" where
  "sample_price x = \<lparr>pap_asset_id = ''weth'', pap_median_price = x, pap_aggregated_at = None, pap_sources = []\<rparr>"

definition sample_api :: "float64 \<Rightarrow> API" where
  "sample_api x =
     \<lparr>api_Price = \<lparr>ps_GetPrice = (\<lambda>i. if i = ''weth'' then Inr (Some (sample_price x))
                                      else Inl (ErrStatus C_NotFound ''no price'')),
                   ps_Subscribe = (\<lambda>_. Inr [])\<rparr>,
      api_Indexer = \<lparr>is_ListEvents = (\<lambda>_. Inr ([], None)),
                     is_GetRequest = (\<lambda>_. Inl (ErrStatus C_NotFound ''unknown'')),
                     is_StreamEvents = (\<lambda>_. Inr [])\<rparr>,
      api_Oracle = \<lparr>os_GetSubmissionStatus = (\<lambda>_. Inl (ErrStatus C_NotFound ''unknown'')),
                    os_ListSubmissions = (\<lambda>_. Inr ([], None))\<rparr>,
      api_Registry = registry_New,
      api_Author = \<lparr>author_Name = ''a'', author_Links = []\<rparr>,
      api_Version = ''v'', api_ServiceID = ''evm-oracle-demo-api''\<rparr>"

definition sample_request :: "(string \<times> string) list \<Rightarrow> (string \<times> string) list \<Rightarrow> Request" where
  "sample_request params query =
     \<lparr>q_Method = ''GET'', q_Path = ''/'', q_RemoteAddr = ''203.0.113.7:4711'', q_Header = Map.empty,
      q_Query = query, q_Params = params, q_RequestID = None\<rparr>"

lemma URLParam_sample [simp]: "URLParam (sample_request [(k, v)] query) k = v"
  by (simp add: URLParam_def sample_request_def lookup_or_empty_def)

lemma fresh_new_Response [simp]: "fresh_writer new_Response"
  by (simp add: fresh_writer_def new_Response_def)

subsection \<open>Properties\<close>

text \<open>
  Property C23. \<open>GET /assets/{id}/price\<close> answers every case as documented: an untracked id is a 404
  without asking upstream; otherwise the price service is asked for the canonical id, \<open>NotFound\<close> is a
  404, any other status a 502, and a price is a 200 whose body is the joined detail.
\<close>

theorem GetAssetPrice_answers:
  assumes "grpc_call (ps_GetPrice (api_Price a) (ToLower (URLParam r ''id'')))" and "fresh_writer w"
  shows "case FindAsset (URLParam r ''id'') of
      None \<Rightarrow> answers (GetAssetPrice keccak a r w) 404 (json_error ''asset_not_tracked'' ''asset is not tracked'')
    | Some asset \<Rightarrow>
        (case ps_GetPrice (api_Price a) (a_ID asset) of
           Inr p \<Rightarrow> answers (GetAssetPrice keccak a r w) 200
             (json_price_detail (price_detail keccak a (a_ID asset) asset (AggregatedPriceFromProto p)))
         | Inl e \<Rightarrow>
             if failed_with (ps_GetPrice (api_Price a) (a_ID asset)) C_NotFound
             then answers (GetAssetPrice keccak a r w) 404 (json_error ''no_price'' ''no aggregated price for this asset yet'')
             else answers (GetAssetPrice keccak a r w) 502 (json_error ''upstream_unavailable'' ''price-service unreachable''))"
proof (cases "FindAsset (URLParam r ''id'')")
  case None
  then show ?thesis using assms(2) by (simp add: GetAssetPrice_def Let_def)
next
  case (Some asset)
  then show ?thesis
    using GetAssetPrice_asset [OF assms(1) Some refl, of keccak w] assms(2) by (simp split: sum.split)
qed

theorem GetAssetPrice_answers_witness:
  "answers (GetAssetPrice pad32 (sample_api 0) (sample_request [(''id'', ''LINK'')] []) new_Response)
     404 (json_error ''no_price'' ''no aggregated price for this asset yet'')"
proof -
  have "FindAsset ''LINK'' = Some (mk_asset ''link'' ''LINK'' ''Chainlink'' AssetClassCrypto)" by code_simp
  moreover have "ToLower ''LINK'' = ''link''" by code_simp
  ultimately show ?thesis
    using GetAssetPrice_answers [of "sample_api 0" "sample_request [(''id'', ''LINK'')] []" new_Response pad32]
    by (simp add: sample_api_def grpc_call_def failed_with_def mk_asset_def)
qed

text \<open>
  \<open>GET /requests/{reqId}\<close>: an id that is empty or not all digits after trimming is a
  400 without asking upstream; otherwise the indexer is asked for the trimmed id and its answer is a
  200 with the converted request, a 404 for \<open>NotFound\<close> or a 502 for any other status.
\<close>

theorem GetRequest_answers:
  assumes "grpc_call (is_GetRequest (api_Indexer a) (TrimSpace (URLParam r ''reqId'')))" and "fresh_writer w"
  shows "let i = TrimSpace (URLParam r ''reqId''); resp = GetRequest a r w in
    if i = '''' then answers resp 400 (json_error ''invalid_req_id'' ''req_id is required'')
    else if \<not> list_all is_digit_byte i
    then answers resp 400 (json_error ''invalid_req_id'' ''req_id must be a base-10 uint256'')
    else case is_GetRequest (api_Indexer a) i of
        Inr q \<Rightarrow> answers resp 200 (json_request (RequestSummaryFromProto q))
      | Inl e \<Rightarrow>
          if failed_with (is_GetRequest (api_Indexer a) i) C_NotFound
          then answers resp 404 (json_error ''request_not_found'' ''request not observed by indexer'')
          else answers resp 502 (json_error ''upstream_unavailable'' ''indexer-service unreachable'')"
  using assms indexer_GetRequest_grpc [OF assms(1)]
  by (cases rule: grpc_call_cases) (simp_all add: GetRequest_def Let_def isDecimal_iff failed_with_def)

theorem GetRequest_answers_witness:
  "answers (GetRequest (sample_api 0) (sample_request [(''reqId'', '' 42 '')] []) new_Response)
     404 (json_error ''request_not_found'' ''request not observed by indexer'')"
proof -
  have "TrimSpace '' 42 '' = ''42''" and "list_all is_digit_byte ''42''" by code_simp+
  then show ?thesis
    using GetRequest_answers [of "sample_api 0" "sample_request [(''reqId'', '' 42 '')] []" new_Response]
    by (simp add: sample_api_def grpc_call_def failed_with_def)
qed

text \<open>
  Property C24. \<open>GET /submissions/{id}\<close> dispatches by the shape of the trimmed id, and the two shapes
  exclude each other: a 32-byte hash asks by lowercased transaction hash only, a decimal other than
  \<open>0\<close> by request id only, anything else is a 400 that never reaches the oracle service. The
  service's answer becomes 200, 404, 400 or 502.
\<close>

theorem GetSubmission_answers:
  assumes "grpc_call (os_GetSubmissionStatus (api_Oracle a) (submission_query (TrimSpace (URLParam r ''id''))))"
    and "fresh_writer w"
  shows "let i = TrimSpace (URLParam r ''id''); resp = GetSubmission a r w;
      res = os_GetSubmissionStatus (api_Oracle a) (submission_query i)
    in \<not> (isTxHash i \<and> isDecimal i) \<and>
    (if \<not> isTxHash i \<and> (\<not> isDecimal i \<or> i = ''0'')
     then answers resp 400 (json_error ''invalid_submission_id''
            ''id must be a base-10 req_id (non-zero) or a 0x-prefixed 32-byte tx hash'')
     else case res of
         Inr sub \<Rightarrow> answers resp 200 (json_submission (SubmissionStatusFromProto sub))
       | Inl e \<Rightarrow>
           if failed_with res C_NotFound
           then answers resp 404 (json_error ''submission_not_found'' ''no submission for that id'')
           else if failed_with res C_InvalidArgument
           then answers resp 400 (json_error ''invalid_submission_id'' ''oracle rejected the lookup key'')
           else answers resp 502 (json_error ''upstream_unavailable'' ''oracle-service unreachable''))"
proof -
  define i where "i = TrimSpace (URLParam r ''id'')"
  have excl: "\<not> (isTxHash i \<and> isDecimal i)" using isTxHash_not_decimal by blast
  note query = GetSubmission_query [of a r w, folded i_def, unfolded Let_def]
  note answer = submission_answer_grpc [OF assms(1), folded i_def]
  show ?thesis
  proof (cases "\<not> isTxHash i \<and> (\<not> isDecimal i \<or> i = ''0'')")
    case True
    with excl show ?thesis by (simp only: Let_def query if_True flip: i_def) (simp add: assms(2))
  next
    case False
    with excl show ?thesis
      using assms(2) by (simp only: Let_def query if_False answer flip: i_def) (simp split: sum.split)
  qed
qed

theorem GetSubmission_answers_witness:
  "answers (GetSubmission (sample_api 0) (sample_request [(''id'', ''7'')] []) new_Response)
     404 (json_error ''submission_not_found'' ''no submission for that id'')"
proof -
  have "TrimSpace ''7'' = ''7''" and "\<not> isTxHash ''7''" and "isDecimal ''7''" by code_simp+
  then show ?thesis
    using GetSubmission_answers [of "sample_api 0" "sample_request [(''id'', ''7'')] []" new_Response]
    by (simp add: sample_api_def grpc_call_def failed_with_def)
qed


text \<open>
  \<open>GET /submissions\<close> asks the oracle service once, with the canonical asset filter and
  the bounded page, and returns its rows and page information; an untracked filter is a 400 that
  never reaches the service, and a failed call a 502.
\<close>

theorem ListSubmissions_answers:
  assumes "fresh_writer w"
  shows "let f = ToLower (query_Get r ''asset_id''); p = submissions_page r;
      resp = ListSubmissions a r w
    in
    if f \<noteq> '''' \<and> f \<notin> set AssetIDs
    then answers resp 400 (json_error ''asset_not_tracked'' ''asset_id filter is not a tracked asset'')
    else case os_ListSubmissions (api_Oracle a) \<lparr>lsr_asset_id = f, lsr_page = (pg_Number p, pg_Size p)\<rparr> of
        Inl e \<Rightarrow> answers resp 502 (json_error ''upstream_unavailable'' ''oracle-service unreachable'')
      | Inr (subs, page) \<Rightarrow>
          answers resp 200 (json_submissions (map SubmissionStatusFromProto subs) (pageInfoFromProto page))"
  using assms
  by (auto simp: ListSubmissions_def Let_def FindAsset_None_iff oracle_ListSubmissions_def split: sum.split)

theorem ListSubmissions_answers_witness:
  "answers (ListSubmissions (sample_api 0) (sample_request [] [(''asset_id'', ''DOGE'')]) new_Response)
     400 (json_error ''asset_not_tracked'' ''asset_id filter is not a tracked asset'')"
proof -
  have "ToLower (query_Get (sample_request [] [(''asset_id'', ''DOGE'')]) ''asset_id'') = ''doge''" by code_simp
  moreover have "''doge'' \<notin> set AssetIDs" by code_simp
  ultimately show ?thesis
    using ListSubmissions_answers [OF fresh_new_Response, of "sample_request [] [(''asset_id'', ''DOGE'')]" "sample_api 0"]
    by (simp add: Let_def)
qed




text \<open>
  \<open>GET /assets\<close> survives a complete outage of the price and indexer services: whatever
  errors they return, the answer is a 200 with all tracked assets in catalog order, each with the
  address the registry knows.
\<close>

theorem ListAssets_outage:
  assumes "fresh_writer w" and "\<And>i. ps_GetPrice (api_Price a) i = Inl (perr i)"
    and "\<And>q. is_ListEvents (api_Indexer a) q = Inl (ierr q)"
  shows "answers (ListAssets keccak a r w) 200
      (JObj [(''assets'', JArr (map (\<lambda>x. JObj (asset_fields (with_address (api_Registry a) x))) AssetCatalog))])
    \<and> w_Body (ListAssets keccak a r w) \<noteq> []"
proof -
  have err: "\<exists>e. price_GetPrice (api_Price a) i = Inl e" for i
    using assms(2) by (simp add: price_GetPrice_def)
  have none: "latestOnChainRound keccak a i = None" for i
    by (simp add: latestOnChainRound_def indexer_ListEvents_def assms(3) split: option.split)
  have tile: "json_asset_summary (asset_summary keccak a x) = JObj (asset_fields (with_address (api_Registry a) x))" for x
    using err [of "a_ID x"] asset_summary_fields(1,2) [of keccak a x] asset_summary_fields(3) [OF none]
    by (auto simp: json_asset_summary_def omit_str_def omit_ptr_def)
  have "json_ok (JObj [(''assets'', JArr (map (\<lambda>x. JObj (asset_fields (with_address (api_Registry a) x))) AssetCatalog))])"
    by (simp add: list.pred_map comp_def list_all_iff [of _ AssetCatalog])
  moreover have "ListAssets keccak a r w = writeJSON 200
      (JObj [(''assets'', JArr (map (\<lambda>x. JObj (asset_fields (with_address (api_Registry a) x))) AssetCatalog))]) w"
    by (simp add: ListAssets_def tile json_map_def)
  ultimately show ?thesis using assms(1) by (simp add: writeJSON_fresh)
qed

theorem ListAssets_outage_witness:
  "w_Body (ListAssets pad32
     ((sample_api 0)\<lparr>api_Price := \<lparr>ps_GetPrice = (\<lambda>_. Inl (ErrStatus C_Unavailable ''down'')), ps_Subscribe = (\<lambda>_. Inr [])\<rparr>,
        api_Indexer := \<lparr>is_ListEvents = (\<lambda>_. Inl (ErrStatus C_Unavailable ''down'')),
          is_GetRequest = (\<lambda>_. Inl (ErrStatus C_Unavailable ''down'')), is_StreamEvents = (\<lambda>_. Inr [])\<rparr>\<rparr>)
     (sample_request [] []) new_Response) \<noteq> []"
  by (rule ListAssets_outage [where perr = "\<lambda>_. ErrStatus C_Unavailable ''down''"
        and ierr = "\<lambda>_. ErrStatus C_Unavailable ''down''", THEN conjunct2, OF fresh_new_Response])
    simp_all

text \<open>
  Property C35. One price that JSON cannot carry takes the whole list down: \<open>GET /assets\<close> has its full
  body exactly when every tile can be encoded, and otherwise it is a 200 with an empty body. With an
  infinite price for a single asset that is what a client gets, and the detail endpoint of that
  asset too.
\<close>

theorem ListAssets_all_or_nothing:
  "sent_status (ListAssets keccak a r new_Response) = 200
   \<and> (w_Body (ListAssets keccak a r new_Response) = [] \<longleftrightarrow>
        list_ex (\<lambda>x. \<not> tile_ok (asset_summary keccak a x)) AssetCatalog)
   \<and> w_Body (ListAssets keccak (sample_api 0x7FF0000000000000) r new_Response) = []"
proof -
  have body: "w_Body (ListAssets keccak b r new_Response) = [] \<longleftrightarrow>
      list_ex (\<lambda>x. \<not> tile_ok (asset_summary keccak b x)) AssetCatalog" for b
    by (simp only: ListAssets_def writeJSON_fresh [OF fresh_new_Response] json_ok_tiles) (simp add: list_all_iff list_ex_iff)
  have "\<not> tile_ok (asset_summary keccak (sample_api 0x7FF0000000000000) (hd AssetCatalog))"
    by (simp add: tile_ok_def asset_summary_fields(2) sample_api_def price_GetPrice_def AssetCatalog_def mk_asset_def
        AggregatedPriceFromProto_def sample_price_def price_ok_def float_finite_def)
  then have "list_ex (\<lambda>x. \<not> tile_ok (asset_summary keccak (sample_api 0x7FF0000000000000) x)) AssetCatalog"
    by (auto simp: list_ex_iff AssetCatalog_def)
  with body show ?thesis by (simp add: ListAssets_def writeJSON_fresh)
qed

end
