(* ===== verification/Go_Net.thy ===== *)
theory Go_Net
  imports Go_Strings
begin

text \<open>
  The part of Go's \<open>net\<close> package the rate limiter uses to find a client's address:
  \<open>SplitHostPort\<close>, \<open>ParseIP\<close> (with \<open>netip.ParseAddr\<close> behind it), \<open>ParseCIDR\<close> and \<open>IPNet.Contains\<close>.
  An address is a list of bytes, 16 for what the parsers return and 4 after \<open>To4\<close>. The last lemmas
  show that \<open>Contains\<close> compares exactly the leading bits the prefix length names.
\<close>

unbundle bit_operations_syntax

type_synonym IP = "8 word list"

subsection \<open>Splitting\<close>

definition index_byte :: "string \<Rightarrow> char \<Rightarrow> nat option" where
  "index_byte s c = (if c \<in> set s then Some (length (takeWhile (\<lambda>x. x \<noteq> c) s)) else None)"

definition last_index_byte :: "string \<Rightarrow> char \<Rightarrow> nat option" where
  "last_index_byte s c = (case index_byte (rev s) c of None \<Rightarrow> None | Some i \<Rightarrow> Some (length s - 1 - i))"

text \<open>Host and port, or \<open>None\<close> for any of the address errors.\<close>

definition SplitHostPort :: "string \<Rightarrow> (string \<times> string) option" where
  "SplitHostPort hostport =
     (case last_index_byte hostport (CHR '':'') of
        None \<Rightarrow> None
      | Some i \<Rightarrow>
          if hd hostport = CHR ''[''
          then (case index_byte hostport (CHR '']'') of
                  None \<Rightarrow> None
                | Some e \<Rightarrow>
                    if e + 1 = length hostport \<or> e + 1 \<noteq> i then None
                    else if CHR ''['' \<in> set (drop 1 hostport) \<or> CHR '']'' \<in> set (drop (e + 1) hostport) then None
                    else Some (take (e - 1) (drop 1 hostport), drop (i + 1) hostport))
          else if CHR '':'' \<in> set (take i hostport) then None
          else if CHR ''['' \<in> set hostport \<or> CHR '']'' \<in> set hostport then None
          else Some (take i hostport, drop (i + 1) hostport))"

fun split_on :: "char \<Rightarrow> string \<Rightarrow> string list" where
  "split_on c [] = [[]]"
| "split_on c (x # xs) =
     (if x = c then [] # split_on c xs
      else case split_on c xs of [] \<Rightarrow> [[x]] | y # ys \<Rightarrow> (x # y) # ys)"

subsection \<open>Addresses\<close>

text \<open>An IPv4 field: one to three digits without a leading zero, at most 255.\<close>

definition v4_field :: "string \<Rightarrow> 8 word option" where
  "v4_field f =
     (if f \<noteq> [] \<and> list_all is_digit_byte f \<and> (hd f \<noteq> CHR ''0'' \<or> length f = 1) \<and> dec_val 0 f \<le> 255
      then Some (of_nat (dec_val 0 f)) else None)"

definition parseIPv4Fields :: "string \<Rightarrow> IP option" where
  "parseIPv4Fields s =
     (case map v4_field (split_on (CHR ''.'') s) of
        [Some a, Some b, Some c, Some d] \<Rightarrow> Some [a, b, c, d]
      | _ \<Rightarrow> None)"

definition hex_val :: "char \<Rightarrow> nat option" where
  "hex_val c =
     (let v = byte_val c in
      if 48 \<le> v \<and> v \<le> 57 then Some (v - 48)
      else if 97 \<le> v \<and> v \<le> 102 then Some (v - 87)
      else if 65 \<le> v \<and> v \<le> 70 then Some (v - 55)
      else None)"

fun hex_acc :: "nat \<Rightarrow> string \<Rightarrow> nat" where
  "hex_acc a [] = a"
| "hex_acc a (c # cs) = hex_acc (16 * a + the (hex_val c)) cs"

text \<open>
  The loop of \<open>parseIPv6\<close>. The first argument counts the two-byte fields that are left, \<open>ip\<close> are the
  bytes written so far and \<open>ell\<close> is the position of the ellipsis. The result has the rest of the
  text, which has to be empty.
\<close>

fun v6_loop :: "nat \<Rightarrow> IP \<Rightarrow> nat option \<Rightarrow> string \<Rightarrow> (IP \<times> nat option \<times> string) option" where
  "v6_loop 0 ip ell s = Some (ip, ell, s)"
| "v6_loop (Suc n) ip ell s =
     (let digits = takeWhile (\<lambda>c. hex_val c \<noteq> None) s;
          rest = dropWhile (\<lambda>c. hex_val c \<noteq> None) s;
          acc = hex_acc 0 digits
      in
      if digits = [] \<or> length digits > 4 then None
      else if rest \<noteq> [] \<and> hd rest = CHR ''.''
      then (if ell = None \<and> length ip \<noteq> 12 then None
            else if length ip + 4 > 16 then None
            else case parseIPv4Fields s of None \<Rightarrow> None | Some v4 \<Rightarrow> Some (ip @ v4, ell, []))
      else
        let ip' = ip @ [of_nat (acc div 256), of_nat (acc mod 256)] in
        case rest of
          [] \<Rightarrow> Some (ip', ell, [])
        | c # rest1 \<Rightarrow>
            if c \<noteq> CHR '':'' then None
            else case rest1 of
              [] \<Rightarrow> None
            | d # rest2 \<Rightarrow>
                if d = CHR '':''
                then (if ell \<noteq> None then None
                      else if rest2 = [] then Some (ip', Some (length ip'), [])
                      else v6_loop n ip' (Some (length ip')) rest2)
                else v6_loop n ip' ell rest1)"

definition v6_expand :: "IP \<Rightarrow> nat option \<Rightarrow> IP option" where
  "v6_expand ip ell =
     (if length ip < 16
      then (case ell of
              None \<Rightarrow> None
            | Some e \<Rightarrow> Some (take e ip @ replicate (16 - length ip) 0 @ drop e ip))
      else if ell \<noteq> None then None else Some ip)"

text \<open>\<open>netip.ParseAddr\<close> gives the bit length, the 16 bytes and the zone.\<close>

definition v4InV6Prefix :: IP where
  "v4InV6Prefix = replicate 10 0 @ [0xFF, 0xFF]"

definition parseIPv6 :: "string \<Rightarrow> (nat \<times> IP \<times> string) option" where
  "parseIPv6 in6 =
     (let s0 = before_byte (CHR ''%'') in6;
          zone = drop (length s0 + 1) in6
      in
      if CHR ''%'' \<in> set in6 \<and> zone = [] then None
      else
        let (ell, s) = (if take 2 s0 = ''::'' then (Some 0, drop 2 s0) else (None, s0)) in
        if ell \<noteq> None \<and> s = [] then Some (128, replicate 16 0, zone)
        else case v6_loop 8 [] ell s of
          None \<Rightarrow> None
        | Some (ip, ell', rest) \<Rightarrow>
            if rest \<noteq> [] then None
            else case v6_expand ip ell' of None \<Rightarrow> None | Some ip16 \<Rightarrow> Some (128, ip16, zone))"

definition ParseAddr :: "string \<Rightarrow> (nat \<times> IP \<times> string) option" where
  "ParseAddr s =
     (case find (\<lambda>c. c \<in> {CHR ''.'', CHR '':'', CHR ''%''}) s of
        Some c \<Rightarrow>
          if c = CHR ''.''
          then (case parseIPv4Fields s of None \<Rightarrow> None | Some v4 \<Rightarrow> Some (32, v4InV6Prefix @ v4, ''''))
          else if c = CHR '':'' then parseIPv6 s
          else None
      | None \<Rightarrow> None)"

definition ParseIP :: "string \<Rightarrow> IP option" where
  "ParseIP s =
     (case ParseAddr s of
        Some (bits, ip, zone) \<Rightarrow> if zone = '''' then Some ip else None
      | None \<Rightarrow> None)"

definition To4 :: "IP \<Rightarrow> IP option" where
  "To4 ip =
     (if length ip = 4 then Some ip
      else if length ip = 16 \<and> take 12 ip = v4InV6Prefix then Some (drop 12 ip)
      else None)"

subsection \<open>Networks\<close>

record IPNet =
  n_IP :: IP
  n_Mask :: IP

text \<open>\<open>CIDRMask\<close>: all ones, then \<open>^(0xff >> n)\<close>, then zeros.\<close>

definition mask_byte :: "nat \<Rightarrow> 8 word" where
  "mask_byte n = (if n \<ge> 8 then 0xFF else NOT (drop_bit n 0xFF))"

definition CIDRMask :: "nat \<Rightarrow> nat \<Rightarrow> IP" where
  "CIDRMask ones bits = map (\<lambda>i. mask_byte (ones - 8 * i)) [0..<bits div 8]"

definition and_bytes :: "IP \<Rightarrow> IP \<Rightarrow> IP" where
  "and_bytes ip m = map2 (AND) ip m"

definition dtoi :: "string \<Rightarrow> nat option" where
  "dtoi s =
     (if s \<noteq> [] \<and> list_all is_digit_byte s \<and> int (dec_val 0 s) < 0xFFFFFF then Some (dec_val 0 s) else None)"

definition ParseCIDR :: "string \<Rightarrow> IPNet option" where
  "ParseCIDR s =
     (if CHR ''/'' \<notin> set s then None
      else
        let addr = before_byte (CHR ''/'') s; mask = drop (length addr + 1) s in
        case ParseAddr addr of
          None \<Rightarrow> None
        | Some (bits, ip16, zone) \<Rightarrow>
            if zone \<noteq> '''' then None
            else case dtoi mask of
              None \<Rightarrow> None
            | Some n \<Rightarrow>
                if n > bits then None
                else Some \<lparr>n_IP = and_bytes (if bits = 32 then drop 12 ip16 else ip16) (CIDRMask n bits),
                           n_Mask = CIDRMask n bits\<rparr>)"

definition networkNumberAndMask :: "IPNet \<Rightarrow> (IP \<times> IP) option" where
  "networkNumberAndMask n =
     (let ip = (case To4 (n_IP n) of Some x \<Rightarrow> x | None \<Rightarrow> n_IP n) in
      if length ip \<noteq> 4 \<and> length ip \<noteq> 16 then None
      else if length (n_Mask n) = 4 then (if length ip = 4 then Some (ip, n_Mask n) else None)
      else if length (n_Mask n) = 16 then Some (ip, if length ip = 4 then drop 12 (n_Mask n) else n_Mask n)
      else None)"

definition IPNet_Contains :: "IPNet \<Rightarrow> IP \<Rightarrow> bool" where
  "IPNet_Contains n ip =
     (let ip' = (case To4 ip of Some x \<Rightarrow> x | None \<Rightarrow> ip) in
      case networkNumberAndMask n of
        None \<Rightarrow> ip' = []
      | Some (nn, m) \<Rightarrow> length ip' = length nn \<and> and_bytes nn m = and_bytes ip' m)"

subsection \<open>Contains compares the leading bits\<close>

definition byte_bits :: "8 word \<Rightarrow> bool list" where
  "byte_bits b = map (bit b) [7, 6, 5, 4, 3, 2, 1, 0]"

definition ip_bits :: "IP \<Rightarrow> bool list" where
  "ip_bits ip = concat (map byte_bits ip)"

lemma ip_bits_simps [simp]: "ip_bits [] = []" "ip_bits (b # bs) = byte_bits b @ ip_bits bs"
  by (simp_all add: ip_bits_def)

lemma length_byte_bits [simp]: "length (byte_bits b) = 8"
  by (simp add: byte_bits_def)

lemma byte_eq_bits: "a = b \<longleftrightarrow> byte_bits a = byte_bits (b :: 8 word)"
proof
  assume "byte_bits a = byte_bits b"
  then have "bit a n = bit b n" if "n < 8" for n
    using that by (auto simp: byte_bits_def less_Suc_eq eval_nat_numeral)
  then show "a = b" by (auto intro: bit_word_eqI)
qed simp

lemma nth_byte_bits: "j < 8 \<Longrightarrow> byte_bits b ! j = bit b (7 - j)"
  by (auto simp: byte_bits_def less_Suc_eq eval_nat_numeral)

lemma bit_mask_byte: "n < 8 \<Longrightarrow> bit (mask_byte k) n \<longleftrightarrow> 8 - k \<le> n"
proof -
  assume "n < 8"
  moreover have ff: "(0xFF :: 8 word) = - 1" by simp
  ultimately show ?thesis
    unfolding mask_byte_def ff by (auto simp: bit_not_iff bit_drop_bit_eq bit_mask_iff)
qed

lemma masked_byte_eq: "a AND mask_byte k = b AND mask_byte k \<longleftrightarrow> take k (byte_bits a) = take k (byte_bits b)"
proof -
  have "a AND mask_byte k = b AND mask_byte k \<longleftrightarrow> (\<forall>n<8. 8 - k \<le> n \<longrightarrow> bit a n = bit b n)"
    by (auto simp: bit_eq_iff bit_and_iff bit_mask_byte possible_bit_word)
  also have "\<dots> \<longleftrightarrow> (\<forall>j<8. j < k \<longrightarrow> bit a (7 - j) = bit b (7 - j))"
  proof
    assume h: "\<forall>j<8. j < k \<longrightarrow> bit a (7 - j) = bit b (7 - j)"
    have "bit a n = bit b n" if n: "n < 8" "8 - k \<le> n" for n
      using h [rule_format, of "7 - n"] n by auto
    then show "\<forall>n<8. 8 - k \<le> n \<longrightarrow> bit a n = bit b n" by blast
  qed auto
  also have "\<dots> \<longleftrightarrow> take k (byte_bits a) = take k (byte_bits b)"
    by (auto simp: list_eq_iff_nth_eq nth_byte_bits)
  finally show ?thesis .
qed

lemma CIDRMask_Suc: "CIDRMask n (8 * Suc l) = mask_byte n # CIDRMask (n - 8) (8 * l)"
  by (auto simp: CIDRMask_def upt_conv_Cons map_Suc_upt [symmetric] comp_def simp del: upt_Suc
      intro!: arg_cong [where f = mask_byte])

lemma and_bytes_CIDRMask:
  "length a = l \<Longrightarrow> length b = l \<Longrightarrow>
   and_bytes a (CIDRMask n (8 * l)) = and_bytes b (CIDRMask n (8 * l)) \<longleftrightarrow> take n (ip_bits a) = take n (ip_bits b)"
proof (induction l arbitrary: a b n)
  case (Suc l)
  obtain x a' y b' where ab: "a = x # a'" "b = y # b'" and len: "length a' = l" "length b' = l"
    using Suc.prems by (auto simp: length_Suc_conv)
  show ?case
    using Suc.IH [OF len, of "n - 8"] masked_byte_eq [of x n y]
    by (auto simp: ab CIDRMask_Suc and_bytes_def simp del: mult_Suc_right)
qed (simp add: and_bytes_def)

lemma and_bytes_twice: "and_bytes (and_bytes a m) m = and_bytes a m"
proof (induction a arbitrary: m)
  case (Cons x a)
  then show ?case by (cases m) (simp_all add: and_bytes_def and.assoc)
qed (simp add: and_bytes_def)

lemma length_CIDRMask [simp]: "length (CIDRMask n bits) = bits div 8"
  by (simp add: CIDRMask_def)

lemma length_and_bytes [simp]: "length (and_bytes a m) = min (length a) (length m)"
  by (simp add: and_bytes_def)

lemma Contains_v4:
  assumes "length a = 4" and "net = \<lparr>n_IP = and_bytes a (CIDRMask n 32), n_Mask = CIDRMask n 32\<rparr>"
    and "length ip = 16"
  shows "IPNet_Contains net ip \<longleftrightarrow> take 12 ip = v4InV6Prefix \<and> take n (ip_bits a) = take n (ip_bits (drop 12 ip))"
proof -
  have net: "networkNumberAndMask net = Some (and_bytes a (CIDRMask n 32), CIDRMask n 32)"
    using assms(1) by (simp add: networkNumberAndMask_def To4_def assms(2) Let_def)
  show ?thesis
  proof (cases "take 12 ip = v4InV6Prefix")
    case True
    then have "IPNet_Contains net ip \<longleftrightarrow>
        and_bytes a (CIDRMask n 32) = and_bytes (drop 12 ip) (CIDRMask n 32)"
      using assms(1,3) by (simp add: IPNet_Contains_def net To4_def Let_def and_bytes_twice)
    with True show ?thesis
      using and_bytes_CIDRMask [of a 4 "drop 12 ip" n] assms by simp
  next
    case False
    then show ?thesis using assms(1,3) by (simp add: IPNet_Contains_def net To4_def Let_def)
  qed
qed

end
