(* ===== verification/Rate_Middleware.thy ===== *)
theory Rate_Middleware
  imports Http Go_Net Limiter
begin

text \<open>
  \<open>internal/ratelimit/clientip.go\<close> and \<open>middleware.go\<close>: the key of a request and what the
  middleware does with the limiter's decision. The Go interface \<open>Limiter\<close> is the locale
  \<open>decision_source\<close>, which the Redis limiter meets.
\<close>

subsection \<open>Client address\<close>

fun isTrusted_loop :: "string \<Rightarrow> string list \<Rightarrow> bool" where
  "isTrusted_loop host [] = False"
| "isTrusted_loop host (t0 # ts) =
     (let t = TrimSpace t0 in
      if t = '''' then isTrusted_loop host ts
      else if host = t then True
      else case ParseCIDR t of
        None \<Rightarrow> isTrusted_loop host ts
      | Some ipnet \<Rightarrow>
          (case ParseIP host of
             None \<Rightarrow> isTrusted_loop host ts
           | Some ip \<Rightarrow> if IPNet_Contains ipnet ip then True else isTrusted_loop host ts))"

definition isTrusted :: "string \<Rightarrow> string list \<Rightarrow> bool" where
  "isTrusted host trusted = (if host = '''' then False else isTrusted_loop host trusted)"

text \<open>The host part of the peer's address, or all of it when it has no port.\<close>

definition remoteHost :: "Request \<Rightarrow> string" where
  "remoteHost r = (case SplitHostPort (q_RemoteAddr r) of Some (h, p) \<Rightarrow> h | None \<Rightarrow> q_RemoteAddr r)"

definition forwarded_for :: "Request \<Rightarrow> string" where
  "forwarded_for r =
     (let xff = TrimSpace (Header_Get (q_Header r) ''X-Forwarded-For'') in
      if xff \<noteq> '''' \<and> CHR '','' \<in> set xff then TrimSpace (before_byte (CHR '','') xff) else xff)"

definition ClientIP :: "Request \<Rightarrow> string list \<Rightarrow> string" where
  "ClientIP r trusted =
     (if isTrusted (remoteHost r) trusted \<and> forwarded_for r \<noteq> '''' then forwarded_for r
      else if remoteHost r = '''' then ''unknown''
      else remoteHost r)"

subsection \<open>Middleware\<close>

text \<open>
  \<open>int(d.Seconds())\<close> truncates. The conversion through float64 is exact for durations of whole
  milliseconds, which are the only ones the Redis limiter produces.
\<close>

definition whole_seconds :: "int \<Rightarrow> int" where
  "whole_seconds d = go_quot d second"

definition json_rate_limited :: "Decision \<Rightarrow> json" where
  "json_rate_limited d = json_map
     [(''code'', JStr ''rate_limited''),
      (''message'', JStr ''request rate exceeded; retry after Retry-After seconds''),
      (''retry_after'', JInt (whole_seconds (d_RetryAfter d)))]"

fun run_callbacks :: "(string \<Rightarrow> 's \<Rightarrow> 's) option list \<Rightarrow> 's \<Rightarrow> 's" where
  "run_callbacks [] s = s"
| "run_callbacks (cb # cbs) s = run_callbacks cbs (case cb of None \<Rightarrow> s | Some f \<Rightarrow> f ''any'' s)"

definition bypassed :: "string list \<Rightarrow> Request \<Rightarrow> bool" where
  "bypassed bypass r \<longleftrightarrow>
     TrimRight (q_Path r) (CHR ''/'') \<in> set (map (\<lambda>p. TrimRight p (CHR ''/'')) bypass)"

definition ratelimit_Middleware ::
  "(string \<Rightarrow> 's \<Rightarrow> Decision go_result \<times> 's) \<Rightarrow> string list \<Rightarrow> string list
   \<Rightarrow> (string \<Rightarrow> 's \<Rightarrow> 's) option list \<Rightarrow> 's middleware" where
  "ratelimit_Middleware allow trustedProxies bypass onReject nxt r w s =
     (if bypassed bypass r then nxt r w s
      else
        let ip = ClientIP r trustedProxies; (res, s1) = allow ip s in
        case res of
          Inl err \<Rightarrow> nxt r w s1
        | Inr decision \<Rightarrow>
            let w1 = set_header ''X-RateLimit-Limit'' (Itoa (d_Limit decision)) w;
                w2 = set_header ''X-RateLimit-Remaining'' (Itoa (d_Remaining decision)) w1
            in
            if \<not> d_Allowed decision
            then
              let s2 = run_callbacks onReject s1;
                  w3 = set_header ''Retry-After'' (Itoa (whole_seconds (d_RetryAfter decision))) w2;
                  w4 = set_header ''Content-Type'' ''application/json; charset=utf-8'' w3
              in (json_Encode (json_rate_limited decision) (WriteHeader 429 w4), s2, None)
            else nxt r w2 s1)"

text \<open>The paths \<open>application.go\<close> exempts.\<close>

definition api_bypass :: "string list" where
  "api_bypass = [''/api/v1/health'', ''/api/v1/docs'', ''/api/v1/openapi.yaml'']"

subsection \<open>The limiter interface\<close>

text \<open>What the middleware relies on in a \<open>Limiter\<close>: a refusal names a wait of at least one second.\<close>

locale decision_source =
  fixes allow :: "string \<Rightarrow> 's \<Rightarrow> Decision go_result \<times> 's"
  assumes refusal_wait: "allow k s = (Inr d, s') \<Longrightarrow> \<not> d_Allowed d \<Longrightarrow> second \<le> d_RetryAfter d"
    and remaining_nonneg: "allow k s = (Inr d, s') \<Longrightarrow> 0 \<le> d_Remaining d"
begin

lemma whole_seconds_pos:
  assumes "allow k s = (Inr d, s')" "\<not> d_Allowed d"
  shows "1 \<le> whole_seconds (d_RetryAfter d)"
  using refusal_wait [OF assms] by (simp add: whole_seconds_def go_quot_nonneg second_def)

lemma refusal_response:
  assumes "\<not> bypassed bypass r" and "allow (ClientIP r trusted) s = (Inr d, s1)"
    and "\<not> d_Allowed d" and "fresh_writer w"
  shows "\<exists>w'. ratelimit_Middleware allow trusted bypass cbs nxt r w s = (w', run_callbacks cbs s1, None)
     \<and> sent_status w' = 429
     \<and> sent_header w' ''Retry-After'' = Itoa (whole_seconds (d_RetryAfter d))
     \<and> sent_header w' ''X-RateLimit-Limit'' = Itoa (d_Limit d)
     \<and> sent_header w' ''X-RateLimit-Remaining'' = Itoa (d_Remaining d)
     \<and> w_Body w' = [BJson (json_rate_limited d)]"
proof -
  have canon: "CanonicalHeaderKey ''Retry-After'' = ''Retry-After''"
      "CanonicalHeaderKey ''X-RateLimit-Limit'' = ''X-Ratelimit-Limit''"
      "CanonicalHeaderKey ''X-RateLimit-Remaining'' = ''X-Ratelimit-Remaining''"
      "CanonicalHeaderKey ''Content-Type'' = ''Content-Type''"
    by code_simp+
  have "json_ok (json_rate_limited d)" by (simp add: json_rate_limited_def)
  then show ?thesis
    using assms
    by (simp add: ratelimit_Middleware_def Let_def writer_defs fresh_writer_def sent_status_def sent_header_def
        Header_Get_Set canon json_Marshal_def)
qed

end

text \<open>
  The Redis limiter as a value of that interface: the \<open>n\<close>-th call reads the clock, draws a UUID and
  may meet a connection error, as \<open>env n\<close> says.
\<close>

definition redis_allow ::
  "'r redis_ops \<Rightarrow> RedisLimiter \<Rightarrow> (nat \<Rightarrow> int \<times> string \<times> go_error option)
   \<Rightarrow> string \<Rightarrow> 'r \<times> nat \<Rightarrow> Decision go_result \<times> ('r \<times> nat)" where
  "redis_allow R l env key s =
     (case s of (r, n) \<Rightarrow> case env n of (now, uuid, fault) \<Rightarrow>
        let (r', d) = Allow R l key now uuid fault (server_time R now r) in (d, (r', Suc n)))"

lemma decode_reply_bounds:
  "decode_reply l raw = Inr d \<Longrightarrow> 0 \<le> d_Remaining d \<and> (d_Allowed d \<or> second \<le> d_RetryAfter d)"
  by (auto simp: decode_reply_def Let_def split: redis_value.splits list.splits if_splits)

lemma redis_allow_decision:
  "redis_allow R l env k s = (Inr d, s') \<Longrightarrow> \<exists>raw. decode_reply l raw = Inr d"
  by (auto simp: redis_allow_def Allow_def Let_def split: prod.splits option.splits)

interpretation redis_limiter: decision_source "redis_allow R l env" for R l env
  by unfold_locales (use redis_allow_decision decode_reply_bounds in blast)+

subsection \<open>Address facts\<close>

definition trusted_entry :: "string \<Rightarrow> string \<Rightarrow> bool" where
  "trusted_entry host t \<longleftrightarrow>
     (let u = TrimSpace t in
      u \<noteq> '''' \<and> (host = u \<or> (\<exists>ipnet ip. ParseCIDR u = Some ipnet \<and> ParseIP host = Some ip \<and> IPNet_Contains ipnet ip)))"

lemma isTrusted_iff: "isTrusted host trusted \<longleftrightarrow> host \<noteq> '''' \<and> (\<exists>t \<in> set trusted. trusted_entry host t)"
proof -
  have "isTrusted_loop host ts \<longleftrightarrow> (\<exists>t \<in> set ts. trusted_entry host t)" for ts
    by (induction ts) (auto simp: trusted_entry_def Let_def split: option.splits)
  then show ?thesis by (auto simp: isTrusted_def)
qed

text \<open>The text of an IPv4 address and of a network in prefix notation.\<close>

lemma split_on_ne: "split_on c s \<noteq> []"
  by (induction c s rule: split_on.induct) (auto split: list.splits)

lemma split_on_set: "set s \<subseteq> insert c (\<Union>f \<in> set (split_on c s). set f)"
proof (induction c s rule: split_on.induct)
  case (2 c x xs)
  then show ?case using split_on_ne [of c xs] by (cases "split_on c xs") auto
qed simp

lemma split_on_single: "c \<notin> set s \<Longrightarrow> split_on c s = [s]"
  by (induction c s rule: split_on.induct) auto

lemma split_on_hd: "hd (split_on c s) \<noteq> [] \<Longrightarrow> s \<noteq> [] \<and> hd s = hd (hd (split_on c s))"
  by (cases s) (auto split: list.splits if_splits)

lemma v4_field_Some: "v4_field f = Some b \<Longrightarrow> f \<noteq> [] \<and> list_all is_digit_byte f"
  by (simp add: v4_field_def split: if_splits)

lemma parseIPv4Fields_Some:
  assumes "parseIPv4Fields s = Some a"
  shows "length a = 4" and "set s \<subseteq> insert (CHR ''.'') {c. is_digit_byte c}" and "CHR ''.'' \<in> set s"
    and "s \<noteq> []" and "is_digit_byte (hd s)"
proof -
  obtain f1 f2 f3 f4 where f: "split_on (CHR ''.'') s = [f1, f2, f3, f4]"
      and ok: "v4_field f1 \<noteq> None" "v4_field f2 \<noteq> None" "v4_field f3 \<noteq> None" "v4_field f4 \<noteq> None"
      and len: "length a = 4"
    using assms by (auto simp: parseIPv4Fields_def map_eq_Cons_conv split: list.splits option.splits)
  have digs: "list_all is_digit_byte g \<and> g \<noteq> []" if "g \<in> {f1, f2, f3, f4}" for g
    using ok that v4_field_Some by fastforce
  show "length a = 4" by (rule len)
  show "set s \<subseteq> insert (CHR ''.'') {c. is_digit_byte c}"
    using split_on_set [of s "CHR ''.''"] digs by (auto simp: f list_all_iff)
  show "CHR ''.'' \<in> set s"
    using split_on_single [of "CHR ''.''" s] f by auto
  have "f1 \<noteq> []" "is_digit_byte (hd f1)" using digs [of f1] by (auto simp: list_all_iff)
  with split_on_hd [of "CHR ''.''" s] show "s \<noteq> []" "is_digit_byte (hd s)" by (simp_all add: f)
qed

lemma special_not_digit:
  "\<not> is_digit_byte (CHR ''/'')" "\<not> is_digit_byte (CHR '':'')" "\<not> is_digit_byte (CHR ''%'')" "\<not> is_digit_byte (CHR ''.'')"
  by (simp_all add: is_digit_byte_def byte_val_def)

lemma v4_no_special:
  assumes "parseIPv4Fields s = Some a"
  shows "CHR ''/'' \<notin> set s" "CHR '':'' \<notin> set s" "CHR ''%'' \<notin> set s"
  using parseIPv4Fields_Some(2) [OF assms] special_not_digit by auto

lemma find_dot: "CHR ''.'' \<in> set s \<Longrightarrow> CHR '':'' \<notin> set s \<Longrightarrow> CHR ''%'' \<notin> set s \<Longrightarrow>
    find (\<lambda>c. c \<in> {CHR ''.'', CHR '':'', CHR ''%''}) s = Some (CHR ''.'')"
  by (induction s) auto

lemma ParseAddr_v4: "parseIPv4Fields s = Some a \<Longrightarrow> ParseAddr s = Some (32, v4InV6Prefix @ a, '''')"
  using find_dot [OF parseIPv4Fields_Some(3) v4_no_special(2,3)] by (simp add: ParseAddr_def)

lemma takeWhile_sep: "c \<notin> set xs \<Longrightarrow> takeWhile (\<lambda>x. x \<noteq> c) (xs @ c # ys) = xs"
  by (induction xs) auto

lemma ParseCIDR_v4:
  assumes "parseIPv4Fields addr = Some a" and "n \<le> 32"
  shows "ParseCIDR (addr @ ''/'' @ show_nat n) = Some \<lparr>n_IP = and_bytes a (CIDRMask n 32), n_Mask = CIDRMask n 32\<rparr>"
proof -
  have "before_byte (CHR ''/'') (addr @ ''/'' @ show_nat n) = addr"
    using v4_no_special(1) [OF assms(1)] by (simp add: before_byte_def takeWhile_sep)
  moreover have "dtoi (show_nat n) = Some n"
    using assms(2) by (simp add: dtoi_def show_nat_digits dec_val_show_nat)
  ultimately show ?thesis
    using assms(2) by (simp add: ParseCIDR_def Let_def ParseAddr_v4 [OF assms(1)] v4InV6Prefix_def)
qed

lemma TrimSpace_cidr:
  assumes "parseIPv4Fields addr = Some a"
  shows "TrimSpace (addr @ ''/'' @ show_nat n) = addr @ ''/'' @ show_nat n"
proof (rule TrimSpace_plain)
  have "is_digit_byte (last (show_nat n))"
    using show_nat_digits [of n] by (simp add: list_all_iff)
  then show "addr @ ''/'' @ show_nat n = [] \<or>
      plain_byte (hd (addr @ ''/'' @ show_nat n)) \<and> plain_byte (last (addr @ ''/'' @ show_nat n))"
    using parseIPv4Fields_Some(4,5) [OF assms] by (simp add: is_digit_plain)
qed

lemma TrimRight_replicate: "TrimRight (p @ replicate k c) c = TrimRight p c"
  by (simp add: TrimRight_def dropWhile_append)

lemma bypass_slashes: "p \<in> set api_bypass \<Longrightarrow> q_Path r = p @ replicate k (CHR ''/'') \<Longrightarrow> bypassed api_bypass r"
  by (auto simp: bypassed_def TrimRight_replicate)

lemma ClientIP_nonempty: "ClientIP r trusted \<noteq> ''''"
  by (simp add: ClientIP_def)

subsection \<open>Properties\<close>

text \<open>
  Property C26. A peer that is no trusted proxy cannot choose its rate-limit key: whatever headers it
  sends, the key is the host of its own connection (or the fixed word for a connection without one),
  the same for every request of that peer.
\<close>

theorem untrusted_peer_key:
  assumes "\<not> (\<exists>t \<in> set trusted. trusted_entry (remoteHost r) t)" and "q_RemoteAddr r' = q_RemoteAddr r"
  shows "ClientIP r' trusted = ClientIP r trusted
    \<and> ClientIP r trusted = (if remoteHost r = '''' then ''unknown'' else remoteHost r)"
proof -
  have "remoteHost r' = remoteHost r" unfolding remoteHost_def assms(2) ..
  moreover have "\<not> isTrusted (remoteHost r) trusted" using assms(1) by (simp add: isTrusted_iff)
  ultimately show ?thesis by (simp add: ClientIP_def)
qed

theorem untrusted_peer_key_witness:
  "ClientIP \<lparr>q_Method = ''GET'', q_Path = ''/api/v1/assets'', q_RemoteAddr = ''203.0.113.7:4711'',
      q_Header = [''X-Forwarded-For'' \<mapsto> [''198.51.100.1'']], q_Query = [], q_Params = [], q_RequestID = None\<rparr>
      [''10.0.0.0/8''] = ''203.0.113.7''"
proof -
  let ?r = "\<lparr>q_Method = ''GET'', q_Path = ''/api/v1/assets'', q_RemoteAddr = ''203.0.113.7:4711'',
      q_Header = [''X-Forwarded-For'' \<mapsto> [''198.51.100.1'']], q_Query = [], q_Params = [], q_RequestID = None\<rparr>"
  have host: "remoteHost ?r = ''203.0.113.7''" by code_simp
  have "\<not> isTrusted ''203.0.113.7'' [''10.0.0.0/8'']" by code_simp
  then have "\<not> (\<exists>t \<in> set [''10.0.0.0/8'']. trusted_entry (remoteHost ?r) t)" by (simp add: isTrusted_iff host)
  from untrusted_peer_key [OF this refl] show ?thesis by (simp add: host)
qed

text \<open>
  Property C27. A trusted network in prefix notation trusts exactly the addresses whose leading bits
  are the network's: an IPv4 peer is trusted by \<open>a.b.c.d/n\<close> if and only if its first \<open>n\<close> bits agree
  with those of \<open>a.b.c.d\<close>.
\<close>

theorem trusted_network_v4:
  assumes "parseIPv4Fields addr = Some a" and "parseIPv4Fields host = Some h" and "n \<le> 32"
  shows "isTrusted host [addr @ ''/'' @ show_nat n] \<longleftrightarrow> take n (ip_bits a) = take n (ip_bits h)"
proof -
  define t where "t = addr @ ''/'' @ show_nat n"
  have t: "TrimSpace t = t" "t \<noteq> ''''"
      "ParseCIDR t = Some \<lparr>n_IP = and_bytes a (CIDRMask n 32), n_Mask = CIDRMask n 32\<rparr>"
    using TrimSpace_cidr [OF assms(1)] ParseCIDR_v4 [OF assms(1,3)] by (simp_all add: t_def)
  have ip: "ParseIP host = Some (v4InV6Prefix @ h)" by (simp add: ParseIP_def ParseAddr_v4 [OF assms(2)])
  have ne: "host \<noteq> t" using v4_no_special(1) [OF assms(2)] by (auto simp: t_def)
  have "isTrusted host [t] \<longleftrightarrow> IPNet_Contains \<lparr>n_IP = and_bytes a (CIDRMask n 32), n_Mask = CIDRMask n 32\<rparr> (v4InV6Prefix @ h)"
    using ne parseIPv4Fields_Some(4) [OF assms(2)] by (simp add: isTrusted_iff trusted_entry_def Let_def t ip)
  also have "\<dots> \<longleftrightarrow> take n (ip_bits a) = take n (ip_bits h)"
    using parseIPv4Fields_Some(1) [OF assms(1)] parseIPv4Fields_Some(1) [OF assms(2)]
    by (subst Contains_v4) (simp_all add: v4InV6Prefix_def)
  finally show ?thesis by (simp add: t_def)
qed

theorem trusted_network_v4_witness:
  "isTrusted ''10.20.30.40'' [''10.0.0.0'' @ ''/'' @ show_nat 8]
   \<and> \<not> isTrusted ''11.20.30.40'' [''10.0.0.0'' @ ''/'' @ show_nat 8]"
proof -
  have a: "parseIPv4Fields ''10.0.0.0'' = Some [10, 0, 0, 0]" by code_simp
  have h: "parseIPv4Fields ''10.20.30.40'' = Some [10, 20, 30, 40]" by code_simp
  have g: "parseIPv4Fields ''11.20.30.40'' = Some [11, 20, 30, 40]" by code_simp
  have bits: "take 8 (ip_bits [10, 0, 0, 0]) = take 8 (ip_bits [10, 20, 30, 40])"
    "take 8 (ip_bits [10, 0, 0, 0]) \<noteq> take 8 (ip_bits [11, 20, 30, 40])"
    by code_simp+
  show ?thesis
    using trusted_network_v4 [OF a h, of 8] trusted_network_v4 [OF a g, of 8] bits by simp
qed

text \<open>
  Property C28. A request the Redis limiter refuses gets a 429 with the JSON error and the limit
  headers, the handler behind the middleware does not run, every rejection callback runs once, and
  the \<open>Retry-After\<close> header is a decimal of at least one: the announced wait cut down to whole seconds.
\<close>

theorem ratelimit_refusal:
  assumes "\<not> bypassed bypass r" and "redis_allow R l env (ClientIP r trusted) s = (Inr d, s1)"
    and "\<not> d_Allowed d" and "fresh_writer w"
  shows "\<exists>w' n. ratelimit_Middleware (redis_allow R l env) trusted bypass cbs nxt r w s = (w', run_callbacks cbs s1, None)
     \<and> sent_status w' = 429 \<and> w_Body w' = [BJson (json_rate_limited d)]
     \<and> sent_header w' ''X-RateLimit-Limit'' = Itoa (d_Limit d)
     \<and> sent_header w' ''X-RateLimit-Remaining'' = Itoa (d_Remaining d) \<and> 0 \<le> d_Remaining d
     \<and> sent_header w' ''Retry-After'' = Itoa n \<and> 1 \<le> n
     \<and> n * second \<le> d_RetryAfter d \<and> d_RetryAfter d < (n + 1) * second"
proof -
  let ?n = "whole_seconds (d_RetryAfter d)"
  have pos: "1 \<le> ?n" by (rule redis_limiter.whole_seconds_pos [OF assms(2,3)])
  have "second \<le> d_RetryAfter d" by (rule redis_limiter.refusal_wait [OF assms(2,3)])
  then have "?n * second \<le> d_RetryAfter d" "d_RetryAfter d < (?n + 1) * second"
    by (simp_all add: whole_seconds_def go_quot_nonneg second_def)
  with pos redis_limiter.remaining_nonneg [OF assms(2)]
    redis_limiter.refusal_response [OF assms, of cbs nxt]
  show ?thesis by blast
qed

theorem ratelimit_refusal_witness:
  "\<exists>w'. fst (ratelimit_Middleware
      (redis_allow store_ops (NewRedisLimiter 0 0) (\<lambda>n. (1000, ''u'', None))) [] api_bypass [] (\<lambda>r w s. (w, s, None))
      \<lparr>q_Method = ''GET'', q_Path = ''/api/v1/assets'', q_RemoteAddr = ''203.0.113.7:4711'',
       q_Header = Map.empty, q_Query = [], q_Params = [], q_RequestID = None\<rparr>
      new_Response (empty_store, 0)) = w' \<and> sent_status w' = 429 \<and> sent_header w' ''Retry-After'' = ''60''"
proof -
  let ?r = "\<lparr>q_Method = ''GET'', q_Path = ''/api/v1/assets'', q_RemoteAddr = ''203.0.113.7:4711'',
       q_Header = Map.empty, q_Query = [], q_Params = [], q_RequestID = None\<rparr>"
  let ?d = "\<lparr>d_Allowed = False, d_Limit = 0, d_Remaining = 0, d_RetryAfter = 60000000000\<rparr>"
  have nb: "\<not> bypassed api_bypass ?r" by code_simp
  have refused: "\<exists>s1. redis_allow store_ops (NewRedisLimiter 0 0) (\<lambda>n. (1000, ''u'', None)) (ClientIP ?r [])
      (empty_store, 0) = (Inr ?d, s1)"
    by (simp add: redis_allow_def Allow_def slidingWindowScript_def Let_def decode_reply_def as_int64_def
        NewRedisLimiter_def in_int64_def second_def millisecond_def store_ops_def store_zrem_def store_zcard_def
        store_zrange_def store_time_def store_expired_def empty_store_def)
  have fresh: "fresh_writer new_Response" by (simp add: fresh_writer_def new_Response_def)
  obtain s1 where s1: "redis_allow store_ops (NewRedisLimiter 0 0) (\<lambda>n. (1000, ''u'', None)) (ClientIP ?r [])
      (empty_store, 0) = (Inr ?d, s1)"
    using refused by blast
  obtain w' n where "fst (ratelimit_Middleware
      (redis_allow store_ops (NewRedisLimiter 0 0) (\<lambda>n. (1000, ''u'', None))) [] api_bypass [] (\<lambda>r w s. (w, s, None))
      ?r new_Response (empty_store, 0)) = w'" "sent_status w' = 429"
      and n: "sent_header w' ''Retry-After'' = Itoa n" "n * second \<le> 60000000000" "60000000000 < (n + 1) * second"
    using ratelimit_refusal [OF nb s1 _ fresh, of "[]" "\<lambda>r w s. (w, s, None)"] by auto
  moreover have "n = 60" using n by (simp add: second_def)
  moreover have "Itoa 60 = ''60''" by code_simp
  ultimately show ?thesis using n by auto
qed

text \<open>
  The rate limit never stands between a client and the health, docs and OpenAPI
  endpoints, with any number of trailing slashes, and a Redis outage fails open: in both cases the
  next handler gets the request and the untouched writer, and for the exempt paths the limiter is
  not even asked.
\<close>

theorem ratelimit_transparent:
  assumes "p \<in> set api_bypass \<and> q_Path r = p @ replicate k (CHR ''/'') \<or> snd (snd (env n)) \<noteq> None"
  shows "ratelimit_Middleware (redis_allow R l env) trusted api_bypass cbs nxt r w (st, n)
    = nxt r w (if bypassed api_bypass r then (st, n) else (server_time R (fst (env n)) st, Suc n))"
proof (cases "bypassed api_bypass r")
  case True
  then show ?thesis by (simp add: ratelimit_Middleware_def)
next
  case False
  with assms bypass_slashes have "snd (snd (env n)) \<noteq> None" by blast
  with False show ?thesis
    by (auto simp: ratelimit_Middleware_def redis_allow_def Allow_def Let_def split: prod.splits)
qed

theorem ratelimit_transparent_witness:
  "ratelimit_Middleware (redis_allow store_ops (NewRedisLimiter 0 0) (\<lambda>n. (1000, ''u'', None))) [] api_bypass []
     (\<lambda>r w s. (w, s, None))
     \<lparr>q_Method = ''GET'', q_Path = ''/api/v1/health/'', q_RemoteAddr = ''203.0.113.7:4711'',
      q_Header = Map.empty, q_Query = [], q_Params = [], q_RequestID = None\<rparr> new_Response (empty_store, 0)
   = (new_Response, (empty_store, 0), None)"
proof -
  let ?r = "\<lparr>q_Method = ''GET'', q_Path = ''/api/v1/health/'', q_RemoteAddr = ''203.0.113.7:4711'',
      q_Header = Map.empty, q_Query = [], q_Params = [], q_RequestID = None\<rparr>"
  have path: "''/api/v1/health'' \<in> set api_bypass \<and> q_Path ?r = ''/api/v1/health'' @ replicate 1 (CHR ''/'')"
    by (simp add: api_bypass_def)
  have "bypassed api_bypass ?r" by code_simp
  then show ?thesis by (simp add: ratelimit_transparent [OF disjI1 [OF path]])
qed


end
