(* ===== verification/Metrics.thy ===== *)
theory Metrics
  imports Models
begin

text \<open>
  The collectors of \<open>internal/metrics/metrics.go\<close>. A counter vector is a function from its label
  values to a count, a histogram keeps its observations (durations, in nanoseconds). Registration is
  the registry's check that no two collectors have the same name; Prometheus itself is not modelled
  further, in particular not the text of a scrape.
\<close>

subsection \<open>Collectors and their registration\<close>

datatype collector_kind =
    Counter
  | CounterVec "string list"
  | HistogramVec "string list"
  | GaugeFunc

record collector =
  c_Name :: string
  c_Help :: string
  c_kind :: collector_kind

definition httpReq :: collector where
  "httpReq = \<lparr>c_Name = ''http_requests_total'',
     c_Help = ''Total HTTP requests processed, partitioned by method, path, and status.'',
     c_kind = CounterVec [''method'', ''path'', ''status'']\<rparr>"

definition httpDur :: collector where
  "httpDur = \<lparr>c_Name = ''http_request_duration_seconds'',
     c_Help = ''HTTP request duration histogram, partitioned by method and path.'',
     c_kind = HistogramVec [''method'', ''path'']\<rparr>"

definition wsConn :: collector where
  "wsConn = \<lparr>c_Name = ''ws_connections_active'',
     c_Help = ''Currently-connected WebSocket clients.'', c_kind = GaugeFunc\<rparr>"

definition wsMsg :: collector where
  "wsMsg = \<lparr>c_Name = ''ws_messages_sent_total'',
     c_Help = ''Total WebSocket frames fanned out to connected clients.'', c_kind = Counter\<rparr>"

definition wsDrops :: collector where
  "wsDrops = \<lparr>c_Name = ''ws_drops_total'',
     c_Help = ''Total slow-consumer drops at the WebSocket hub.'', c_kind = Counter\<rparr>"

definition rlRej :: collector where
  "rlRej = \<lparr>c_Name = ''ratelimit_rejected_total'',
     c_Help = ''Total rate-limit rejections, partitioned by ip_class.'', c_kind = CounterVec [''ip_class'']\<rparr>"

definition grpcCalls :: collector where
  "grpcCalls = \<lparr>c_Name = ''upstream_grpc_calls_total'',
     c_Help = ''Total upstream gRPC calls issued by the BFF, partitioned by service, method, and grpc status code.'',
     c_kind = CounterVec [''service'', ''method'', ''status'']\<rparr>"

text \<open>\<open>MustRegister\<close>: \<open>None\<close> is its panic on a name that is taken.\<close>

fun MustRegister :: "collector list \<Rightarrow> collector list \<Rightarrow> collector list option" where
  "MustRegister reg [] = Some reg"
| "MustRegister reg (c # cs) =
     (if c_Name c \<in> set (map c_Name reg) then None else MustRegister (reg @ [c]) cs)"

subsection \<open>The bundle\<close>

record 's Metrics =
  m_Registry :: "collector list"
  m_HTTPRequestsTotal :: "string \<times> string \<times> string \<Rightarrow> nat"
  m_HTTPRequestDurationS :: "string \<times> string \<Rightarrow> int list"
  m_WSConnectionsActive :: "'s \<Rightarrow> nat"
  m_WSMessagesSentTotal :: nat
  m_WSDropsTotal :: nat
  m_RateLimitRejectedTotal :: "string \<Rightarrow> nat"
  m_UpstreamGRPCCallsTotal :: "string \<times> string \<times> string \<Rightarrow> nat"

text \<open>\<open>metrics.New\<close>; the gauge asks \<open>WSConnectionCount\<close> when it is scraped.\<close>

definition metrics_New :: "('s \<Rightarrow> nat) option \<Rightarrow> 's Metrics option" where
  "metrics_New wsConnectionCount =
     map_option
       (\<lambda>reg. \<lparr>m_Registry = reg, m_HTTPRequestsTotal = (\<lambda>_. 0), m_HTTPRequestDurationS = (\<lambda>_. []),
              m_WSConnectionsActive = (\<lambda>s. case wsConnectionCount of Some f \<Rightarrow> f s | None \<Rightarrow> 0),
              m_WSMessagesSentTotal = 0, m_WSDropsTotal = 0, m_RateLimitRejectedTotal = (\<lambda>_. 0),
              m_UpstreamGRPCCallsTotal = (\<lambda>_. 0)\<rparr>)
       (MustRegister [] [httpReq, httpDur, wsConn, wsMsg, wsDrops, rlRej, grpcCalls])"

definition count_request :: "string \<times> string \<times> string \<Rightarrow> 's Metrics \<Rightarrow> 's Metrics" where
  "count_request l m = m\<lparr>m_HTTPRequestsTotal := (m_HTTPRequestsTotal m)(l := Suc (m_HTTPRequestsTotal m l))\<rparr>"

definition observe_duration :: "string \<times> string \<Rightarrow> int \<Rightarrow> 's Metrics \<Rightarrow> 's Metrics" where
  "observe_duration l d m =
     m\<lparr>m_HTTPRequestDurationS := (m_HTTPRequestDurationS m)(l := m_HTTPRequestDurationS m l @ [d])\<rparr>"

definition count_rejected :: "string \<Rightarrow> 's Metrics \<Rightarrow> 's Metrics" where
  "count_rejected cls m =
     m\<lparr>m_RateLimitRejectedTotal := (m_RateLimitRejectedTotal m)(cls := Suc (m_RateLimitRejectedTotal m cls))\<rparr>"

lemma MustRegister_iff:
  "MustRegister reg cs = (if distinct (map c_Name cs) \<and> set (map c_Name cs) \<inter> set (map c_Name reg) = {}
     then Some (reg @ cs) else None)"
  by (induction cs arbitrary: reg) auto

lemma collector_names:
  "map c_Name [httpReq, httpDur, wsConn, wsMsg, wsDrops, rlRej, grpcCalls] =
     [''http_requests_total'', ''http_request_duration_seconds'', ''ws_connections_active'',
      ''ws_messages_sent_total'', ''ws_drops_total'', ''ratelimit_rejected_total'', ''upstream_grpc_calls_total'']"
  by (simp add: httpReq_def httpDur_def wsConn_def wsMsg_def wsDrops_def rlRej_def grpcCalls_def)

text \<open>The names are distinct, so the constructor never panics.\<close>

lemma metrics_New_total:
  "metrics_New f = Some \<lparr>m_Registry = [httpReq, httpDur, wsConn, wsMsg, wsDrops, rlRej, grpcCalls],
     m_HTTPRequestsTotal = (\<lambda>_. 0), m_HTTPRequestDurationS = (\<lambda>_. []),
     m_WSConnectionsActive = (\<lambda>s. case f of Some g \<Rightarrow> g s | None \<Rightarrow> 0), m_WSMessagesSentTotal = 0, m_WSDropsTotal = 0,
     m_RateLimitRejectedTotal = (\<lambda>_. 0), m_UpstreamGRPCCallsTotal = (\<lambda>_. 0)\<rparr>"
  unfolding metrics_New_def MustRegister_iff collector_names by simp

end
