(* ===== verification/Middleware.thy ===== *)
theory Middleware
  imports Http Metrics
begin

text \<open>
  \<open>internal/middleware\<close> and \<open>internal/metrics/middleware.go\<close>. The clock, the log and the Prometheus
  collectors are kept by the world: a middleware gets the functions that read the clock, draw a
  UUID, add a log entry or update the collectors. A handler is
  \<open>honest\<close> if the status its recorders end up with is the one the client receives; the middleware
  keep handlers honest, so the access log and the request counter can be believed.
\<close>

subsection \<open>CORS\<close>

definition origin_allowed :: "HTTPConfig \<Rightarrow> string \<Rightarrow> bool" where
  "origin_allowed cfg origin \<longleftrightarrow> http_CORSAllowAll cfg \<or> origin \<in> set (map TrimSpace (http_CORSOrigins cfg))"

definition cors_headers :: "HTTPConfig \<Rightarrow> string \<Rightarrow> Response \<Rightarrow> Response" where
  "cors_headers cfg origin w =
     (if origin \<noteq> '''' \<and> origin_allowed cfg origin
      then set_header ''Access-Control-Max-Age'' ''600''
            (set_header ''Access-Control-Allow-Headers'' ''Content-Type, Authorization''
              (set_header ''Access-Control-Allow-Methods'' ''GET, POST, OPTIONS''
                (set_header ''Vary'' ''Origin''
                  (set_header ''Access-Control-Allow-Origin'' origin w))))
      else w)"

definition CORS :: "HTTPConfig \<Rightarrow> 's middleware" where
  "CORS cfg nxt r w s =
     (let w1 = cors_headers cfg (Header_Get (q_Header r) ''Origin'') w
      in if q_Method r = ''OPTIONS'' then (WriteHeader 204 w1, s, None) else nxt r w1 s)"

subsection \<open>Recovery\<close>

text \<open>\<open>logPanic\<close> adds the error line with the path and the recovered value.\<close>

definition Recovery :: "(string \<Rightarrow> string \<Rightarrow> 's \<Rightarrow> 's) \<Rightarrow> 's middleware" where
  "Recovery logPanic nxt r w s =
     (case nxt r w s of
        (w1, s1, None) \<Rightarrow> (w1, s1, None)
      | (w1, s1, Some rec) \<Rightarrow> (http_Error ''internal server error'' 500 w1, logPanic (q_Path r) rec s1, None))"

subsection \<open>Request id\<close>

definition RequestIDHeader :: string where "RequestIDHeader = ''X-Request-Id''"

definition RequestID :: "('s \<Rightarrow> string \<times> 's) \<Rightarrow> 's middleware" where
  "RequestID newUUID nxt r w s =
     (let h = Header_Get (q_Header r) RequestIDHeader;
          (i, s1) = (if h = '''' then newUUID s else (h, s))
      in nxt (r\<lparr>q_RequestID := Some i\<rparr>) (set_header RequestIDHeader i w) s1)"

definition RequestIDFromContext :: "Request \<Rightarrow> string" where
  "RequestIDFromContext r = (case q_RequestID r of Some v \<Rightarrow> v | None \<Rightarrow> '''')"

subsection \<open>Status recorders\<close>

definition push_recorder :: "Response \<Rightarrow> Response" where
  "push_recorder w = w\<lparr>w_Recorders := (200, False) # w_Recorders w\<rparr>"

definition pop_recorder :: "Response \<Rightarrow> int \<times> Response" where
  "pop_recorder w = (fst (hd (w_Recorders w)), w\<lparr>w_Recorders := tl (w_Recorders w)\<rparr>)"

text \<open>
  \<open>Hijack\<close> through the stack: every recorder supports it itself, so only the outermost one depends
  on the connection; each notes the 101 before it passes the call on.
\<close>

definition recorder_Hijack :: "int \<times> bool \<Rightarrow> int \<times> bool" where
  "recorder_Hijack rec = (case rec of (status, wrote) \<Rightarrow> if \<not> wrote then (101, True) else (status, wrote))"

fun hijack :: "bool \<Rightarrow> (int \<times> bool) list \<Rightarrow> (int \<times> bool) list \<times> bool" where
  "hijack supported [] = ([], supported)"
| "hijack supported (rec # rest) =
     (if rest = [] \<and> \<not> supported then (rec # rest, False)
      else let (rest', ok) = hijack supported rest in (recorder_Hijack rec # rest', ok))"

record access_line =
  al_method :: string
  al_path :: string
  al_status :: int
  al_duration_ms :: int
  al_request_id :: string
  al_remote :: string

definition AccessLog :: "('s \<Rightarrow> int \<times> 's) \<Rightarrow> (access_line \<Rightarrow> 's \<Rightarrow> 's) \<Rightarrow> 's middleware" where
  "AccessLog now emit nxt r w s0 =
     (let (start, s) = now s0 in
      case nxt r (push_recorder w) s of
        (w1, s1, Some rec) \<Rightarrow> (snd (pop_recorder w1), s1, Some rec)
      | (w1, s1, None) \<Rightarrow>
          let (status, w2) = pop_recorder w1; (fin, s2) = now s1 in
          (w2, emit \<lparr>al_method = q_Method r, al_path = q_Path r, al_status = status,
                     al_duration_ms = go_quot (fin - start) 1000000,
                     al_request_id = RequestIDFromContext r, al_remote = q_RemoteAddr r\<rparr> s2, None))"

text \<open>
  The metrics middleware counts method, route pattern and status, and observes the duration;
  \<open>pattern\<close> is the chi route context after the handler has run.
\<close>

definition metrics_path :: "(Request \<Rightarrow> string) \<Rightarrow> Request \<Rightarrow> string" where
  "metrics_path pattern r = (if pattern r = '''' then ''unknown'' else pattern r)"

definition metrics_Middleware ::
  "(Request \<Rightarrow> string) \<Rightarrow> ('s \<Rightarrow> int \<times> 's) \<Rightarrow> (('h Metrics \<Rightarrow> 'h Metrics) \<Rightarrow> 's \<Rightarrow> 's) \<Rightarrow> 's middleware" where
  "metrics_Middleware pattern now upd nxt r w s0 =
     (let (start, s) = now s0 in
      case nxt r (push_recorder w) s of
        (w1, s1, Some rec) \<Rightarrow> (snd (pop_recorder w1), s1, Some rec)
      | (w1, s1, None) \<Rightarrow>
          let (status, w2) = pop_recorder w1; (fin, s2) = now s1; path = metrics_path pattern r in
          (w2, upd (observe_duration (q_Method r, path) (fin - start))
                 (upd (count_request (q_Method r, path, Itoa status)) s2), None))"

subsection \<open>Honest handlers\<close>

definition in_step :: "Response \<Rightarrow> int \<times> bool \<Rightarrow> bool" where
  "in_step w rec \<longleftrightarrow> rec = (case w_Sent w of None \<Rightarrow> (200, False) | Some (c, h) \<Rightarrow> (c, True))"

definition synced :: "Response \<Rightarrow> bool" where
  "synced w \<longleftrightarrow> list_all (in_step w) (w_Recorders w)"

definition agree :: "Response \<Rightarrow> bool" where
  "agree w \<longleftrightarrow> list_all (\<lambda>rec. fst rec = sent_status w) (w_Recorders w)"

lemma synced_agree: "synced w \<Longrightarrow> agree w"
  by (auto simp: synced_def agree_def in_step_def sent_status_def list_all_iff split: option.splits)

lemma synced_set_header [simp]: "synced (set_header k v w) = synced w"
  by (simp add: synced_def in_step_def set_header_def list_all_iff)

lemma recorders_set_header [simp]: "w_Recorders (set_header k v w) = w_Recorders w"
  by (simp add: set_header_def)

lemma sent_set_header [simp]: "w_Sent (set_header k v w) = w_Sent w"
  by (simp add: set_header_def)

lemma synced_WriteHeader: "synced w \<Longrightarrow> synced (WriteHeader c w)"
  by (cases "w_Sent w")
    (auto simp: synced_def in_step_def WriteHeader_def conn_WriteHeader_def recorder_WriteHeader_def list_all_iff)

lemma WriteHeader_frame [simp]:
  "length (w_Recorders (WriteHeader c w)) = length (w_Recorders w)" "w_Sent (WriteHeader c w) \<noteq> None"
  by (auto simp: WriteHeader_def conn_WriteHeader_def split: option.split)

lemma Write_started: "w_Sent w \<noteq> None \<Longrightarrow> synced (Write b w) = synced w \<and> w_Recorders (Write b w) = w_Recorders w"
  by (auto simp: synced_def in_step_def Write_def conn_WriteHeader_def Let_def list_all_iff)

lemma json_Encode_started: "w_Sent w \<noteq> None \<Longrightarrow> synced w \<Longrightarrow>
    synced (json_Encode j w) \<and> w_Recorders (json_Encode j w) = w_Recorders w"
  by (auto simp: json_Encode_def Write_started split: sum.split)

lemma synced_writeJSON: "synced w \<Longrightarrow> synced (writeJSON c j w) \<and> length (w_Recorders (writeJSON c j w)) = length (w_Recorders w)"
  by (simp add: writeJSON_def json_Encode_started synced_WriteHeader)

lemma synced_http_Error: "synced w \<Longrightarrow> synced (http_Error m c w) \<and> length (w_Recorders (http_Error m c w)) = length (w_Recorders w)"
proof -
  assume "synced w"
  moreover have "synced (w\<lparr>w_Header := h\<rparr>) = synced w" for h by (simp add: synced_def in_step_def list_all_iff)
  ultimately show ?thesis by (simp add: http_Error_def Let_def Write_started synced_WriteHeader)
qed

lemma synced_push: "synced w \<Longrightarrow> w_Sent w = None \<Longrightarrow> synced (push_recorder w)"
  by (simp add: synced_def in_step_def push_recorder_def list_all_iff)

lemma push_frame [simp]: "w_Sent (push_recorder w) = w_Sent w" "w_Recorders (push_recorder w) = (200, False) # w_Recorders w"
  by (simp_all add: push_recorder_def)

lemma pop_synced: "synced w \<Longrightarrow> synced (snd (pop_recorder w))"
  by (cases "w_Recorders w") (auto simp: synced_def in_step_def pop_recorder_def list_all_iff)

lemma pop_agree:
  assumes "agree w" and "w_Recorders w \<noteq> []"
  shows "agree (snd (pop_recorder w)) \<and> fst (pop_recorder w) = sent_status w
    \<and> sent_status (snd (pop_recorder w)) = sent_status w
    \<and> Suc (length (w_Recorders (snd (pop_recorder w)))) = length (w_Recorders w)"
  using assms
  by (cases "w_Recorders w") (auto simp: agree_def pop_recorder_def sent_status_def list_all_iff split: option.splits)

text \<open>
  The contract: started on a writer that has sent nothing, with every recorder at its initial value,
  the handler leaves all recorders with the status the client receives; when it panics they are
  still exactly in step, so that a later \<open>WriteHeader\<close> keeps them so.
\<close>

locale honest =
  fixes h :: "'s handler"
  assumes honest: "w_Sent w = None \<Longrightarrow> synced w \<Longrightarrow> h r w s = (w', s', p) \<Longrightarrow>
    agree w' \<and> length (w_Recorders w') = length (w_Recorders w) \<and> (p \<noteq> None \<longrightarrow> synced w')"
begin

lemma recovered: "w_Sent w = None \<Longrightarrow> synced w \<Longrightarrow> Recovery logPanic h r w s = (w', s', p) \<Longrightarrow>
    agree w' \<and> length (w_Recorders w') = length (w_Recorders w) \<and> p = None"
proof -
  assume w: "w_Sent w = None" "synced w" and run: "Recovery logPanic h r w s = (w', s', p)"
  obtain w1 s1 p1 where h: "h r w s = (w1, s1, p1)" by (cases "h r w s") auto
  note ok = honest [OF w h]
  show ?thesis
  proof (cases p1)
    case None
    with run h ok show ?thesis by (simp add: Recovery_def)
  next
    case (Some v)
    with ok have "synced w1" by simp
    from synced_http_Error [OF this] synced_agree run h Some ok show ?thesis by (auto simp: Recovery_def)
  qed
qed

lemma logged: "w_Sent w = None \<Longrightarrow> synced w \<Longrightarrow> h r (push_recorder w) s = (w1, s1, None) \<Longrightarrow>
    fst (pop_recorder w1) = sent_status w1 \<and> sent_status (snd (pop_recorder w1)) = sent_status w1"
proof -
  assume "w_Sent w = None" "synced w" and run: "h r (push_recorder w) s = (w1, s1, None)"
  then have "agree w1 \<and> length (w_Recorders w1) = length (w_Recorders (push_recorder w))"
    using honest [OF _ synced_push run] by simp
  then show ?thesis using pop_agree [of w1] by (cases "w_Recorders w1") auto
qed

end

lemma cors_headers_frame [simp]:
  "w_Sent (cors_headers cfg origin w) = w_Sent w" "w_Recorders (cors_headers cfg origin w) = w_Recorders w"
  "synced (cors_headers cfg origin w) = synced w"
  by (simp_all add: cors_headers_def)

lemma honest_CORS: "honest h \<Longrightarrow> honest (CORS cfg h)"
proof (unfold_locales, goal_cases)
  case (1 w r s w' s' p)
  define w1 where "w1 = cors_headers cfg (Header_Get (q_Header r) ''Origin'') w"
  have w1: "w_Sent w1 = None" "synced w1" "w_Recorders w1 = w_Recorders w"
    using 1 by (simp_all add: w1_def)
  have res: "(if q_Method r = ''OPTIONS'' then (WriteHeader 204 w1, s, None) else h r w1 s) = (w', s', p)"
    using 1(4) unfolding CORS_def Let_def w1_def .
  show ?case
  proof (cases "q_Method r = ''OPTIONS''")
    case True
    with res have "w' = WriteHeader 204 w1" "p = None" by auto
    then show ?thesis using synced_agree [OF synced_WriteHeader [OF w1(2)]] w1(3) by simp
  next
    case False
    with res have "h r w1 s = (w', s', p)" by simp
    from honest.honest [OF 1(1) w1(1,2) this] show ?thesis by (simp add: w1(3))
  qed
qed

lemma honest_Recovery: "honest h \<Longrightarrow> honest (Recovery logPanic h)"
proof (unfold_locales, goal_cases)
  case (1 w r s w' s' p)
  from honest.recovered [OF this] show ?case by simp
qed

lemma honest_RequestID: "honest h \<Longrightarrow> honest (RequestID newUUID h)"
proof (unfold_locales, goal_cases)
  case (1 w r s w' s' p)
  then obtain i s1 where "h (r\<lparr>q_RequestID := Some i\<rparr>) (set_header RequestIDHeader i w) s1 = (w', s', p)"
    by (auto simp: RequestID_def Let_def split: prod.splits)
  from honest.honest [OF 1(1) _ _ this] 1 show ?case by simp
qed

text \<open>The two middleware that record the status share their shape.\<close>

lemma honest_recording:
  assumes "honest h"
    and "\<And>r w s w1 s1 q. h r (push_recorder w) (enter s) = (w1, s1, q) \<Longrightarrow>
      \<exists>s2. mw h r w s = (snd (pop_recorder w1), s2, q)"
  shows "honest (mw h)"
proof (unfold_locales, goal_cases)
  case (1 w r s w' s' p)
  obtain w1 s1 q where run: "h r (push_recorder w) (enter s) = (w1, s1, q)"
    by (cases "h r (push_recorder w) (enter s)") auto
  have ok: "agree w1 \<and> length (w_Recorders w1) = Suc (length (w_Recorders w)) \<and> (q \<noteq> None \<longrightarrow> synced w1)"
    using honest.honest [OF assms(1) _ synced_push run] 1 by simp
  then have "w_Recorders w1 \<noteq> []" by auto
  with ok pop_agree [of w1] pop_synced [of w1] assms(2) [OF run] 1(3) show ?case by auto
qed

lemma honest_AccessLog: "honest h \<Longrightarrow> honest (AccessLog now emit h)"
  by (erule honest_recording [where enter = "\<lambda>s. snd (now s)"])
    (auto simp: AccessLog_def Let_def split_beta split: option.split)

lemma honest_metrics: "honest h \<Longrightarrow> honest (metrics_Middleware pattern now upd h)"
  by (erule honest_recording [where enter = "\<lambda>s. snd (now s)"])
    (auto simp: metrics_Middleware_def Let_def split_beta split: option.split)

lemmas honest_middleware = honest_CORS honest_Recovery honest_RequestID honest_AccessLog honest_metrics

subsection \<open>Tame handlers\<close>

text \<open>
  The second contract: the handler returns without a panic and leaves what \<open>obs\<close> shows of the world
  as it was. The two recording middleware, around a tame handler, add exactly one entry.
\<close>

locale tame =
  fixes obs :: "'s \<Rightarrow> 'o"
    and h :: "'s handler"
  assumes tame: "h r w s = (w', s', p) \<Longrightarrow> obs s' = obs s \<and> p = None"
begin

lemma tame_run: obtains w' s' where "h r w s = (w', s', None)" "obs s' = obs s"
  using tame by (cases "h r w s") auto

lemma recovery_idle: "Recovery logPanic h = h"
proof (intro ext)
  fix r w s
  obtain w' s' where "h r w s = (w', s', None)" by (rule tame_run)
  then show "Recovery logPanic h r w s = h r w s" by (simp add: Recovery_def)
qed

end

lemma tame_CORS: "tame obs h \<Longrightarrow> tame obs (CORS cfg h)"
  by (unfold_locales) (auto simp: CORS_def Let_def dest: tame.tame split: if_splits)

text \<open>One request through the metrics middleware.\<close>

lemma metrics_counts:
  assumes "honest h" and "tame obs h"
    and "\<And>s. obs (snd (now s)) = obs s"
    and "w_Sent w = None" and "synced w"
  shows "\<exists>w' s2 d. metrics_Middleware pattern now upd h r w s =
      (w', upd (observe_duration (q_Method r, metrics_path pattern r) d)
             (upd (count_request (q_Method r, metrics_path pattern r, Itoa (sent_status w'))) s2), None)
    \<and> obs s2 = obs s"
proof -
  obtain start s0 where start: "now s = (start, s0)" by fastforce
  obtain w1 s1 where run: "h r (push_recorder w) s0 = (w1, s1, None)" and obs1: "obs s1 = obs s0"
    using tame.tame_run [OF assms(2)] by metis
  obtain fin s2 where fin: "now s1 = (fin, s2)" by fastforce
  have "obs s2 = obs s" using assms(3) [of s] assms(3) [of s1] start fin obs1 by simp
  moreover have "fst (pop_recorder w1) = sent_status (snd (pop_recorder w1))"
    using honest.logged [OF assms(1,4,5) run] by simp
  ultimately show ?thesis
    by (intro exI [of _ "snd (pop_recorder w1)"] exI [of _ s2] exI [of _ "fin - start"])
      (simp add: metrics_Middleware_def start run fin split_beta Let_def)
qed

subsection \<open>Properties\<close>

definition cors_keys :: "string list" where
  "cors_keys = [''Access-Control-Allow-Origin'', ''Vary'', ''Access-Control-Allow-Methods'',
     ''Access-Control-Allow-Headers'', ''Access-Control-Max-Age'']"

lemma canon_cors_keys: "map CanonicalHeaderKey cors_keys = cors_keys"
  by code_simp

lemma cors_headers_value:
  "Header_Get (w_Header (cors_headers cfg origin w)) ''Access-Control-Allow-Origin'' =
     (if origin \<noteq> '''' \<and> origin_allowed cfg origin then origin
      else Header_Get (w_Header w) ''Access-Control-Allow-Origin'')"
  using canon_cors_keys by (simp add: cors_keys_def cors_headers_def set_header_def Header_Get_Set)

lemma cors_headers_other:
  "CanonicalHeaderKey k \<notin> set cors_keys \<Longrightarrow> Header_Get (w_Header (cors_headers cfg origin w)) k = Header_Get (w_Header w) k"
  using canon_cors_keys by (simp add: cors_keys_def cors_headers_def set_header_def Header_Get_Set)

lemma cors_headers_only: "cors_headers cfg origin w = w\<lparr>w_Header := w_Header (cors_headers cfg origin w)\<rparr>"
  by (simp add: cors_headers_def set_header_def)

text \<open>
  Property C30. The CORS policy: a response grants cross-origin access exactly when the request names
  an origin that the configuration allows, and then to that origin alone; no other header is touched.
  A preflight is answered with 204 and never reaches the handler; any other request reaches it
  whether or not its origin is allowed.
\<close>

theorem CORS_policy:
  assumes "fresh_writer w" and "Header_Get (w_Header w) ''Access-Control-Allow-Origin'' = ''''"
  shows "\<exists>w1. w1 = w\<lparr>w_Header := w_Header w1\<rparr>
    \<and> Header_Get (w_Header w1) ''Access-Control-Allow-Origin'' =
        (let origin = Header_Get (q_Header r) ''Origin'' in
         if http_CORSAllowAll cfg \<or> origin \<in> TrimSpace ` set (http_CORSOrigins cfg) then origin else '''')
    \<and> (\<forall>k. CanonicalHeaderKey k \<notin> set cors_keys \<longrightarrow> Header_Get (w_Header w1) k = Header_Get (w_Header w) k)
    \<and> (if q_Method r = ''OPTIONS''
       then \<exists>w2. CORS cfg nxt r w s = (w2, s, None) \<and> sent_status w2 = 204 \<and> w_Body w2 = []
              \<and> (\<forall>k. sent_header w2 k = Header_Get (w_Header w1) k)
       else CORS cfg nxt r w s = nxt r w1 s)"
proof (intro exI [of _ "cors_headers cfg (Header_Get (q_Header r) ''Origin'') w"] conjI)
  let ?w1 = "cors_headers cfg (Header_Get (q_Header r) ''Origin'') w"
  show "?w1 = w\<lparr>w_Header := w_Header ?w1\<rparr>" by (rule cors_headers_only)
  show "Header_Get (w_Header ?w1) ''Access-Control-Allow-Origin'' =
      (let origin = Header_Get (q_Header r) ''Origin'' in
       if http_CORSAllowAll cfg \<or> origin \<in> TrimSpace ` set (http_CORSOrigins cfg) then origin else '''')"
    using assms(2) by (auto simp: cors_headers_value origin_allowed_def Let_def)
  show "\<forall>k. CanonicalHeaderKey k \<notin> set cors_keys \<longrightarrow> Header_Get (w_Header ?w1) k = Header_Get (w_Header w) k"
    by (simp add: cors_headers_other)
  have "w_Body ?w1 = []" using assms(1) by (subst cors_headers_only) (simp add: fresh_writer_def)
  then show "if q_Method r = ''OPTIONS''
       then \<exists>w2. CORS cfg nxt r w s = (w2, s, None) \<and> sent_status w2 = 204 \<and> w_Body w2 = []
              \<and> (\<forall>k. sent_header w2 k = Header_Get (w_Header ?w1) k)
       else CORS cfg nxt r w s = nxt r ?w1 s"
    using assms(1)
    by (auto simp: CORS_def Let_def WriteHeader_def conn_WriteHeader_def sent_status_def sent_header_def fresh_writer_def)
qed

definition sample_cors :: HTTPConfig where
  "sample_cors = (s_HTTP (Unmarshal (map_of setDefaults)))\<lparr>http_CORSOrigins := ['' https://app.example'']\<rparr>"

definition preflight :: "string \<Rightarrow> Request" where
  "preflight origin = \<lparr>q_Method = ''OPTIONS'', q_Path = ''/api/v1/assets'', q_RemoteAddr = ''203.0.113.9:41000'',
     q_Header = Header_Set Map.empty ''Origin'' origin, q_Query = [], q_Params = [], q_RequestID = None\<rparr>"

theorem CORS_policy_witness:
  "(\<exists>w2. CORS sample_cors (\<lambda>r w s. (w, s, Some ''unreachable'')) (preflight ''https://app.example'') new_Response ()
       = (w2, (), None) \<and> sent_header w2 ''Access-Control-Allow-Origin'' = ''https://app.example'')
   \<and> (\<exists>w2. CORS sample_cors (\<lambda>r w s. (w, s, Some ''unreachable'')) (preflight ''https://evil.example'') new_Response ()
       = (w2, (), None) \<and> sent_header w2 ''Access-Control-Allow-Origin'' = '''')"
proof -
  have fresh: "fresh_writer new_Response" "Header_Get (w_Header new_Response) ''Access-Control-Allow-Origin'' = ''''"
    by (simp_all add: fresh_writer_def new_Response_def Header_Get_def)
  have origin: "Header_Get (q_Header (preflight x)) ''Origin'' = x" "q_Method (preflight x) = ''OPTIONS''" for x
    by (simp_all add: preflight_def Header_Get_Set)
  have "TrimSpace '' https://app.example'' = ''https://app.example''" by code_simp
  then have cfg: "http_CORSAllowAll sample_cors = False" "TrimSpace ` set (http_CORSOrigins sample_cors) = {''https://app.example''}"
    by (simp_all add: sample_cors_def default_scheme)
  show ?thesis
    using CORS_policy [OF fresh, where cfg = sample_cors and r = "preflight ''https://app.example''" and s = "()"
        and nxt = "\<lambda>r w s. (w, s, Some ''unreachable'')"]
      CORS_policy [OF fresh, where cfg = sample_cors and r = "preflight ''https://evil.example''" and s = "()"
        and nxt = "\<lambda>r w s. (w, s, Some ''unreachable'')"]
    unfolding origin cfg Let_def by auto
qed

end
