(* ===== verification/Routes.thy ===== *)
theory Routes
  imports Handlers Rate_Middleware Middleware Hub
begin

text \<open>
  The documentation page of \<open>internal/handlers/docs.go\<close> and the middleware stack of \<open>routes.go\<close>.
  The chi router's matching is a parameter (\<open>router\<close>): which requests fall under \<open>/api/v1\<close>, which
  registered pattern a request matches with which path parameters, and which is the WebSocket route;
  so is chi's own answer to unmatched requests. The handlers read the registry through the pointer
  in \<open>API\<close>, so the API record is a function of the world.
\<close>

subsection \<open>Documentation\<close>

definition swaggerUIVersion :: string where "swaggerUIVersion = ''5.17.14''"

definition newline :: string where "newline = [CHR 0x0A]"

definition swaggerUIHTML :: string where
  \<open>swaggerUIHTML =
     ''<!DOCTYPE html>'' @ newline
      @ ''<html lang="en">'' @ newline
      @ ''<head>'' @ newline
      @ ''    <meta charset="utf-8" />'' @ newline
      @ ''    <meta name="viewport" content="width=device-width, initial-scale=1" />'' @ newline
      @ ''    <title>EVM Oracle Demo API '' @ [CHR 0xE2, CHR 0x80, CHR 0x94] @ '' Swagger UI</title>'' @ newline
      @ ''    <link rel="stylesheet" href="https://unpkg.com/swagger-ui-dist@'' @ swaggerUIVersion @ ''/swagger-ui.css" />'' @ newline
      @ ''    <link rel="icon" type="image/png" href="https://unpkg.com/swagger-ui-dist@'' @ swaggerUIVersion @ ''/favicon-32x32.png" sizes="32x32" />'' @ newline
      @ ''    <style>'' @ newline
      @ ''        html { box-sizing: border-box; overflow-y: scroll; }'' @ newline
      @ ''        *, *:before, *:after { box-sizing: inherit; }'' @ newline
      @ ''        body { margin: 0; background: #fafafa; }'' @ newline
      @ ''    </style>'' @ newline
      @ ''</head>'' @ newline
      @ ''<body>'' @ newline
      @ ''    <div id="swagger-ui"></div>'' @ newline
      @ ''    <script src="https://unpkg.com/swagger-ui-dist@'' @ swaggerUIVersion @ ''/swagger-ui-bundle.js" crossorigin></script>'' @ newline
      @ ''    <script src="https://unpkg.com/swagger-ui-dist@'' @ swaggerUIVersion @ ''/swagger-ui-standalone-preset.js" crossorigin></script>'' @ newline
      @ ''    <script>'' @ newline
      @ ''        window.onload = function () {'' @ newline
      @ ''            window.ui = SwaggerUIBundle({'' @ newline
      @ ''                url: "/api/v1/openapi.yaml",'' @ newline
      @ ''                dom_id: "#swagger-ui",'' @ newline
      @ ''                deepLinking: true,'' @ newline
      @ ''                presets: ['' @ newline
      @ ''                    SwaggerUIBundle.presets.apis,'' @ newline
      @ ''                    SwaggerUIStandalonePreset'' @ newline
      @ ''                ],'' @ newline
      @ ''                plugins: ['' @ newline
      @ ''                    SwaggerUIBundle.plugins.DownloadUrl'' @ newline
      @ ''                ],'' @ newline
      @ ''                layout: "StandaloneLayout"'' @ newline
      @ ''            });'' @ newline
      @ ''        };'' @ newline
      @ ''    </script>'' @ newline
      @ ''</body>'' @ newline
      @ ''</html>'' @ newline
\<close>

definition Docs :: "Request \<Rightarrow> Response \<Rightarrow> Response" where
  "Docs r w =
     Write (BText swaggerUIHTML)
       (set_header ''Cache-Control'' ''no-cache'' (set_header ''Content-Type'' ''text/html; charset=utf-8'' w))"

text \<open>\<open>spec\<close> is the embedded \<open>openapi.yaml\<close>.\<close>

definition OpenAPISpec :: "string \<Rightarrow> Request \<Rightarrow> Response \<Rightarrow> Response" where
  "OpenAPISpec spec r w =
     Write (BText spec)
       (set_header ''Cache-Control'' ''no-cache'' (set_header ''Content-Type'' ''application/yaml; charset=utf-8'' w))"

subsection \<open>Routes\<close>

datatype endpoint =
    Ep_Health | Ep_ListAssets | Ep_GetAssetPrice | Ep_GetRequest | Ep_ListSubmissions | Ep_GetSubmission
  | Ep_Docs | Ep_OpenAPISpec

definition api_routes :: "(string \<times> endpoint) list" where
  "api_routes =
     [(''/health'', Ep_Health),
      (''/assets'', Ep_ListAssets),
      (''/assets/{id}/price'', Ep_GetAssetPrice),
      (''/requests/{reqId}'', Ep_GetRequest),
      (''/submissions'', Ep_ListSubmissions),
      (''/submissions/{id}'', Ep_GetSubmission),
      (''/docs'', Ep_Docs),
      (''/openapi.yaml'', Ep_OpenAPISpec)]"

definition serve_endpoint :: "keccak256 \<Rightarrow> string \<Rightarrow> API \<Rightarrow> endpoint \<Rightarrow> 's handler" where
  "serve_endpoint keccak spec a ep r w s =
     ((case ep of
         Ep_Health \<Rightarrow> Health a r w
       | Ep_ListAssets \<Rightarrow> ListAssets keccak a r w
       | Ep_GetAssetPrice \<Rightarrow> GetAssetPrice keccak a r w
       | Ep_GetRequest \<Rightarrow> GetRequest a r w
       | Ep_ListSubmissions \<Rightarrow> ListSubmissions a r w
       | Ep_GetSubmission \<Rightarrow> GetSubmission a r w
       | Ep_Docs \<Rightarrow> Docs r w
       | Ep_OpenAPISpec \<Rightarrow> OpenAPISpec spec r w), s, None)"

record router =
  rt_underAPI :: "Request \<Rightarrow> bool"
  rt_match :: "string list \<Rightarrow> Request \<Rightarrow> (string \<times> (string \<times> string) list) option"
  rt_isWS :: "Request \<Rightarrow> bool"

definition use_all :: "'s middleware list \<Rightarrow> 's middleware" where
  "use_all mws h = foldr (\<lambda>mw k. mw k) mws h"

definition api_mux :: "router \<Rightarrow> keccak256 \<Rightarrow> string \<Rightarrow> ('s \<Rightarrow> API) \<Rightarrow> 's handler \<Rightarrow> 's handler" where
  "api_mux rt keccak spec api unmatched r w s =
     (case rt_match rt (map fst api_routes) r of
        None \<Rightarrow> unmatched r w s
      | Some (pattern, params) \<Rightarrow>
          (case map_of api_routes pattern of
             None \<Rightarrow> unmatched r w s
           | Some ep \<Rightarrow> serve_endpoint keccak spec (api s) ep (r\<lparr>q_Params := params\<rparr>) w s))"

text \<open>\<open>ws\<close> is the handler that \<open>HandleWebSocket\<close> mounts, once it has been called.\<close>

definition root_mux ::
  "router \<Rightarrow> keccak256 \<Rightarrow> string \<Rightarrow> ('s \<Rightarrow> API) \<Rightarrow> 's middleware list \<Rightarrow> 's handler option \<Rightarrow> 's handler \<Rightarrow> 's handler" where
  "root_mux rt keccak spec api apiMiddleware ws unmatched r w s =
     (if rt_underAPI rt r then use_all apiMiddleware (api_mux rt keccak spec api unmatched) r w s
      else case ws of
        Some h \<Rightarrow> if rt_isWS rt r then h r w s else unmatched r w s
      | None \<Rightarrow> unmatched r w s)"

text \<open>\<open>Register\<close>: the stack around the root router, outermost first.\<close>

definition Register ::
  "('s \<Rightarrow> string \<times> 's) \<Rightarrow> ('s \<Rightarrow> int \<times> 's) \<Rightarrow> (access_line \<Rightarrow> 's \<Rightarrow> 's) \<Rightarrow> (string \<Rightarrow> string \<Rightarrow> 's \<Rightarrow> 's)
   \<Rightarrow> 's middleware list \<Rightarrow> 's middleware \<Rightarrow> 's handler \<Rightarrow> 's handler" where
  "Register newUUID now emit logPanic globalMiddleware corsMW mux =
     use_all ([RequestID newUUID, AccessLog now emit, Recovery logPanic] @ globalMiddleware @ [corsMW]) mux"

subsection \<open>The WebSocket endpoint\<close>

text \<open>
  \<open>Hub.Serve\<close> as a handler. What the gorilla upgrader decides is a parameter: it refuses the request
  with a status and text, or takes over the connection with \<open>Hijack\<close> and answers 101; should the
  connection not support that (\<open>hijackErr\<close> is the text the upgrader then sends), it answers 500.
  \<open>join\<close> registers the client; the handler returns when the client's read pump does.
\<close>

definition hub_Serve_http ::
  "(Request \<Rightarrow> (int \<times> string) option) \<Rightarrow> string option \<Rightarrow> ('s \<Rightarrow> 's) \<Rightarrow> 's handler" where
  "hub_Serve_http refused hijackErr join r w s =
     (case refused r of
        Some (code, msg) \<Rightarrow> (http_Error msg code w, s, None)
      | None \<Rightarrow>
          let (recs, _) = hijack (hijackErr = None) (w_Recorders w); w1 = w\<lparr>w_Recorders := recs\<rparr> in
          (case hijackErr of
             None \<Rightarrow> (w1\<lparr>w_Sent := Some (101, w_Header w)\<rparr>, join s, None)
           | Some msg \<Rightarrow> (http_Error msg 500 w1, s, None)))"

subsection \<open>Every endpoint is honest\<close>

lemma agree_Write: "w_Sent w = None \<Longrightarrow> synced w \<Longrightarrow> agree (Write b w) \<and> w_Recorders (Write b w) = w_Recorders w"
  by (auto simp: agree_def synced_def in_step_def Write_def conn_WriteHeader_def Let_def sent_status_def list_all_iff)

lemma agree_writeJSON: "synced w \<Longrightarrow> agree (writeJSON c j w) \<and> length (w_Recorders (writeJSON c j w)) = length (w_Recorders w)"
  using synced_writeJSON [of w] synced_agree by blast

lemma agree_writeError: "synced w \<Longrightarrow> agree (writeError c k m w) \<and> length (w_Recorders (writeError c k m w)) = length (w_Recorders w)"
  unfolding writeError_def by (rule agree_writeJSON)

interpretation endpoint: honest "serve_endpoint keccak spec a ep" for keccak spec a ep
proof (unfold_locales, goal_cases)
  case (1 w r s w' s' p)
  note agrees = agree_writeJSON [OF 1(2)] agree_writeError [OF 1(2)]
  have "agree (submission_answer res w) \<and> length (w_Recorders (submission_answer res w)) = length (w_Recorders w)" for res
    by (simp add: submission_answer_def agrees split: sum.split)
  with 1 agree_Write show ?case
    by (cases ep)
      (auto simp: serve_endpoint_def Health_def ListAssets_def GetAssetPrice_def GetRequest_def ListSubmissions_def
        GetSubmission_def Docs_def OpenAPISpec_def Let_def agrees split: option.splits sum.splits if_splits)
qed

lemma ratelimit_cases:
  obtains (pass) v s1 where "ratelimit_Middleware allow trusted bypass cbs h r w s = h r v s1"
      "w_Sent v = w_Sent w" "synced v = synced w" "w_Recorders v = w_Recorders w"
  | (refuse) v j s1 where "ratelimit_Middleware allow trusted bypass cbs h r w s = (json_Encode j (WriteHeader 429 v), s1, None)"
      "synced v = synced w" "w_Recorders v = w_Recorders w"
proof (cases "bypassed bypass r")
  case True
  show ?thesis by (rule pass [of w s]) (simp_all add: True ratelimit_Middleware_def)
next
  case False
  obtain res s1 where allow: "allow (ClientIP r trusted) s = (res, s1)" by fastforce
  show ?thesis
  proof (cases res)
    case (Inl e)
    show ?thesis by (rule pass [of w s1]) (simp_all add: False allow Inl ratelimit_Middleware_def)
  next
    case (Inr d)
    define v where "v = set_header ''X-RateLimit-Remaining'' (Itoa (d_Remaining d)) (set_header ''X-RateLimit-Limit'' (Itoa (d_Limit d)) w)"
    show ?thesis
    proof (cases "d_Allowed d")
      case True
      show ?thesis by (rule pass [of v s1]) (simp_all add: False allow Inr True ratelimit_Middleware_def v_def)
    next
      case refused: False
      show ?thesis
        by (rule refuse [of "json_rate_limited d" "set_header ''Content-Type'' ''application/json; charset=utf-8''
              (set_header ''Retry-After'' (Itoa (whole_seconds (d_RetryAfter d))) v)" "run_callbacks cbs s1"])
          (simp_all add: False allow Inr refused ratelimit_Middleware_def v_def)
    qed
  qed
qed

lemma honest_ratelimit:
  assumes "honest h"
  shows "honest (ratelimit_Middleware allow trusted bypass cbs h)"
proof (unfold_locales, goal_cases)
  case (1 w r s w' s' p)
  show ?case
  proof (cases rule: ratelimit_cases [of allow trusted bypass cbs h r w s])
    case (pass v s1)
    with 1 have "h r v s1 = (w', s', p)" "w_Sent v = None" "synced v" by simp_all
    from honest.honest [OF assms this(2,3,1)] pass(4) show ?thesis by simp
  next
    case (refuse v j s1)
    with 1 have "w' = json_Encode j (WriteHeader 429 v)" "p = None" "synced v" by simp_all
    then show ?thesis
      using json_Encode_started [of "WriteHeader 429 v" j] synced_WriteHeader [of v 429] synced_agree refuse(3) by auto
  qed
qed

lemma honest_use_all: "(\<And>mw h. mw \<in> set mws \<Longrightarrow> honest h \<Longrightarrow> honest (mw h)) \<Longrightarrow> honest h \<Longrightarrow> honest (use_all mws h)"
  by (induction mws) (simp_all add: use_all_def)

lemma honest_if:
  assumes "honest h" and "honest k"
  shows "honest (\<lambda>r w s. if P r then h r w s else k r w s)"
proof (unfold_locales, goal_cases)
  case (1 w r s w' s' p)
  then show ?case
    using honest.honest [OF assms(1) 1(1,2)] honest.honest [OF assms(2) 1(1,2)] by (cases "P r") simp_all
qed

lemma honest_api_mux:
  assumes "honest unmatched"
  shows "honest (api_mux rt keccak spec api unmatched)"
proof (unfold_locales, goal_cases)
  case (1 w r s w' s' p)
  then consider "unmatched r w s = (w', s', p)"
    | ep params where "serve_endpoint keccak spec (api s) ep (r\<lparr>q_Params := params\<rparr>) w s = (w', s', p)"
    by (auto simp: api_mux_def split: option.splits)
  then show ?case
    by cases (erule honest.honest [OF assms 1(1,2)], erule endpoint.honest [OF 1(1,2)])
qed

lemma hijack_supported: "hijack True recs = (map recorder_Hijack recs, True)"
  by (induction recs) simp_all

text \<open>On a connection that can be hijacked, the recorders note the 101 that goes out.\<close>

lemma honest_Serve_http: "honest (hub_Serve_http refused None join)"
proof (unfold_locales, goal_cases)
  case (1 w r s w' s' p)
  have init: "rec \<in> set (w_Recorders w) \<Longrightarrow> rec = (200, False)" for rec
    using 1(1,2) by (auto simp: synced_def in_step_def list_all_iff)
  from 1(3) consider
      code msg where "w' = http_Error msg code w" "p = None"
    | "w' = w\<lparr>w_Recorders := map recorder_Hijack (w_Recorders w), w_Sent := Some (101, w_Header w)\<rparr>" "p = None"
    by (auto simp: hub_Serve_http_def hijack_supported split: option.splits)
  then show ?case
  proof cases
    case 1
    with synced_http_Error [OF \<open>synced w\<close>] synced_agree show ?thesis by auto
  next
    case 2
    then show ?thesis using init by (force simp: agree_def sent_status_def list_all_iff recorder_Hijack_def)
  qed
qed

lemma honest_root_mux:
  assumes "\<And>mw h. mw \<in> set mws \<Longrightarrow> honest h \<Longrightarrow> honest (mw h)" and "honest ws" and "honest unmatched"
  shows "honest (root_mux rt keccak spec api mws (Some ws) unmatched)"
proof -
  let ?api = "use_all mws (api_mux rt keccak spec api unmatched)"
  have split: "root_mux rt keccak spec api mws (Some ws) unmatched =
      (\<lambda>r w s. if rt_underAPI rt r then ?api r w s
         else (\<lambda>r w s. if rt_isWS rt r then ws r w s else unmatched r w s) r w s)"
    by (simp add: fun_eq_iff root_mux_def)
  have "honest ?api" using assms(1) honest_api_mux [OF assms(3)] by (rule honest_use_all)
  then show ?thesis unfolding split by (intro honest_if assms(2,3))
qed

subsection \<open>Every endpoint is tame\<close>

interpretation endpoint_tame: tame obs "serve_endpoint keccak spec a ep" for obs keccak spec a ep
  by unfold_locales (simp add: serve_endpoint_def)

lemma tame_use_all: "(\<And>mw h. mw \<in> set mws \<Longrightarrow> tame obs h \<Longrightarrow> tame obs (mw h)) \<Longrightarrow> tame obs h \<Longrightarrow> tame obs (use_all mws h)"
  by (induction mws) (simp_all add: use_all_def)

lemma run_callbacks_obs:
  "(\<And>f c s. Some f \<in> set cbs \<Longrightarrow> obs (f c s) = obs s) \<Longrightarrow> obs (run_callbacks cbs s) = obs s"
  by (induction cbs arbitrary: s) (auto split: option.split)

lemma tame_ratelimit:
  assumes "tame obs h" and "\<And>k s. obs (snd (allow k s)) = obs s"
    and "\<And>f c s. Some f \<in> set cbs \<Longrightarrow> obs (f c s) = obs s"
  shows "tame obs (ratelimit_Middleware allow trusted bypass cbs h)"
proof (unfold_locales, goal_cases)
  case (1 r w s w' s' p)
  show ?case
  proof (cases "bypassed bypass r")
    case True
    with 1 show ?thesis by (auto simp: ratelimit_Middleware_def dest: tame.tame [OF assms(1)])
  next
    case False
    obtain res s1 where allow: "allow (ClientIP r trusted) s = (res, s1)" by fastforce
    then have obs: "obs s1 = obs s" using assms(2) [of "ClientIP r trusted" s] by simp
    have "obs (run_callbacks cbs s1) = obs s1" by (rule run_callbacks_obs) (rule assms(3))
    then show ?thesis
      using 1 False allow obs
      by (auto simp: ratelimit_Middleware_def Let_def dest: tame.tame [OF assms(1)] split: sum.splits if_splits)
  qed
qed

lemma tame_api_mux: "tame obs unmatched \<Longrightarrow> tame obs (api_mux rt keccak spec api unmatched)"
  by unfold_locales
    (auto simp: api_mux_def dest: tame.tame endpoint_tame.tame split: option.splits)

lemma tame_Serve_http: "(\<And>s. obs (join s) = obs s) \<Longrightarrow> tame obs (hub_Serve_http refused hijackErr join)"
  by unfold_locales (auto simp: hub_Serve_http_def Let_def split: option.splits prod.splits if_splits)

lemma tame_root_mux:
  assumes "\<And>mw h. mw \<in> set mws \<Longrightarrow> tame obs h \<Longrightarrow> tame obs (mw h)" and "tame obs ws" and "tame obs unmatched"
  shows "tame obs (root_mux rt keccak spec api mws (Some ws) unmatched)"
proof -
  have "tame obs (use_all mws (api_mux rt keccak spec api unmatched))"
    using assms(1) tame_api_mux [OF assms(3)] by (rule tame_use_all)
  then show ?thesis
    by unfold_locales
      (auto simp: root_mux_def dest: tame.tame tame.tame [OF assms(2)] tame.tame [OF assms(3)] split: if_splits)
qed

end
