(* ===== verification/Servers.thy ===== *)
theory Servers
  imports Routes
begin

text \<open>
  The two listeners: the public one of \<open>internal/server/server.go\<close> and the operators' one of
  \<open>internal/healthz/server.go\<close>. Listening and the graceful shutdown are net/http's; what they return
  is a parameter. The router is kept as the handler it is for a given WebSocket handler, since
  \<open>HandleWebSocket\<close> mounts that one later.
\<close>

subsection \<open>Listen addresses\<close>

definition JoinHostPort :: "string \<Rightarrow> string \<Rightarrow> string" where
  "JoinHostPort host port =
     (if CHR '':'' \<in> set host then ''['' @ host @ '']:'' @ port else host @ '':'' @ port)"

subsection \<open>Error texts\<close>

definition sentinel_text :: "sentinel \<Rightarrow> string" where
  "sentinel_text s =
     (case s of
        Price_ErrNotFound \<Rightarrow> ''asset not tracked by price-service''
      | Indexer_ErrNotFound \<Rightarrow> ''request not observed by indexer''
      | Oracle_ErrNotFound \<Rightarrow> ''submission not found''
      | Oracle_ErrInvalidArgument \<Rightarrow> ''invalid submission lookup key''
      | IO_EOF \<Rightarrow> ''EOF''
      | Context_Canceled \<Rightarrow> ''context canceled''
      | Context_DeadlineExceeded \<Rightarrow> ''context deadline exceeded''
      | HTTP_ErrServerClosed \<Rightarrow> ''http: Server closed'')"

text \<open>\<open>Error()\<close>; the name of a gRPC code inside the text of a status is a parameter.\<close>

fun error_text :: "(grpc_code \<Rightarrow> string) \<Rightarrow> go_error \<Rightarrow> string" where
  "error_text nm (ErrSentinel s) = sentinel_text s"
| "error_text nm (ErrText t) = t"
| "error_text nm (ErrStatus c d) = ''rpc error: code = '' @ nm c @ '' desc = '' @ d"
| "error_text nm (ErrWrap t e) = t @ '': '' @ error_text nm e"
| "error_text nm (ErrJoin []) = ''''"
| "error_text nm (ErrJoin [e]) = error_text nm e"
| "error_text nm (ErrJoin (e # f # es)) = error_text nm e @ newline @ error_text nm (ErrJoin (f # es))"

subsection \<open>The public server\<close>

text \<open>What the handlers get from their surroundings.\<close>

record 's platform =
  pf_newUUID :: "'s \<Rightarrow> string \<times> 's"
  pf_now :: "'s \<Rightarrow> int \<times> 's"
  pf_emit :: "access_line \<Rightarrow> 's \<Rightarrow> 's"
  pf_logPanic :: "string \<Rightarrow> string \<Rightarrow> 's \<Rightarrow> 's"
  pf_router :: router
  pf_unmatched :: "'s handler"
  pf_keccak :: keccak256
  pf_spec :: string

record 's Server =
  sv_cfg :: HTTPConfig
  sv_Addr :: string
  sv_ReadTimeout :: int
  sv_WriteTimeout :: int
  sv_IdleTimeout :: int
  sv_routes :: "'s handler option \<Rightarrow> 's handler"
  sv_ws :: "'s handler option"

definition server_New ::
  "'s platform \<Rightarrow> HTTPConfig \<Rightarrow> ('s \<Rightarrow> API) \<Rightarrow> 's middleware list \<Rightarrow> 's middleware list \<Rightarrow> 's Server go_result" where
  "server_New pf cfg api globalMiddleware apiMiddleware =
     (case parse_or ''parse http.read_timeout'' (http_ReadTimeout cfg) of
        Inl err \<Rightarrow> Inl err
      | Inr read \<Rightarrow>
     (case parse_or ''parse http.write_timeout'' (http_WriteTimeout cfg) of
        Inl err \<Rightarrow> Inl err
      | Inr write \<Rightarrow>
     (case parse_or ''parse http.idle_timeout'' (http_IdleTimeout cfg) of
        Inl err \<Rightarrow> Inl err
      | Inr idle \<Rightarrow>
          Inr \<lparr>sv_cfg = cfg, sv_Addr = JoinHostPort (http_Host cfg) (Itoa (http_Port cfg)),
               sv_ReadTimeout = read, sv_WriteTimeout = write, sv_IdleTimeout = idle,
               sv_routes = (\<lambda>ws. Register (pf_newUUID pf) (pf_now pf) (pf_emit pf) (pf_logPanic pf)
                              globalMiddleware (CORS cfg)
                              (root_mux (pf_router pf) (pf_keccak pf) (pf_spec pf) api apiMiddleware ws (pf_unmatched pf))),
               sv_ws = None\<rparr>)))"

definition HandleWebSocket :: "'s handler \<Rightarrow> 's Server \<Rightarrow> 's Server" where
  "HandleWebSocket h s = s\<lparr>sv_ws := Some h\<rparr>"

text \<open>The handler a request to the listener meets.\<close>

definition server_Handler :: "'s Server \<Rightarrow> 's handler" where
  "server_Handler s = sv_routes s (sv_ws s)"

text \<open>\<open>Serve\<close>, given what \<open>ListenAndServe\<close> returns; the comparison is by identity, not \<open>errors.Is\<close>.\<close>

definition server_Serve :: "go_error option \<Rightarrow> go_error option" where
  "server_Serve listen =
     (case listen of
        Some err \<Rightarrow> if err \<noteq> ErrSentinel HTTP_ErrServerClosed then Some (ErrWrap ''http.ListenAndServe'' err) else None
      | None \<Rightarrow> None)"

text \<open>\<open>Shutdown\<close> passes on what the graceful shutdown of net/http returns.\<close>

definition server_Shutdown :: "go_error option \<Rightarrow> go_error option" where
  [simp]: "server_Shutdown shutdown = shutdown"

subsection \<open>The operators' server\<close>

record Healthz =
  hs_cfg :: HealthzConfig
  hs_Addr :: string
  hs_ReadHeaderTimeout :: int
  hs_ready :: "(Request \<Rightarrow> go_error option) option"
  hs_version :: string
  hs_service :: string

text \<open>The constructor has an error result and never uses it.\<close>

definition healthz_New ::
  "HealthzConfig \<Rightarrow> string \<Rightarrow> string \<Rightarrow> (Request \<Rightarrow> go_error option) option \<Rightarrow> Healthz go_result" where
  "healthz_New cfg service version ready =
     Inr \<lparr>hs_cfg = cfg, hs_Addr = JoinHostPort (hz_Host cfg) (Itoa (hz_Port cfg)),
          hs_ReadHeaderTimeout = 5 * second, hs_ready = ready, hs_version = version, hs_service = service\<rparr>"

definition healthz_Serve :: "go_error option \<Rightarrow> go_error option" where
  "healthz_Serve listen =
     (case listen of
        Some err \<Rightarrow> if err \<noteq> ErrSentinel HTTP_ErrServerClosed then Some (ErrWrap ''healthz ListenAndServe'' err) else None
      | None \<Rightarrow> None)"

definition healthz_Shutdown :: "go_error option \<Rightarrow> go_error option" where
  [simp]: "healthz_Shutdown shutdown = shutdown"

definition healthz_writeJSON :: "int \<Rightarrow> json \<Rightarrow> Response \<Rightarrow> Response" where
  "healthz_writeJSON status body w =
     json_Encode body (WriteHeader status (set_header ''Content-Type'' ''application/json; charset=utf-8'' w))"

definition handleHealthz :: "Healthz \<Rightarrow> Request \<Rightarrow> Response \<Rightarrow> Response" where
  "handleHealthz s r w =
     healthz_writeJSON 200
       (json_map [(''status'', JStr ''ok''), (''service'', JStr (hs_service s)), (''version'', JStr (hs_version s))]) w"

definition handleReadyz :: "(grpc_code \<Rightarrow> string) \<Rightarrow> Healthz \<Rightarrow> Request \<Rightarrow> Response \<Rightarrow> Response" where
  "handleReadyz nm s r w =
     (case hs_ready s of
        None \<Rightarrow> healthz_writeJSON 200 (json_map [(''status'', JStr ''ready'')]) w
      | Some ready \<Rightarrow>
          (case ready r of
             Some err \<Rightarrow>
               healthz_writeJSON 503 (json_map [(''status'', JStr ''not_ready''), (''error'', JStr (error_text nm err))]) w
           | None \<Rightarrow> healthz_writeJSON 200 (json_map [(''status'', JStr ''ready'')]) w))"

text \<open>
  The mux of the operators' server on clean paths (net/http redirects others first); \<open>metrics\<close> is
  promhttp's handler for the registry.
\<close>

definition healthz_mux ::
  "(grpc_code \<Rightarrow> string) \<Rightarrow> Healthz \<Rightarrow> (Request \<Rightarrow> Response \<Rightarrow> Response) \<Rightarrow> Request \<Rightarrow> Response \<Rightarrow> Response" where
  "healthz_mux nm s metrics r w =
     (if q_Path r = ''/healthz'' then handleHealthz s r w
      else if q_Path r = ''/readyz'' then handleReadyz nm s r w
      else if q_Path r = ''/metrics'' then metrics r w
      else http_Error ''404 page not found'' 404 w)"

subsection \<open>Facts\<close>

lemma healthz_writeJSON_same [simp]: "healthz_writeJSON = writeJSON"
  by (simp add: fun_eq_iff healthz_writeJSON_def writeJSON_def)

lemma parse_or_Inr: "parse_or what t = Inr d \<longleftrightarrow> ParseDuration t = Some d"
  by (auto simp: parse_or_def split: option.split)

lemma server_New_ok:
  "(\<exists>s. server_New pf cfg api g mws = Inr s) \<longleftrightarrow>
     ParseDuration (http_ReadTimeout cfg) \<noteq> None \<and> ParseDuration (http_WriteTimeout cfg) \<noteq> None
     \<and> ParseDuration (http_IdleTimeout cfg) \<noteq> None"
  by (auto simp: server_New_def parse_or_def split: option.split)

lemma takeWhile_upto: "c \<notin> set a \<Longrightarrow> takeWhile (\<lambda>x. x \<noteq> c) (a @ c # b) = a"
  by (induction a) auto

lemma last_index_append:
  assumes "c \<notin> set b"
  shows "last_index_byte (a @ c # b) c = Some (length a)"
  using assms by (simp add: last_index_byte_def index_byte_def takeWhile_upto)

lemma index_first: "c \<notin> set a \<Longrightarrow> index_byte (a @ c # b) c = Some (length a)"
  by (simp add: index_byte_def takeWhile_upto)

text \<open>The listen address names the configured host and port, also for an IPv6 literal.\<close>

lemma Split_JoinHostPort:
  assumes "set host \<inter> {CHR ''['', CHR '']''} = {}" and "set port \<inter> {CHR ''['', CHR '']'', CHR '':''} = {}"
  shows "SplitHostPort (JoinHostPort host port) = Some (host, port)"
proof (cases "CHR '':'' \<in> set host")
  case True
  have "last_index_byte ((''['' @ host @ '']'') @ CHR '':'' # port) (CHR '':'') = Some (length host + 2)"
    using assms(2) by (subst last_index_append) auto
  moreover have "index_byte ((CHR ''['' # host) @ CHR '']'' # '':'' @ port) (CHR '']'') = Some (length host + 1)"
    using assms(1) by (subst index_first) auto
  ultimately show ?thesis
    using assms True by (auto simp: JoinHostPort_def SplitHostPort_def)
next
  case False
  have "last_index_byte (host @ CHR '':'' # port) (CHR '':'') = Some (length host)"
    using assms(2) by (subst last_index_append) auto
  moreover have "hd (host @ CHR '':'' # port) \<noteq> CHR ''[''" using assms(1) by (cases host) auto
  ultimately show ?thesis
    using assms False by (auto simp: JoinHostPort_def SplitHostPort_def)
qed

lemma listener_errors:
  "server_Serve (Some (ErrSentinel HTTP_ErrServerClosed)) = None"
  "server_Serve (Some e) = Some e' \<Longrightarrow> e' = ErrWrap ''http.ListenAndServe'' e"
  by (auto simp: server_Serve_def split: if_splits)

end
