(* ===== verification/Modules.thy ===== *)
theory Modules
  imports Go_Strings
begin

text \<open>
  The module manager of \<open>internal/module\<close>. A module is its name and its four lifecycle methods, each
  an action on the world that may report an error; the manager holds its modules in registration
  order. The methods hold the manager's lock for their whole body.
\<close>

record 's Module =
  mod_Name :: string
  mod_Init :: "'s action"
  mod_Start :: "'s action"
  mod_Stop :: "'s action"
  mod_HealthCheck :: "'s action"

record 's Manager =
  mg_modules :: "'s Module list"

definition NewManager :: "'s Manager" where
  "NewManager = \<lparr>mg_modules = []\<rparr>"

definition manager_Register :: "'s Module \<Rightarrow> 's Manager \<Rightarrow> 's Manager" where
  "manager_Register module m = m\<lparr>mg_modules := mg_modules m @ [module]\<rparr>"

text \<open>The loops of \<open>InitAll\<close> and \<open>StartAll\<close>: in order, up to the first error.\<close>

fun init_loop :: "'s Module list \<Rightarrow> 's action" where
  "init_loop [] s = (None, s)"
| "init_loop (m # ms) s =
     (case mod_Init m s of
        (Some err, s1) \<Rightarrow> (Some (ErrWrap (''failed to init module '' @ mod_Name m) err), s1)
      | (None, s1) \<Rightarrow> init_loop ms s1)"

fun start_loop :: "'s Module list \<Rightarrow> 's action" where
  "start_loop [] s = (None, s)"
| "start_loop (m # ms) s =
     (case mod_Start m s of
        (Some err, s1) \<Rightarrow> (Some (ErrWrap (''failed to start module '' @ mod_Name m) err), s1)
      | (None, s1) \<Rightarrow> start_loop ms s1)"

definition InitAll :: "'s Manager \<Rightarrow> 's action" where
  "InitAll m = init_loop (mg_modules m)"

definition StartAll :: "'s Manager \<Rightarrow> 's action" where
  "StartAll m = start_loop (mg_modules m)"

text \<open>The loop of \<open>StopAll\<close>; \<open>Suc i\<close> modules are still to be stopped, the one at index \<open>i\<close> next.\<close>

fun stop_loop :: "'s Module list \<Rightarrow> nat \<Rightarrow> go_error option \<Rightarrow> 's action" where
  "stop_loop ms 0 firstError s = (firstError, s)"
| "stop_loop ms (Suc i) firstError s =
     (let (err, s1) = mod_Stop (ms ! i) s in
      case err of
        Some e \<Rightarrow> stop_loop ms i (if firstError = None then Some e else firstError) s1
      | None \<Rightarrow> stop_loop ms i firstError s1)"

definition StopAll :: "'s Manager \<Rightarrow> 's action" where
  "StopAll m s =
     (case stop_loop (mg_modules m) (length (mg_modules m)) None s of
        (Some firstError, s1) \<Rightarrow> (Some (ErrWrap ''one or more modules failed to stop'' firstError), s1)
      | (None, s1) \<Rightarrow> (None, s1))"

fun health_loop :: "'s Module list \<Rightarrow> (string \<rightharpoonup> go_error option) \<Rightarrow> 's \<Rightarrow> (string \<rightharpoonup> go_error option) \<times> 's" where
  "health_loop [] results s = (results, s)"
| "health_loop (m # ms) results s =
     (let (err, s1) = mod_HealthCheck m s in health_loop ms (results(mod_Name m \<mapsto> err)) s1)"

definition HealthCheckAll :: "'s Manager \<Rightarrow> 's \<Rightarrow> (string \<rightharpoonup> go_error option) \<times> 's" where
  "HealthCheckAll m s = health_loop (mg_modules m) Map.empty s"

definition manager_List :: "'s Manager \<Rightarrow> 's Module list" where
  "manager_List m = mg_modules m"

definition manager_Count :: "'s Manager \<Rightarrow> nat" where
  "manager_Count m = length (mg_modules m)"

subsection \<open>Facts\<close>

lemma stop_loop_run:
  "i \<le> length ms \<Longrightarrow> stop_loop ms i fe s =
     (let (es, s1) = run_each (map mod_Stop (rev (take i ms))) s in (first_err (fe # es), s1))"
proof (induction i arbitrary: fe s)
  case 0
  show ?case by (cases fe) simp_all
next
  case (Suc i)
  then have "rev (take (Suc i) ms) = ms ! i # rev (take i ms)" by (simp add: take_Suc_conv_app_nth)
  with Suc show ?case by (cases fe) (auto simp: Let_def split_beta split: option.split)
qed

lemma StopAll_run:
  "StopAll m s = (let (es, s1) = run_each (map mod_Stop (rev (mg_modules m))) s in
     (map_option (ErrWrap ''one or more modules failed to stop'') (first_err es), s1))"
  by (auto simp: StopAll_def stop_loop_run Let_def split_beta split: option.split)

text \<open>Both start-up loops run a prefix of the modules.\<close>

lemma init_loop_ok:
  assumes "run_each (map mod_Init ms) s = (es, s1)" and "list_all (\<lambda>e. e = None) es"
  shows "init_loop ms s = (None, s1)"
  using assms by (induction ms arbitrary: s es s1) (auto simp: Let_def split: prod.splits option.splits)

lemma init_loop_fails:
  assumes "run_each (map mod_Init pre) s = (es, s1)" and "list_all (\<lambda>e. e = None) es"
    and "mod_Init m s1 = (Some err, s2)"
  shows "init_loop (pre @ m # post) s = (Some (ErrWrap (''failed to init module '' @ mod_Name m) err), s2)"
  using assms by (induction pre arbitrary: s es s1) (auto simp: Let_def split: prod.splits option.splits)

lemma start_loop_ok:
  assumes "run_each (map mod_Start ms) s = (es, s1)" and "list_all (\<lambda>e. e = None) es"
  shows "start_loop ms s = (None, s1)"
  using assms by (induction ms arbitrary: s es s1) (auto simp: Let_def split: prod.splits option.splits)

lemma start_loop_fails:
  assumes "run_each (map mod_Start pre) s = (es, s1)" and "list_all (\<lambda>e. e = None) es"
    and "mod_Start m s1 = (Some err, s2)"
  shows "start_loop (pre @ m # post) s = (Some (ErrWrap (''failed to start module '' @ mod_Name m) err), s2)"
  using assms by (induction pre arbitrary: s es s1) (auto simp: Let_def split: prod.splits option.splits)

lemma health_loop_run:
  "health_loop ms results s =
     (let (es, s1) = run_each (map mod_HealthCheck ms) s in (map_fill results (zip (map mod_Name ms) es), s1))"
  by (induction ms arbitrary: results s) (auto simp: Let_def split_beta)

lemma HealthCheckAll_run:
  assumes "distinct (map mod_Name (mg_modules m))"
    and "run_each (map mod_HealthCheck (mg_modules m)) s = (es, s1)"
  shows "HealthCheckAll m s = (map_of (zip (map mod_Name (mg_modules m)) es), s1)"
proof -
  have "length es = length (mg_modules m)" using assms(2) length_run_each [of "map mod_HealthCheck (mg_modules m)" s] by simp
  then have "map fst (zip (map mod_Name (mg_modules m)) es) = map mod_Name (mg_modules m)" by simp
  then show ?thesis using assms by (simp add: HealthCheckAll_def health_loop_run map_fill_distinct)
qed

subsection \<open>Properties\<close>

text \<open>
  Modules that were registered in some order are all stopped, in the reverse order and
  whatever errors occur; the error \<open>StopAll\<close> reports wraps the first one that occurred, and there is
  none exactly when no module failed to stop.
\<close>

theorem StopAll_reverse_order:
  fixes ms :: "'s Module list"
  assumes "m = fold manager_Register ms NewManager"
    and "run_each (map mod_Stop (rev ms)) s = (es, s')"
  shows "StopAll m s = (map_option (ErrWrap ''one or more modules failed to stop'') (first_err es), s')
    \<and> length es = manager_Count m \<and> (fst (StopAll m s) = None \<longleftrightarrow> list_all (\<lambda>e. e = None) es)"
proof -
  have "mg_modules (fold manager_Register ms m0) = mg_modules m0 @ ms" for m0
    by (induction ms arbitrary: m0) (simp_all add: manager_Register_def)
  then have ms: "mg_modules m = ms" by (simp add: assms(1) NewManager_def)
  have "length es = length ms" using assms(2) length_run_each [of "map mod_Stop (rev ms)" s] by simp
  then show ?thesis by (simp add: StopAll_run ms assms(2) manager_Count_def first_err_None_iff)
qed

definition log_module :: "string \<Rightarrow> go_error option \<Rightarrow> string list Module" where
  "log_module n e = \<lparr>mod_Name = n, mod_Init = (\<lambda>s. (None, s)), mod_Start = (\<lambda>s. (None, s)),
     mod_Stop = (\<lambda>s. (e, s @ [n])), mod_HealthCheck = (\<lambda>s. (None, s))\<rparr>"

theorem StopAll_reverse_order_witness:
  "StopAll (fold manager_Register
       [log_module ''db'' (Some (ErrText ''late'')), log_module ''cache'' (Some (ErrText ''busy'')), log_module ''api'' None]
       NewManager) [] =
     (Some (ErrWrap ''one or more modules failed to stop'' (ErrText ''busy'')), [''api'', ''cache'', ''db''])"
proof -
  have "run_each (map mod_Stop (rev
       [log_module ''db'' (Some (ErrText ''late'')), log_module ''cache'' (Some (ErrText ''busy'')), log_module ''api'' None])) []
     = ([None, Some (ErrText ''busy''), Some (ErrText ''late'')], [''api'', ''cache'', ''db''])"
    by (simp add: log_module_def)
  from StopAll_reverse_order [OF refl this] show ?thesis by simp
qed

end
