(* ===== verification/Version.thy ===== *)
theory Version
  imports Go_Strings
begin

text \<open>
  Build metadata, \<open>pkg/version/version.go\<close>. The variables bound at link time are the record \<open>build\<close>.
  Dates are a type parameter: the clock, the parser for the layout, and the two renderings the
  template asks for are the record \<open>calendar\<close>; the title-casing of a word is a parameter too.
\<close>

definition unspecified :: string where "unspecified = ''unspecified''"

definition dateLayout :: string where "dateLayout = ''2006-01-02T15:04:05ZMST''"

definition defaultTag :: string where "defaultTag = ''v0.0.0''"

record build =
  b_ServiceName :: string
  b_CommitTag :: string
  b_CommitSHA :: string
  b_CommitBranch :: string
  b_OriginURL :: string
  b_BuildDate :: string
  b_Release :: string

record 'd calendar =
  cal_now :: 'd
  cal_Parse :: "string \<Rightarrow> string \<Rightarrow> 'd go_result"
  cal_String :: "'d \<Rightarrow> string"
  cal_Year :: "'d \<Rightarrow> string"

record 'd Version =
  v_Service :: string
  v_Tag :: string
  v_Commit :: string
  v_Branch :: string
  v_URL :: string
  v_Date :: 'd
  v_msg :: string

definition TrimSuffix :: "string \<Rightarrow> string \<Rightarrow> string" where
  "TrimSuffix s suf =
     (if length suf \<le> length s \<and> drop (length s - length suf) s = suf then take (length s - length suf) s else s)"

definition IfSpecified :: "'d Version \<Rightarrow> bool" where
  "IfSpecified v \<longleftrightarrow>
     \<not> (v_Service v = unspecified \<or> v_Commit v = unspecified \<or> v_Branch v = unspecified \<or> v_URL v = unspecified)"

definition GetName :: "(string \<Rightarrow> string) \<Rightarrow> 'd Version \<Rightarrow> string" where
  "GetName title v = title (v_Service v)"

text \<open>The template \<open>verTemplate\<close>, as the function of the version that executing it computes.\<close>

definition verTemplate :: "(string \<Rightarrow> string) \<Rightarrow> 'd calendar \<Rightarrow> 'd Version \<Rightarrow> string" where
  "verTemplate title cal v =
     GetName title v @ '' '' @ v_Tag v @ [CHR 0x0A]
     @ (if IfSpecified v
        then ''Branch '' @ v_Branch v @ '', commit hash: '' @ v_Commit v @ [CHR 0x0A]
             @ ''Origin repository: '' @ v_URL v @ [CHR 0x0A]
             @ ''Compiled at: '' @ cal_String cal (v_Date v) @ [CHR 0x0A]
             @ [CHR 0xC2, CHR 0xA9] @ cal_Year cal (v_Date v) @ '' ''
        else '''')
     @ [CHR 0x0A]"

definition initTemplate :: "(string \<Rightarrow> string) \<Rightarrow> 'd calendar \<Rightarrow> 'd Version \<Rightarrow> 'd Version" where
  "initTemplate title cal v = v\<lparr>v_msg := v_msg v @ verTemplate title cal v\<rparr>"

definition build_date :: "'d calendar \<Rightarrow> build \<Rightarrow> 'd go_result" where
  "build_date cal b =
     (if b_BuildDate b = unspecified then Inr (cal_now cal)
      else case cal_Parse cal dateLayout (b_BuildDate b) of
        Inl err \<Rightarrow> Inl (ErrWrap ''parse build date'' err)
      | Inr d \<Rightarrow> Inr d)"

definition NewVersion :: "(string \<Rightarrow> string) \<Rightarrow> 'd calendar \<Rightarrow> build \<Rightarrow> 'd Version go_result" where
  "NewVersion title cal b =
     (case build_date cal b of
        Inl err \<Rightarrow> Inl err
      | Inr date \<Rightarrow>
          let tag = (if b_CommitTag b = '''' \<or> b_CommitTag b = unspecified then defaultTag else b_CommitTag b);
              ver = \<lparr>v_Service = b_ServiceName b, v_Tag = tag, v_Commit = b_CommitSHA b, v_Branch = b_CommitBranch b,
                     v_URL = TrimSuffix (b_OriginURL b) ''.git'', v_Date = date, v_msg = ''''\<rparr>;
              ver1 = (if b_Release b \<noteq> unspecified then ver\<lparr>v_Tag := b_Release b\<rparr> else ver)
          in Inr (initTemplate title cal ver1))"

definition version_String :: "'d Version \<Rightarrow> string" where
  "version_String v = v_msg v"

subsection \<open>Facts\<close>

lemma TrimSuffix_append: "TrimSuffix (s @ suf) suf = s"
  by (simp add: TrimSuffix_def)

text \<open>The only failure is a build date that does not parse; a release always names the version.\<close>

lemma NewVersion_fails_iff:
  "(\<exists>e. NewVersion title cal b = Inl e) \<longleftrightarrow>
     b_BuildDate b \<noteq> unspecified \<and> (\<exists>e. cal_Parse cal dateLayout (b_BuildDate b) = Inl e)"
  by (auto simp: NewVersion_def build_date_def Let_def split: sum.split)

lemma NewVersion_tag:
  assumes "NewVersion title cal b = Inr v"
  shows "v_Tag v = (if b_Release b \<noteq> unspecified then b_Release b
     else if b_CommitTag b \<in> {'''', unspecified} then ''v0.0.0'' else b_CommitTag b)"
  using assms
  by (auto simp: NewVersion_def build_date_def initTemplate_def Let_def defaultTag_def split: sum.splits if_splits)

text \<open>Unless every build variable is set, the message is the name, the tag and an empty line.\<close>

lemma NewVersion_message:
  assumes "NewVersion title cal b = Inr v"
    and "b_ServiceName b = unspecified \<or> b_CommitSHA b = unspecified \<or> b_CommitBranch b = unspecified"
  shows "version_String v = title (b_ServiceName b) @ '' '' @ v_Tag v @ [CHR 0x0A, CHR 0x0A]"
  using assms
  by (auto simp: NewVersion_def build_date_def initTemplate_def verTemplate_def IfSpecified_def GetName_def version_String_def Let_def
      split: sum.splits if_splits)

end
