(* ===== verification/Application.thy ===== *)
theory Application
  imports Servers Modules Version Feeds
begin

text \<open>
  The wiring and lifecycle of \<open>internal/application.go\<close>. The environment record \<open>env\<close> holds what is
  not under \<open>src/\<close> or not deterministic: dialling and closing connections, the generated stubs, the
  chi router, the clocks, the UUIDs, Redis, keccak and the WebSocket upgrader. The world is what the
  running handlers share: Redis, the collectors, the log, the hub and the registry. The effects that
  starting and stopping have on resources are kept in a log.
\<close>

subsection \<open>The shared world\<close>

record 'r world =
  wd_redis :: "'r \<times> nat"
  wd_metrics :: "json Hub option Metrics"
  wd_access :: "access_line list"
  wd_panics :: "(string \<times> string) list"
  wd_hw :: hub_world
  wd_ticks :: nat
  wd_uuids :: nat

datatype resource = PriceConn | IndexerConn | OracleConn | RedisClient

datatype effect =
    Opened resource
  | Closed resource
  | ServerShutdown
  | HealthzShutdown
  | HubStopped
  | ListenersDone

record ('conn, 'r) env =
  ev_newClient :: "'conn new_client"
  ev_priceStub :: "'conn \<Rightarrow> price_stub"
  ev_indexerStub :: "'conn \<Rightarrow> indexer_stub"
  ev_oracleStub :: "'conn \<Rightarrow> oracle_stub"
  ev_closeErr :: "resource \<Rightarrow> go_error option"
  ev_shutdownErr :: "go_error option"
  ev_healthzErr :: "go_error option"
  ev_keccak :: keccak256
  ev_spec :: string
  ev_router :: router
  ev_pattern :: "Request \<Rightarrow> string"
  ev_unmatched :: "'r world handler"
  ev_redis :: "'r redis_ops"
  ev_redisCall :: "nat \<Rightarrow> int \<times> string \<times> go_error option"
  ev_clock :: "nat \<Rightarrow> int"
  ev_uuid :: "nat \<Rightarrow> string"
  ev_wsRefused :: "Request \<Rightarrow> (int \<times> string) option"
  ev_alloc :: "json Hub \<Rightarrow> nat"

definition world_now :: "('conn, 'r) env \<Rightarrow> 'r world \<Rightarrow> int \<times> 'r world" where
  "world_now e s = (ev_clock e (wd_ticks s), s\<lparr>wd_ticks := Suc (wd_ticks s)\<rparr>)"

definition world_uuid :: "('conn, 'r) env \<Rightarrow> 'r world \<Rightarrow> string \<times> 'r world" where
  "world_uuid e s = (ev_uuid e (wd_uuids s), s\<lparr>wd_uuids := Suc (wd_uuids s)\<rparr>)"

definition upd_metrics :: "(json Hub option Metrics \<Rightarrow> json Hub option Metrics) \<Rightarrow> 'r world \<Rightarrow> 'r world" where
  "upd_metrics f s = s\<lparr>wd_metrics := f (wd_metrics s)\<rparr>"

definition world_allow ::
  "('conn, 'r) env \<Rightarrow> RedisLimiter \<Rightarrow> string \<Rightarrow> 'r world \<Rightarrow> Decision go_result \<times> 'r world" where
  "world_allow e l key s =
     (let (d, r) = redis_allow (ev_redis e) l (ev_redisCall e) key (wd_redis s) in (d, s\<lparr>wd_redis := r\<rparr>))"

definition world_join :: "('conn, 'r) env \<Rightarrow> 'r world \<Rightarrow> 'r world" where
  "world_join e s =
     (let h = hw_hub (wd_hw s) in s\<lparr>wd_hw := (wd_hw s)\<lparr>hw_hub := hub_Serve (ev_alloc e h) h\<rparr>\<rparr>)"

definition world_platform :: "('conn, 'r) env \<Rightarrow> 'r world platform" where
  "world_platform e =
     \<lparr>pf_newUUID = world_uuid e, pf_now = world_now e,
      pf_emit = (\<lambda>l s. s\<lparr>wd_access := wd_access s @ [l]\<rparr>),
      pf_logPanic = (\<lambda>path v s. s\<lparr>wd_panics := wd_panics s @ [(path, v)]\<rparr>),
      pf_router = ev_router e, pf_unmatched = ev_unmatched e, pf_keccak = ev_keccak e, pf_spec = ev_spec e\<rparr>"

subsection \<open>Construction\<close>

record ('conn, 'r, 'd) App =
  app_config :: Scheme
  app_version :: "'d Version"
  app_modules :: "effect list Manager"
  app_priceClient :: "'conn option"
  app_indexerClient :: "'conn option"
  app_oracleClient :: "'conn option"
  app_registry :: Registry
  app_hub :: "json Hub option"
  app_server :: "'r world Server option"
  app_healthz :: "Healthz option"
  app_redisClient :: "RedisConfig option"
  app_metrics :: "json Hub option Metrics option"
  app_stopped :: bool

text \<open>The zero scheme is what decoding an empty store gives.\<close>

definition NewApplication :: "'d Version go_result \<Rightarrow> ('conn, 'r, 'd) App go_result" where
  "NewApplication newVersion =
     (case newVersion of
        Inl err \<Rightarrow> Inl (ErrWrap ''init app version'' err)
      | Inr ver \<Rightarrow>
          Inr \<lparr>app_config = Unmarshal Map.empty, app_version = ver, app_modules = NewManager,
               app_priceClient = None, app_indexerClient = None, app_oracleClient = None,
               app_registry = registry_New, app_hub = None, app_server = None, app_healthz = None,
               app_redisClient = None, app_metrics = None, app_stopped = False\<rparr>)"

definition close_resource :: "('conn, 'r) env \<Rightarrow> resource \<Rightarrow> 'c \<Rightarrow> effect list action" where
  "close_resource e res c log = (ev_closeErr e res, log @ [Closed res])"

definition close_price :: "('conn, 'r) env \<Rightarrow> 'conn \<Rightarrow> effect list action" where
  "close_price e c = price_Close (close_resource e PriceConn) (Some c)"

definition close_indexer :: "('conn, 'r) env \<Rightarrow> 'conn \<Rightarrow> effect list action" where
  "close_indexer e c = indexer_Close (close_resource e IndexerConn) (Some c)"

definition close_oracle :: "('conn, 'r) env \<Rightarrow> 'conn \<Rightarrow> effect list action" where
  "close_oracle e c = oracle_Close (close_resource e OracleConn) (Some c)"

type_synonym ('conn, 'r, 'd) init_result = "go_error option \<times> ('conn, 'r, 'd) App \<times> effect list"

text \<open>The first half of \<open>Init\<close>: validation and the three dials, each undone when a later one fails.\<close>

definition init_clients ::
  "('conn, 'r) env \<Rightarrow> ('conn, 'r, 'd) App \<Rightarrow> effect list
   \<Rightarrow> ('conn, 'r, 'd) init_result + ('conn \<times> 'conn \<times> 'conn) \<times> ('conn, 'r, 'd) App \<times> effect list" where
  "init_clients e app log =
     (let cfg = s_GRPCClient (app_config app) in
      case Validate (app_config app) of
        Some err \<Rightarrow> Inl (Some (ErrWrap ''config validation'' err), app, log)
      | None \<Rightarrow>
     (case price_Dial (ev_newClient e) cfg of
        Inl err \<Rightarrow> Inl (Some (ErrWrap ''price client'' err), app, log)
      | Inr pc \<Rightarrow>
          let app1 = app\<lparr>app_priceClient := Some pc\<rparr>; log1 = log @ [Opened PriceConn] in
     (case indexer_Dial (ev_newClient e) cfg of
        Inl err \<Rightarrow> Inl (Some (ErrWrap ''indexer client'' err), app1, snd (close_price e pc log1))
      | Inr ix \<Rightarrow>
          let app2 = app1\<lparr>app_indexerClient := Some ix\<rparr>; log2 = log1 @ [Opened IndexerConn] in
     (case oracle_Dial (ev_newClient e) cfg of
        Inl err \<Rightarrow>
          Inl (Some (ErrWrap ''oracle client'' err), app2, snd (close_indexer e ix (snd (close_price e pc log2))))
      | Inr oc \<Rightarrow>
          Inr ((pc, ix, oc), app2\<lparr>app_oracleClient := Some oc\<rparr>, log2 @ [Opened OracleConn])))))"

text \<open>The API record with the registry that the hub goes on updating.\<close>

definition app_api :: "('conn, 'r) env \<Rightarrow> ('conn, 'r, 'd) App \<Rightarrow> 'conn \<Rightarrow> 'conn \<Rightarrow> 'conn \<Rightarrow> 'r world \<Rightarrow> API" where
  "app_api e app pc ix oc s =
     \<lparr>api_Price = ev_priceStub e pc, api_Indexer = ev_indexerStub e ix, api_Oracle = ev_oracleStub e oc,
      api_Registry = hw_registry (wd_hw s), api_Author = s_Author (app_config app),
      api_Version = version_String (app_version app), api_ServiceID = ''evm-oracle-demo-api''\<rparr>"

definition app_globalMW :: "('conn, 'r) env \<Rightarrow> 'r world middleware list" where
  "app_globalMW e = [metrics_Middleware (ev_pattern e) (world_now e) upd_metrics]"

definition app_apiMW :: "('conn, 'r) env \<Rightarrow> Scheme \<Rightarrow> 'r world middleware list" where
  "app_apiMW e cfg =
     (if rl_Enabled (s_RateLimit cfg)
      then [ratelimit_Middleware
              (world_allow e (NewRedisLimiter (rl_RequestsPerMinute (s_RateLimit cfg)) (rl_BurstSize (s_RateLimit cfg))))
              (http_TrustedProxies (s_HTTP cfg)) api_bypass
              [Some (\<lambda>ipClass. upd_metrics (count_rejected ipClass))]]
      else [])"

definition close_all_four :: "('conn, 'r) env \<Rightarrow> 'conn \<Rightarrow> 'conn \<Rightarrow> 'conn \<Rightarrow> effect list \<Rightarrow> effect list" where
  "close_all_four e pc ix oc log =
     snd (close_resource e RedisClient () (snd (close_oracle e oc (snd (close_indexer e ix (snd (close_price e pc log)))))))"

text \<open>The gauge of open WebSocket connections reads the hub, which does not exist yet.\<close>

definition ws_connection_count :: "json Hub option \<Rightarrow> nat" where
  "ws_connection_count hub = (case hub of None \<Rightarrow> 0 | Some h \<Rightarrow> ClientCount h)"

text \<open>The second half: registry, Redis client, server, hub and the operators' server.\<close>

definition init_wire ::
  "('conn, 'r) env \<Rightarrow> json Hub option Metrics \<Rightarrow> 'conn \<times> 'conn \<times> 'conn
   \<Rightarrow> ('conn, 'r, 'd) App \<Rightarrow> effect list \<Rightarrow> ('conn, 'r, 'd) init_result" where
  "init_wire e m conns app0 log0 =
     (case conns of (pc, ix, oc) \<Rightarrow>
      let cfg = app_config app0;
          (registry, loadErr) = registry_Load (ev_keccak e) (app_registry app0) (Some (indexer_ListEvents (ev_indexerStub e ix)));
          app = app0\<lparr>app_registry := registry, app_metrics := Some m, app_redisClient := Some (s_Redis cfg)\<rparr>;
          log = log0 @ [Opened RedisClient]
      in
      case server_New (world_platform e) (s_HTTP cfg) (app_api e app pc ix oc) (app_globalMW e) (app_apiMW e cfg) of
        Inl err \<Rightarrow> (Some (ErrWrap ''http server'' err), app, close_all_four e pc ix oc log)
      | Inr srv \<Rightarrow>
          let app1 = app\<lparr>app_hub := Some (NewHub \<lparr>o_ClientBufferSize = 0, o_OnSend = True, o_OnDrop = True\<rparr>),
                         app_server := Some (HandleWebSocket (hub_Serve_http (ev_wsRefused e) None (world_join e)) srv)\<rparr>
          in
          (case healthz_New (s_Healthz cfg) ''evm-oracle-demo-api'' (version_String (app_version app)) None of
             Inl err \<Rightarrow> (Some (ErrWrap ''healthz server'' err), app1, close_all_four e pc ix oc log)
           | Inr hz \<Rightarrow> (None, app1\<lparr>app_healthz := Some hz\<rparr>, log)))"

text \<open>\<open>Init\<close>; \<open>None\<close> is the panic of a duplicate collector.\<close>

definition app_Init ::
  "('conn, 'r) env \<Rightarrow> ('conn, 'r, 'd) App \<Rightarrow> effect list \<Rightarrow> ('conn, 'r, 'd) init_result option" where
  "app_Init e app log =
     (case init_clients e app log of
        Inl res \<Rightarrow> Some res
      | Inr (conns, app1, log1) \<Rightarrow>
          map_option (\<lambda>m. init_wire e m conns app1 log1) (metrics_New (Some ws_connection_count)))"

subsection \<open>Serving\<close>

text \<open>
  What \<open>Serve\<close>'s select can see, in the order it happens: a signal, or one of the two listener
  goroutines whose \<open>ListenAndServe\<close> has returned. \<open>None\<close> means that \<open>Serve\<close> is still waiting.
\<close>

datatype serve_event =
    Signal
  | ServerReturned "go_error option"
  | HealthzReturned "go_error option"

definition listener_error :: "go_error option \<Rightarrow> go_error option" where
  "listener_error res =
     (case res of
        Some err \<Rightarrow> if \<not> errors_Is err HTTP_ErrServerClosed then Some (ErrWrap ''http listener'' err) else None
      | None \<Rightarrow> None)"

fun serve_select :: "serve_event list \<Rightarrow> go_error option option" where
  "serve_select [] = None"
| "serve_select (Signal # evs) = Some None"
| "serve_select (ServerReturned listen # evs) =
     (case listener_error (server_Serve listen) of Some err \<Rightarrow> Some (Some err) | None \<Rightarrow> serve_select evs)"
| "serve_select (HealthzReturned listen # evs) =
     (case listener_error (healthz_Serve listen) of Some err \<Rightarrow> Some (Some err) | None \<Rightarrow> serve_select evs)"

definition app_Serve ::
  "('conn, 'r, 'd) App \<Rightarrow> serve_event list \<Rightarrow> ('conn, 'r, 'd) App \<times> go_error option option" where
  "app_Serve app evs =
     (case app_server app of
        None \<Rightarrow> (app, Some (Some (ErrText ''Serve called before Init'')))
      | Some _ \<Rightarrow> (app\<lparr>app_hub := map_option hub_Start (app_hub app)\<rparr>, serve_select evs))"

text \<open>\<open>RunE\<close> of the \<open>serve\<close> command: the application, the log and what \<open>Serve\<close> is up to.\<close>

definition serve_RunE ::
  "('conn, 'r) env \<Rightarrow> serve_event list \<Rightarrow> ('conn, 'r, 'd) App \<Rightarrow> effect list
   \<Rightarrow> (('conn, 'r, 'd) App \<times> effect list \<times> go_error option option) option" where
  "serve_RunE e evs app log =
     (case app_Init e app log of
        None \<Rightarrow> None
      | Some (Some err, app1, log1) \<Rightarrow> Some (app1, log1, Some (Some (ErrWrap ''application initialisation'' err)))
      | Some (None, app1, log1) \<Rightarrow> (case app_Serve app1 evs of (app2, res) \<Rightarrow> Some (app2, log1, res)))"

subsection \<open>Stopping\<close>

text \<open>One owned part: nothing if it was never built, else its action, whose error is kept if it is the first.\<close>

definition stop_part :: "'c option \<Rightarrow> ('c \<Rightarrow> effect list action) \<Rightarrow> go_error option \<times> effect list \<Rightarrow> go_error option \<times> effect list" where
  "stop_part part act st =
     (case part of
        None \<Rightarrow> st
      | Some c \<Rightarrow> let (err, log) = act c (snd st) in (note_err err (fst st), log))"

definition app_Stop ::
  "('conn, 'r) env \<Rightarrow> nat list \<Rightarrow> ('conn, 'r, 'd) App \<Rightarrow> effect list \<Rightarrow> ('conn, 'r, 'd) init_result" where
  "app_Stop e snapshot app log =
     (if app_stopped app then (None, app, log)
      else
        let st1 = stop_part (app_server app) (\<lambda>_ l. (server_Shutdown (ev_shutdownErr e), l @ [ServerShutdown])) (None, log);
            st2 = stop_part (app_healthz app) (\<lambda>_ l. (healthz_Shutdown (ev_healthzErr e), l @ [HealthzShutdown])) st1;
            st3 = stop_part (app_hub app) (\<lambda>_ l. (None, l @ [HubStopped])) st2;
            st4 = (fst st3, snd st3 @ [ListenersDone]);
            st5 = stop_part (app_priceClient app) (close_price e) st4;
            st6 = stop_part (app_indexerClient app) (close_indexer e) st5;
            st7 = stop_part (app_oracleClient app) (close_oracle e) st6;
            st8 = stop_part (app_redisClient app) (close_resource e RedisClient) st7;
            (merr, log9) = StopAll (app_modules app) (snd st8)
        in (note_err merr (fst st8),
            app\<lparr>app_stopped := True, app_hub := map_option (hub_Stop snapshot) (app_hub app)\<rparr>, log9))"

subsection \<open>Accessors\<close>

definition App_Config :: "('conn, 'r, 'd) App \<Rightarrow> Scheme" where "App_Config app = app_config app"
definition App_Version :: "('conn, 'r, 'd) App \<Rightarrow> string" where "App_Version app = version_String (app_version app)"
definition App_Modules :: "('conn, 'r, 'd) App \<Rightarrow> effect list Manager" where "App_Modules app = app_modules app"

subsection \<open>Facts\<close>

lemmas close_defs = close_price_def close_indexer_def close_oracle_def price_Close_def indexer_Close_def
  oracle_Close_def close_resource_def

definition balanced :: "effect list \<Rightarrow> bool" where
  "balanced log \<longleftrightarrow> (\<forall>r. count_list log (Opened r) = count_list log (Closed r) \<and> count_list log (Opened r) \<le> 1)"

definition all_opened :: "effect list" where
  "all_opened = [Opened PriceConn, Opened IndexerConn, Opened OracleConn, Opened RedisClient]"

definition dials :: "('conn, 'r) env \<Rightarrow> GRPCClientConfig \<Rightarrow> bool" where
  "dials e cfg \<longleftrightarrow> (\<exists>c. price_Dial (ev_newClient e) cfg = Inr c) \<and> (\<exists>c. indexer_Dial (ev_newClient e) cfg = Inr c)
     \<and> (\<exists>c. oracle_Dial (ev_newClient e) cfg = Inr c)"

lemma init_clients_cases:
  obtains (fails) err app' new where "init_clients e app log = Inl (Some err, app', log @ new)" "balanced new"
      "\<not> (Validate (app_config app) = None \<and> dials e (s_GRPCClient (app_config app)))"
  | (dialled) pc ix oc where "init_clients e app log = Inr ((pc, ix, oc),
        app\<lparr>app_priceClient := Some pc, app_indexerClient := Some ix, app_oracleClient := Some oc\<rparr>,
        log @ [Opened PriceConn, Opened IndexerConn, Opened OracleConn])"
      "Validate (app_config app) = None \<and> dials e (s_GRPCClient (app_config app))"
proof -
  let ?cfg = "s_GRPCClient (app_config app)" and ?nc = "ev_newClient e"
  consider
      (val) err where "Validate (app_config app) = Some err"
    | (price) err where "Validate (app_config app) = None" "price_Dial ?nc ?cfg = Inl err"
    | (ixr) pc err where "Validate (app_config app) = None" "price_Dial ?nc ?cfg = Inr pc" "indexer_Dial ?nc ?cfg = Inl err"
    | (orc) pc ix err where "Validate (app_config app) = None" "price_Dial ?nc ?cfg = Inr pc"
        "indexer_Dial ?nc ?cfg = Inr ix" "oracle_Dial ?nc ?cfg = Inl err"
    | (all) pc ix oc where "Validate (app_config app) = None" "price_Dial ?nc ?cfg = Inr pc"
        "indexer_Dial ?nc ?cfg = Inr ix" "oracle_Dial ?nc ?cfg = Inr oc"
    by (metis option.exhaust sum.exhaust)
  then show ?thesis
  proof cases
    case val
    show ?thesis by (rule fails [of _ app "[]"]) (simp_all add: val init_clients_def balanced_def)
  next
    case price
    show ?thesis by (rule fails [of _ app "[]"]) (simp_all add: price init_clients_def balanced_def dials_def)
  next
    case ixr
    show ?thesis
      by (rule fails [of _ _ "[Opened PriceConn, Closed PriceConn]"])
        (simp_all add: ixr init_clients_def balanced_def dials_def close_defs Let_def)
  next
    case orc
    show ?thesis
      by (rule fails [of _ _ "[Opened PriceConn, Opened IndexerConn, Closed PriceConn, Closed IndexerConn]"])
        (simp_all add: orc init_clients_def balanced_def dials_def close_defs Let_def)
  next
    case all
    show ?thesis by (rule dialled) (simp_all add: all init_clients_def dials_def Let_def)
  qed
qed

definition timeouts_parse :: "HTTPConfig \<Rightarrow> bool" where
  "timeouts_parse cfg \<longleftrightarrow> ParseDuration (http_ReadTimeout cfg) \<noteq> None \<and> ParseDuration (http_WriteTimeout cfg) \<noteq> None
     \<and> ParseDuration (http_IdleTimeout cfg) \<noteq> None"

text \<open>What a successful \<open>Init\<close> has built, and the handler it serves.\<close>

definition app_mux :: "('conn, 'r) env \<Rightarrow> ('conn, 'r, 'd) App \<Rightarrow> 'conn \<times> 'conn \<times> 'conn \<Rightarrow> 'r world handler" where
  "app_mux e app conns =
     (case conns of (pc, ix, oc) \<Rightarrow>
        root_mux (ev_router e) (ev_keccak e) (ev_spec e) (app_api e app pc ix oc) (app_apiMW e (app_config app))
          (Some (hub_Serve_http (ev_wsRefused e) None (world_join e))) (ev_unmatched e))"

definition app_stack :: "('conn, 'r) env \<Rightarrow> HTTPConfig \<Rightarrow> 'r world handler \<Rightarrow> 'r world handler" where
  "app_stack e cfg mux =
     RequestID (world_uuid e)
       (AccessLog (world_now e) (\<lambda>l s. s\<lparr>wd_access := wd_access s @ [l]\<rparr>)
         (Recovery (\<lambda>path v s. s\<lparr>wd_panics := wd_panics s @ [(path, v)]\<rparr>)
           (metrics_Middleware (ev_pattern e) (world_now e) upd_metrics (CORS cfg mux))))"

definition built ::
  "('conn, 'r) env \<Rightarrow> ('conn, 'r, 'd) App \<Rightarrow> ('conn, 'r, 'd) App \<Rightarrow> bool" where
  "built e app0 app \<longleftrightarrow>
     (\<exists>pc ix oc srv hz m. app_priceClient app = Some pc \<and> app_indexerClient app = Some ix \<and> app_oracleClient app = Some oc
        \<and> app_server app = Some srv \<and> app_healthz app = Some hz \<and> app_metrics app = Some m
        \<and> app_redisClient app = Some (s_Redis (app_config app))
        \<and> app_hub app = Some (NewHub \<lparr>o_ClientBufferSize = 0, o_OnSend = True, o_OnDrop = True\<rparr>)
        \<and> server_Handler srv = app_stack e (s_HTTP (app_config app)) (app_mux e app (pc, ix, oc))
        \<and> sv_Addr srv = JoinHostPort (http_Host (s_HTTP (app_config app))) (Itoa (http_Port (s_HTTP (app_config app)))))
     \<and> app_config app = app_config app0 \<and> app_modules app = app_modules app0 \<and> app_stopped app = app_stopped app0
     \<and> app_version app = app_version app0"

lemma app_api_cong:
  "app_config a = app_config b \<Longrightarrow> app_version a = app_version b \<Longrightarrow> app_api e a pc ix oc = app_api e b pc ix oc"
  by (simp add: app_api_def fun_eq_iff)

lemma server_New_Handler:
  assumes "server_New (world_platform e) cfg api (app_globalMW e) mws = Inr srv"
  shows "server_Handler (HandleWebSocket ws srv) =
      app_stack e cfg (root_mux (ev_router e) (ev_keccak e) (ev_spec e) api mws (Some ws) (ev_unmatched e))"
    and "sv_Addr srv = JoinHostPort (http_Host cfg) (Itoa (http_Port cfg))"
  using assms
  by (auto simp: server_New_def server_Handler_def HandleWebSocket_def app_stack_def Register_def use_all_def app_globalMW_def
      world_platform_def split: sum.splits)

lemma init_wire_cases:
  obtains (fails) err app' where "init_wire e m conns app log = (Some err, app', log @ [Opened RedisClient,
        Closed PriceConn, Closed IndexerConn, Closed OracleConn, Closed RedisClient])"
      "\<not> timeouts_parse (s_HTTP (app_config app))"
  | (wired) app' srv hz where "init_wire e m conns app log = (None, app', log @ [Opened RedisClient])"
      "timeouts_parse (s_HTTP (app_config app))"
      "app_server app' = Some srv" "app_healthz app' = Some hz" "app_metrics app' = Some m"
      "app_redisClient app' = Some (s_Redis (app_config app))"
      "app_hub app' = Some (NewHub \<lparr>o_ClientBufferSize = 0, o_OnSend = True, o_OnDrop = True\<rparr>)"
      "server_Handler srv = app_stack e (s_HTTP (app_config app)) (app_mux e app' conns)"
      "sv_Addr srv = JoinHostPort (http_Host (s_HTTP (app_config app))) (Itoa (http_Port (s_HTTP (app_config app))))"
      "app_config app' = app_config app" "app_modules app' = app_modules app" "app_stopped app' = app_stopped app"
      "app_version app' = app_version app" "app_priceClient app' = app_priceClient app"
      "app_indexerClient app' = app_indexerClient app" "app_oracleClient app' = app_oracleClient app"
proof -
  obtain pc ix oc where conns: "conns = (pc, ix, oc)" by (cases conns)
  let ?cfg = "app_config app"
  obtain reg le where load: "registry_Load (ev_keccak e) (app_registry app) (Some (indexer_ListEvents (ev_indexerStub e ix))) = (reg, le)"
    by fastforce
  define app1 where "app1 = app\<lparr>app_registry := reg, app_metrics := Some m, app_redisClient := Some (s_Redis ?cfg)\<rparr>"
  let ?new = "server_New (world_platform e) (s_HTTP ?cfg) (app_api e app1 pc ix oc) (app_globalMW e) (app_apiMW e ?cfg)"
  show ?thesis
  proof (cases ?new)
    case (Inl err)
    have "\<not> timeouts_parse (s_HTTP ?cfg)"
      using Inl server_New_ok [of "world_platform e" "s_HTTP ?cfg" "app_api e app1 pc ix oc"
          "app_globalMW e" "app_apiMW e ?cfg"] by (auto simp: timeouts_parse_def)
    moreover have "init_wire e m conns app log = (Some (ErrWrap ''http server'' err), app1, log @ [Opened RedisClient,
        Closed PriceConn, Closed IndexerConn, Closed OracleConn, Closed RedisClient])"
      using Inl by (simp add: init_wire_def conns load app1_def [symmetric] close_all_four_def close_defs)
    ultimately show ?thesis by (rule fails [rotated])
  next
    case (Inr srv)
    let ?ws = "hub_Serve_http (ev_wsRefused e) None (world_join e)"
    obtain hz where hz: "healthz_New (s_Healthz ?cfg) ''evm-oracle-demo-api'' (version_String (app_version app1)) None = Inr hz"
      by (simp add: healthz_New_def)
    define app2 where "app2 = app1\<lparr>app_hub := Some (NewHub \<lparr>o_ClientBufferSize = 0, o_OnSend = True, o_OnDrop = True\<rparr>),
        app_server := Some (HandleWebSocket ?ws srv), app_healthz := Some hz\<rparr>"
    have run: "init_wire e m conns app log = (None, app2, log @ [Opened RedisClient])"
      using Inr hz by (simp add: init_wire_def conns load app1_def [symmetric] app2_def)
    have tp: "timeouts_parse (s_HTTP ?cfg)"
      using Inr server_New_ok [of "world_platform e" "s_HTTP ?cfg" "app_api e app1 pc ix oc"
          "app_globalMW e" "app_apiMW e ?cfg"] by (auto simp: timeouts_parse_def)
    have "app_api e app2 pc ix oc = app_api e app1 pc ix oc" by (rule app_api_cong) (simp_all add: app2_def)
    then have h: "server_Handler (HandleWebSocket ?ws srv) = app_stack e (s_HTTP ?cfg) (app_mux e app2 conns)"
      using server_New_Handler(1) [OF Inr] by (simp add: app_mux_def conns app2_def app1_def)
    have addr: "sv_Addr (HandleWebSocket ?ws srv) = JoinHostPort (http_Host (s_HTTP ?cfg)) (Itoa (http_Port (s_HTTP ?cfg)))"
      using server_New_Handler(2) [OF Inr] by (simp add: HandleWebSocket_def)
    show ?thesis
      by (rule wired [OF run tp, of "HandleWebSocket ?ws srv" hz]) (use h addr in \<open>simp_all add: app2_def app1_def\<close>)
  qed
qed

lemma balanced_failed_wire:
  "balanced ([Opened PriceConn, Opened IndexerConn, Opened OracleConn, Opened RedisClient,
     Closed PriceConn, Closed IndexerConn, Closed OracleConn, Closed RedisClient])"
  unfolding balanced_def by (rule allI, rename_tac r, case_tac r) simp_all

lemma app_Init_cases:
  obtains (fails) err app' new where "app_Init e app log = Some (Some err, app', log @ new)" "balanced new"
      "\<not> (Validate (app_config app) = None \<and> dials e (s_GRPCClient (app_config app)) \<and> timeouts_parse (s_HTTP (app_config app)))"
  | (ready) app' where "app_Init e app log = Some (None, app', log @ all_opened)" "built e app app'"
      "Validate (app_config app) = None \<and> dials e (s_GRPCClient (app_config app)) \<and> timeouts_parse (s_HTTP (app_config app))"
proof (cases rule: init_clients_cases [of e app log])
  case (fails err app' new)
  show ?thesis by (rule that(1) [of err app' new]) (use fails in \<open>auto simp: app_Init_def\<close>)
next
  case (dialled pc ix oc)
  let ?app = "app\<lparr>app_priceClient := Some pc, app_indexerClient := Some ix, app_oracleClient := Some oc\<rparr>"
  let ?log = "log @ [Opened PriceConn, Opened IndexerConn, Opened OracleConn]"
  obtain m where m: "metrics_New (Some ws_connection_count) = Some m" by (simp add: metrics_New_total)
  have init: "app_Init e app log = Some (init_wire e m (pc, ix, oc) ?app ?log)"
    by (simp add: app_Init_def dialled m)
  show ?thesis
  proof (cases rule: init_wire_cases [of e m "(pc, ix, oc)" ?app ?log])
    case (fails err app')
    show ?thesis
      by (rule that(1) [of err app' "[Opened PriceConn, Opened IndexerConn, Opened OracleConn, Opened RedisClient,
            Closed PriceConn, Closed IndexerConn, Closed OracleConn, Closed RedisClient]"])
        (use fails dialled(2) in \<open>simp_all add: init balanced_failed_wire\<close>)
  next
    case (wired app' srv hz)
    have "built e app app'" unfolding built_def using wired(3-) by simp
    with wired dialled(2) show ?thesis by (intro that(2) [of app']) (simp_all add: init all_opened_def)
  qed
qed

lemma Init_success: "app_Init e app log = Some (None, app', log') \<Longrightarrow> built e app app' \<and> log' = log @ all_opened"
  by (cases rule: app_Init_cases [of e app log]) simp_all

text \<open>Stopping a built application, whatever its hub has done since.\<close>

lemma app_Stop_built:
  assumes "built e app0 app" and "app_modules app0 = NewManager" and "\<not> app_stopped app0"
  shows "app_Stop e xs (app\<lparr>app_hub := Some h\<rparr>) log =
      (first_err [ev_shutdownErr e, ev_healthzErr e, ev_closeErr e PriceConn, ev_closeErr e IndexerConn,
                  ev_closeErr e OracleConn, ev_closeErr e RedisClient],
       app\<lparr>app_hub := Some (hub_Stop xs h), app_stopped := True\<rparr>,
       log @ [ServerShutdown, HealthzShutdown, HubStopped, ListenersDone,
         Closed PriceConn, Closed IndexerConn, Closed OracleConn, Closed RedisClient])"
proof -
  from assms obtain pc ix oc srv hz where parts: "app_priceClient app = Some pc" "app_indexerClient app = Some ix"
      "app_oracleClient app = Some oc" "app_server app = Some srv" "app_healthz app = Some hz"
      "app_redisClient app = Some (s_Redis (app_config app))" "app_modules app = NewManager" "\<not> app_stopped app"
    by (auto simp: built_def)
  have "StopAll (NewManager :: effect list Manager) l = (None, l)" for l by (simp add: StopAll_run NewManager_def)
  then show ?thesis
    by (simp add: app_Stop_def stop_part_def parts close_defs note_err_def Let_def split: option.split)
qed

subsection \<open>The accounting of requests\<close>

text \<open>The part of the world that records requests: the access log and the request counter.\<close>

definition accounts :: "'r world \<Rightarrow> access_line list \<times> (string \<times> string \<times> string \<Rightarrow> nat)" where
  "accounts s = (wd_access s, m_HTTPRequestsTotal (wd_metrics s))"

lemma accounts_frame [simp]:
  "accounts (snd (world_now e s)) = accounts s" "accounts (snd (world_uuid e s)) = accounts s"
  "accounts (snd (world_allow e l k s)) = accounts s" "accounts (world_join e s) = accounts s"
  "accounts (upd_metrics (count_rejected c) s) = accounts s" "accounts (upd_metrics (observe_duration l' d) s) = accounts s"
  by (simp_all add: accounts_def world_now_def world_uuid_def world_allow_def world_join_def upd_metrics_def
      count_rejected_def observe_duration_def Let_def split_beta)

lemma accounts_count:
  "accounts (upd_metrics (count_request l) s) = (fst (accounts s), (snd (accounts s))(l := Suc (snd (accounts s) l)))"
  by (simp add: accounts_def upd_metrics_def count_request_def)

lemma app_apiMW_contracts:
  assumes "mw \<in> set (app_apiMW e cfg)"
  shows "honest h \<Longrightarrow> honest (mw h)" and "tame accounts h \<Longrightarrow> tame accounts (mw h)"
  using assms
  by (auto simp: app_apiMW_def intro!: honest_ratelimit tame_ratelimit split: if_splits)

lemma app_mux_contracts:
  assumes "honest (ev_unmatched e)" and "tame accounts (ev_unmatched e)"
  shows "honest (app_mux e app conns)" and "tame accounts (app_mux e app conns)"
proof -
  obtain pc ix oc where conns: "conns = (pc, ix, oc)" by (cases conns)
  note mws = app_apiMW_contracts [where e = e and cfg = "app_config app"]
  show "honest (app_mux e app conns)"
    unfolding app_mux_def conns prod.case by (rule honest_root_mux, erule mws(1), assumption, rule honest_Serve_http, rule assms(1))
  have ws: "tame accounts (hub_Serve_http (ev_wsRefused e) None (world_join e))" by (rule tame_Serve_http) simp
  show "tame accounts (app_mux e app conns)"
    unfolding app_mux_def conns prod.case by (rule tame_root_mux, erule mws(2), assumption, rule ws, rule assms(2))
qed

text \<open>One request through the whole stack.\<close>

lemma app_stack_accounts:
  fixes s :: "'r world"
  assumes "honest mux" and "tame accounts mux"
  shows "\<exists>w s' line. app_stack e cfg mux r new_Response s = (w, s', None)
    \<and> wd_access s' = wd_access s @ [line] \<and> al_method line = q_Method r \<and> al_path line = q_Path r
    \<and> al_remote line = q_RemoteAddr r \<and> al_status line = sent_status w
    \<and> al_request_id line = (let h = Header_Get (q_Header r) RequestIDHeader in if h = '''' then ev_uuid e (wd_uuids s) else h)
    \<and> (let l = (q_Method r, metrics_path (ev_pattern e) (r\<lparr>q_RequestID := Some (al_request_id line)\<rparr>), Itoa (sent_status w))
       in m_HTTPRequestsTotal (wd_metrics s') = (m_HTTPRequestsTotal (wd_metrics s))(l := Suc (m_HTTPRequestsTotal (wd_metrics s) l)))"
proof -
  define hdr where "hdr = Header_Get (q_Header r) RequestIDHeader"
  define i where "i = (if hdr = '''' then ev_uuid e (wd_uuids s) else hdr)"
  define r1 where "r1 = r\<lparr>q_RequestID := Some i\<rparr>"
  define w0 where "w0 = set_header RequestIDHeader i new_Response"
  define s1 where "s1 = (if hdr = '''' then snd (world_uuid e s) else s)"
  define inner where "inner = metrics_Middleware (ev_pattern e) (world_now e) upd_metrics (CORS cfg mux)"
  define emit where "emit = (\<lambda>l (s :: 'r world). s\<lparr>wd_access := wd_access s @ [l]\<rparr>)"
  let ?rec = "Recovery (\<lambda>path v s. s\<lparr>wd_panics := wd_panics s @ [(path, v)]\<rparr>) inner"
  have w0: "w_Sent w0 = None" "synced w0" by (simp_all add: w0_def new_Response_def synced_def)
  have enter: "app_stack e cfg mux r new_Response s = AccessLog (world_now e) emit ?rec r1 w0 s1"
    by (simp add: app_stack_def RequestID_def hdr_def i_def r1_def w0_def s1_def world_uuid_def inner_def emit_def Let_def)
  obtain t0 s2 where t0: "world_now e s1 = (t0, s2)" by fastforce
  have s2: "accounts s2 = accounts s" using accounts_frame(1) [of e s1, unfolded t0 snd_conv] by (simp add: s1_def)
  note mux = honest_CORS [OF assms(1)] tame_CORS [OF assms(2)]
  have w0': "w_Sent (push_recorder w0) = None" "synced (push_recorder w0)" using w0 synced_push by simp_all
  have counted: "\<exists>w' s3 d. inner r1 (push_recorder w0) s2 =
      (w', upd_metrics (observe_duration (q_Method r1, metrics_path (ev_pattern e) r1) d)
        (upd_metrics (count_request (q_Method r1, metrics_path (ev_pattern e) r1, Itoa (sent_status w'))) s3), None)
      \<and> accounts s3 = accounts s2"
    unfolding inner_def by (rule metrics_counts [where obs = accounts]) (simp_all add: mux w0 w0')
  obtain w1 s3 d where run: "inner r1 (push_recorder w0) s2 =
      (w1, upd_metrics (observe_duration (q_Method r1, metrics_path (ev_pattern e) r1) d)
        (upd_metrics (count_request (q_Method r1, metrics_path (ev_pattern e) r1, Itoa (sent_status w1))) s3), None)"
      and s3: "accounts s3 = accounts s2"
    using counted by blast
  obtain t1 s4 where t1: "world_now e (upd_metrics (observe_duration (q_Method r1, metrics_path (ev_pattern e) r1) d)
        (upd_metrics (count_request (q_Method r1, metrics_path (ev_pattern e) r1, Itoa (sent_status w1))) s3)) = (t1, s4)" (is "world_now e ?s = _")
    by fastforce
  have s4: "accounts s4 = accounts ?s" by (rule accounts_frame(1) [of e ?s, unfolded t1 snd_conv])
  have status: "fst (pop_recorder w1) = sent_status w1" "sent_status (snd (pop_recorder w1)) = sent_status w1"
    using honest.logged [OF honest_metrics [OF mux(1)] w0 run [unfolded inner_def]] by simp_all
  define line where "line = \<lparr>al_method = q_Method r1, al_path = q_Path r1, al_status = fst (pop_recorder w1),
      al_duration_ms = go_quot (t1 - t0) 1000000, al_request_id = RequestIDFromContext r1, al_remote = q_RemoteAddr r1\<rparr>"
  have res: "app_stack e cfg mux r new_Response s = (snd (pop_recorder w1), emit line s4, None)"
    by (simp add: enter AccessLog_def t0 Recovery_def run t1 line_def split_beta Let_def)
  have acc: "accounts s4 = (wd_access s, (m_HTTPRequestsTotal (wd_metrics s))
      ((q_Method r, metrics_path (ev_pattern e) r1, Itoa (sent_status w1)) :=
        Suc (m_HTTPRequestsTotal (wd_metrics s) (q_Method r, metrics_path (ev_pattern e) r1, Itoa (sent_status w1)))))"
    by (simp add: s4 accounts_count s3 s2) (simp add: accounts_def r1_def)
  have "al_request_id line = i" by (simp add: line_def RequestIDFromContext_def r1_def)
  with acc res status show ?thesis
    by (intro exI [of _ "snd (pop_recorder w1)"] exI [of _ "emit line s4"] exI [of _ line])
      (simp add: emit_def accounts_def line_def r1_def i_def hdr_def Let_def)
qed

subsection \<open>A sample environment\<close>

definition not_found :: "'s handler" where
  "not_found r w s = (http_Error ''404 page not found'' 404 w, s, None)"

interpretation not_found: tame obs not_found for obs
  by unfold_locales (simp add: not_found_def)

interpretation not_found: honest not_found
  by unfold_locales (auto simp: not_found_def dest: synced_http_Error synced_agree)

definition sample_env :: "(string, redis_store) env" where
  "sample_env =
     \<lparr>ev_newClient = (\<lambda>addr opts. Inr addr),
      ev_priceStub = (\<lambda>_. \<lparr>ps_GetPrice = (\<lambda>_. Inr None), ps_Subscribe = (\<lambda>_. Inr [])\<rparr>),
      ev_indexerStub = (\<lambda>_. \<lparr>is_ListEvents = (\<lambda>_. Inl (ErrStatus C_Unavailable ''down'')), is_GetRequest = (\<lambda>_. Inr None),
         is_StreamEvents = (\<lambda>_. Inr [])\<rparr>),
      ev_oracleStub = (\<lambda>_. \<lparr>os_GetSubmissionStatus = (\<lambda>_. Inr None), os_ListSubmissions = (\<lambda>_. Inr ([], None))\<rparr>),
      ev_closeErr = (\<lambda>r. if r = OracleConn then Some (ErrText ''busy'') else None),
      ev_shutdownErr = None, ev_healthzErr = None, ev_keccak = pad32, ev_spec = ''openapi: 3.1.0'',
      ev_router = \<lparr>rt_underAPI = (\<lambda>_. True), rt_match = (\<lambda>_ _. None), rt_isWS = (\<lambda>_. False)\<rparr>,
      ev_pattern = (\<lambda>_. ''''), ev_unmatched = not_found, ev_redis = store_ops,
      ev_redisCall = (\<lambda>n. (1000 + int n, ''u'' @ show_nat n, None)), ev_clock = int, ev_uuid = (\<lambda>n. ''id-'' @ show_nat n),
      ev_wsRefused = (\<lambda>_. None), ev_alloc = (\<lambda>_. 0)\<rparr>"

definition sample_config :: Scheme where
  "sample_config = (Unmarshal ((map_of setDefaults)(''author.name'' \<mapsto> VString ''Ada'')))
     \<lparr>s_RateLimit := \<lparr>rl_Enabled = True, rl_RequestsPerMinute = 1, rl_BurstSize = 0\<rparr>\<rparr>"

definition sample_app :: "(string, redis_store, unit) App" where
  "sample_app = \<lparr>app_config = sample_config,
     app_version = \<lparr>v_Service = ''bff'', v_Tag = ''v1'', v_Commit = '''', v_Branch = '''', v_URL = '''', v_Date = (), v_msg = ''v1''\<rparr>,
     app_modules = NewManager, app_priceClient = None, app_indexerClient = None, app_oracleClient = None,
     app_registry = registry_New, app_hub = None, app_server = None, app_healthz = None,
     app_redisClient = None, app_metrics = None, app_stopped = False\<rparr>"

lemma init_ready:
  assumes "Validate (app_config app) = None" and "dials e (s_GRPCClient (app_config app))"
    and "timeouts_parse (s_HTTP (app_config app))"
  obtains app' where "app_Init e app log = Some (None, app', log @ all_opened)" "built e app app'"
  by (cases rule: app_Init_cases [of e app log]) (use assms that in auto)

lemma sample_ready:
  "Validate (app_config sample_app) = None" "dials sample_env (s_GRPCClient (app_config sample_app))"
  "timeouts_parse (s_HTTP (app_config sample_app))"
proof -
  have "app_config sample_app = (Unmarshal (map_of setDefaults))\<lparr>s_Author := \<lparr>author_Name = ''Ada'', author_Links = []\<rparr>,
      s_RateLimit := \<lparr>rl_Enabled = True, rl_RequestsPerMinute = 1, rl_BurstSize = 0\<rparr>\<rparr>"
    by (simp add: sample_app_def sample_config_def Unmarshal_author default_scheme) (simp add: get_defs setDefaults_def)
  then show "Validate (app_config sample_app) = None" "dials sample_env (s_GRPCClient (app_config sample_app))"
      "timeouts_parse (s_HTTP (app_config sample_app))"
    by (simp_all add: default_scheme Validate_def validate_errs_def dials_def timeouts_parse_def ParseDuration_defaults
        price_Dial_def indexer_Dial_def oracle_Dial_def dial_with_def grpcdial_Options_def parse_or_def sample_env_def)
qed

lemma sample_init: obtains app where "app_Init sample_env sample_app [] = Some (None, app, all_opened)" "built sample_env sample_app app"
  by (rule init_ready [OF sample_ready, of "[]"]) simp

subsection \<open>Properties\<close>

text \<open>
  Property C19. Start-up is all or nothing: \<open>Init\<close> always returns, succeeds exactly when the
  configuration is valid, the three upstreams dial and the three HTTP timeouts parse, and then holds
  exactly the three connections and the Redis client; when it fails at any point, every connection
  it opened has been closed again, once. An unreachable indexer does not make it fail.
\<close>

theorem Init_all_or_nothing:
  "\<exists>err app' new. app_Init e app log = Some (err, app', log @ new)
    \<and> (err = None \<longleftrightarrow> Validate (app_config app) = None \<and> dials e (s_GRPCClient (app_config app))
         \<and> timeouts_parse (s_HTTP (app_config app)))
    \<and> (if err = None then new = all_opened \<and> built e app app' else balanced new)"
proof (cases rule: app_Init_cases [of e app log])
  case (fails err app' new)
  then show ?thesis by (intro exI [of _ "Some err"] exI [of _ app'] exI [of _ new]) simp
next
  case (ready app')
  then show ?thesis by (intro exI [of _ None] exI [of _ app'] exI [of _ all_opened]) simp
qed

text \<open>
  Property C20. A started application stops completely: after a successful \<open>Init\<close> and whatever the
  hub has done since, \<open>Stop\<close> shuts down both listeners, stops the hub, waits for the listeners and
  then closes each of the four clients exactly once, in this order and past any error; it reports the
  first error, leaves no WebSocket client behind, and a second \<open>Stop\<close> does nothing.
\<close>

theorem Stop_releases_all:
  assumes "app_Init e app0 [] = Some (None, app, log)"
    and "app_modules app0 = NewManager" and "\<not> app_stopped app0"
    and "hub_inv h" and "is_snapshot xs h" and "h_started h"
  shows "\<exists>app'. app_Stop e xs (app\<lparr>app_hub := Some h\<rparr>) log =
      (first_err [ev_shutdownErr e, ev_healthzErr e, ev_closeErr e PriceConn, ev_closeErr e IndexerConn,
                  ev_closeErr e OracleConn, ev_closeErr e RedisClient], app',
       all_opened @ [ServerShutdown, HealthzShutdown, HubStopped, ListenersDone,
         Closed PriceConn, Closed IndexerConn, Closed OracleConn, Closed RedisClient])
    \<and> (\<exists>h'. app_hub app' = Some h' \<and> h_clients h' = {} \<and> \<not> h_started h')
    \<and> app_Stop e ys app' log' = (None, app', log')"
proof -
  let ?app' = "app\<lparr>app_hub := Some (hub_Stop xs h), app_stopped := True\<rparr>"
  have "built e app0 app" "log = all_opened" using Init_success [OF assms(1)] by simp_all
  note stop = app_Stop_built [OF this(1) assms(2,3), of xs h log, folded this(2)]
  moreover have "h_clients (hub_Stop xs h) = {} \<and> \<not> h_started (hub_Stop xs h)"
    by (rule hub_Stop_empty [OF assms(4-6)])
  moreover have "app_Stop e ys ?app' log' = (None, ?app', log')" by (simp add: app_Stop_def)
  ultimately show ?thesis using \<open>log = all_opened\<close> by (intro exI [of _ ?app']) simp
qed

theorem Stop_releases_all_witness:
  "\<exists>app app'. app_Init sample_env sample_app [] = Some (None, app, all_opened)
    \<and> app_Stop sample_env [] (app\<lparr>app_hub := Some (hub_Start (NewHub \<lparr>o_ClientBufferSize = 0, o_OnSend = True, o_OnDrop = True\<rparr>))\<rparr>)
        all_opened = (Some (ErrText ''busy''), app', all_opened @ [ServerShutdown, HealthzShutdown, HubStopped, ListenersDone,
          Closed PriceConn, Closed IndexerConn, Closed OracleConn, Closed RedisClient])"
proof -
  let ?h = "hub_Start (NewHub \<lparr>o_ClientBufferSize = 0, o_OnSend = True, o_OnDrop = True\<rparr>) :: json Hub"
  obtain app where app: "app_Init sample_env sample_app [] = Some (None, app, all_opened)" by (rule sample_init)
  have h: "hub_inv ?h" "is_snapshot [] ?h" "h_started ?h"
    by (simp_all add: hub_inv_def is_snapshot_def hub_Start_def NewHub_def)
  have "app_modules sample_app = NewManager" "\<not> app_stopped sample_app" by (simp_all add: sample_app_def)
  note stop = Stop_releases_all [OF app this h]
  have "first_err [ev_shutdownErr sample_env, ev_healthzErr sample_env, ev_closeErr sample_env PriceConn,
      ev_closeErr sample_env IndexerConn, ev_closeErr sample_env OracleConn, ev_closeErr sample_env RedisClient]
    = Some (ErrText ''busy'')"
    by (simp add: sample_env_def)
  with stop app show ?thesis by metis
qed



end
