(* ===== verification/Requests.thy ===== *)
theory Requests
  imports Application
begin

text \<open>
  Sequences of requests through the initialised server. The outer middleware are seen through: a
  request that is no preflight reaches the router with its id attached, and the status and Redis
  state it leaves are those the router left. The rate limiter inside then decides, request by
  request, as \<open>allow_run\<close> of the limiter does.
\<close>

fun serve_run :: "'s handler \<Rightarrow> Request list \<Rightarrow> 's \<Rightarrow> Response list \<times> 's" where
  "serve_run h [] s = ([], s)"
| "serve_run h (r # rs) s =
     (let (w, s1, p) = h r new_Response s; (ws, s2) = serve_run h rs s1 in (w # ws, s2))"

subsection \<open>Through the outer middleware\<close>

lemma sent_status_pop [simp]: "sent_status (snd (pop_recorder w)) = sent_status w"
  by (simp add: pop_recorder_def sent_status_def)

lemma fresh_cors [simp]: "fresh_writer (cors_headers cfg origin w) = fresh_writer w"
  by (subst cors_headers_only) (simp add: fresh_writer_def)

lemma fresh_push [simp]: "fresh_writer (push_recorder w) = fresh_writer w"
  by (simp add: fresh_writer_def push_recorder_def)

text \<open>The part of the world the outer middleware leave alone: Redis, and the hub with the registry.\<close>

definition inner_world :: "'r world \<Rightarrow> ('r \<times> nat) \<times> hub_world" where
  "inner_world s = (wd_redis s, wd_hw s)"

lemma inner_world_frame [simp]:
  "inner_world (snd (world_now e s)) = inner_world s" "inner_world (snd (world_uuid e s)) = inner_world s"
  "inner_world (upd_metrics f s) = inner_world s" "inner_world (s\<lparr>wd_access := ls\<rparr>) = inner_world s"
  by (simp_all add: inner_world_def world_now_def world_uuid_def upd_metrics_def)

lemma redis_frame [simp]: "wd_redis (upd_metrics f s) = wd_redis s"
  by (simp add: upd_metrics_def)

lemma inner_worldD: "inner_world s = inner_world t \<Longrightarrow> wd_redis s = wd_redis t \<and> wd_hw s = wd_hw t"
  by (simp add: inner_world_def)

lemma RequestID_through:
  "\<exists>i s1. RequestID (world_uuid e) h r new_Response s = h (r\<lparr>q_RequestID := Some i\<rparr>) (set_header RequestIDHeader i new_Response) s1
     \<and> inner_world s1 = inner_world s"
  by (cases "Header_Get (q_Header r) RequestIDHeader = ''''")
    (auto simp: RequestID_def Let_def split_beta intro!: exI)

lemma AccessLog_through:
  assumes "h r (push_recorder w) (snd (world_now e s)) = (w2, s2, None)"
    and "\<And>l s. inner_world (emit l s) = inner_world s"
  shows "\<exists>w' s'. AccessLog (world_now e) emit h r w s = (w', s', None) \<and> sent_status w' = sent_status w2 \<and> inner_world s' = inner_world s2"
  using assms by (simp add: AccessLog_def Let_def split_beta)

lemma metrics_through:
  assumes "h r (push_recorder w) (snd (world_now e s)) = (w2, s2, None)"
  shows "\<exists>w' s'. metrics_Middleware pattern (world_now e) upd_metrics h r w s = (w', s', None)
    \<and> sent_status w' = sent_status w2 \<and> inner_world s' = inner_world s2"
  using assms by (simp add: metrics_Middleware_def Let_def split_beta)

lemma app_stack_through:
  assumes "tame (\<lambda>_. ()) mux" and "q_Method r \<noteq> ''OPTIONS''"
  obtains i w1 s1 w2 s2 w' s' where "fresh_writer w1" "inner_world s1 = inner_world s"
    "mux (r\<lparr>q_RequestID := Some i\<rparr>) w1 s1 = (w2, s2, None)"
    "app_stack e cfg mux r new_Response s = (w', s', None)" "sent_status w' = sent_status w2" "inner_world s' = inner_world s2"
proof -
  let ?log = "\<lambda>l s. s\<lparr>wd_access := wd_access s @ [l]\<rparr>" and ?pan = "\<lambda>path v s. s\<lparr>wd_panics := wd_panics s @ [(path, v)]\<rparr>"
  let ?met = "metrics_Middleware (ev_pattern e) (world_now e) upd_metrics (CORS cfg mux)"
  obtain i s0 where enter: "app_stack e cfg mux r new_Response s =
      AccessLog (world_now e) ?log (Recovery ?pan ?met) (r\<lparr>q_RequestID := Some i\<rparr>) (set_header RequestIDHeader i new_Response) s0"
      and s0: "inner_world s0 = inner_world s"
    using RequestID_through [of e "AccessLog (world_now e) ?log (Recovery ?pan ?met)" r s] unfolding app_stack_def by blast
  let ?r = "r\<lparr>q_RequestID := Some i\<rparr>" and ?w = "push_recorder (set_header RequestIDHeader i new_Response)"
  let ?s = "snd (world_now e (snd (world_now e s0)))"
  define w1 where "w1 = cors_headers cfg (Header_Get (q_Header r) ''Origin'') (push_recorder ?w)"
  obtain w2 s2 where mux: "mux ?r w1 ?s = (w2, s2, None)" by (rule tame.tame_run [OF assms(1)])
  have cors: "CORS cfg mux ?r (push_recorder ?w) ?s = (w2, s2, None)"
    using assms(2) mux by (simp add: CORS_def Let_def w1_def)
  obtain w3 s3 where met: "?met ?r ?w (snd (world_now e s0)) = (w3, s3, None)" "sent_status w3 = sent_status w2" "inner_world s3 = inner_world s2"
    using metrics_through [where h = "CORS cfg mux" and r = ?r and w = ?w and s = "snd (world_now e s0)", OF cors] by blast
  then have "Recovery ?pan ?met ?r ?w (snd (world_now e s0)) = (w3, s3, None)" by (simp add: Recovery_def)
  from AccessLog_through [where h = "Recovery ?pan ?met" and r = ?r and w = "set_header RequestIDHeader i new_Response"
      and s = s0 and emit = ?log, OF this] met(2,3) enter
  obtain w' s' where "app_stack e cfg mux r new_Response s = (w', s', None)" "sent_status w' = sent_status w2" "inner_world s' = inner_world s2"
    by auto
  moreover have "fresh_writer w1" by (simp add: w1_def)
  moreover have "inner_world ?s = inner_world s" by (simp add: s0)
  ultimately show thesis using that mux by blast
qed

subsection \<open>No handler answers 429\<close>

lemma endpoint_status: "fresh_writer w \<Longrightarrow> sent_status (fst (serve_endpoint keccak spec a ep r w s)) \<noteq> 429"
  by (cases ep)
    (auto simp: serve_endpoint_def Health_def ListAssets_def GetAssetPrice_def GetRequest_def ListSubmissions_def
      GetSubmission_def submission_answer_def Docs_def OpenAPISpec_def Let_def writeJSON_fresh writeError_fresh
      Write_def conn_WriteHeader_def set_header_def sent_status_def [of "_\<lparr>w_Body := _\<rparr>"] fresh_writer_def
      split: option.splits sum.splits)

subsection \<open>One limited request\<close>

text \<open>What is relied on in the router: its API prefix does not depend on the request id, and its own answers.\<close>

definition router_ok :: "('conn, 'r) env \<Rightarrow> bool" where
  "router_ok e \<longleftrightarrow> tame wd_redis (ev_unmatched e)
     \<and> (\<forall>r w s. fresh_writer w \<longrightarrow> sent_status (fst (ev_unmatched e r w s)) \<noteq> 429)
     \<and> (\<forall>r i. rt_underAPI (ev_router e) (r\<lparr>q_RequestID := i\<rparr>) = rt_underAPI (ev_router e) r)"

text \<open>A request the limiter applies to.\<close>

definition limited :: "('conn, 'r) env \<Rightarrow> Request \<Rightarrow> bool" where
  "limited e r \<longleftrightarrow> rt_underAPI (ev_router e) r \<and> q_Method r \<noteq> ''OPTIONS'' \<and> \<not> bypassed api_bypass r"

definition app_limiter :: "Scheme \<Rightarrow> RedisLimiter" where
  "app_limiter cfg = NewRedisLimiter (rl_RequestsPerMinute (s_RateLimit cfg)) (rl_BurstSize (s_RateLimit cfg))"

lemma remoteHost_id [simp]: "remoteHost (r\<lparr>q_RequestID := i\<rparr>) = remoteHost r"
  by (simp add: remoteHost_def cong: option.case_cong)

lemma forwarded_for_id [simp]: "forwarded_for (r\<lparr>q_RequestID := i\<rparr>) = forwarded_for r"
  by (simp add: forwarded_for_def)

lemma request_id_irrelevant [simp]:
  "ClientIP (r\<lparr>q_RequestID := i\<rparr>) t = ClientIP r t" "bypassed b (r\<lparr>q_RequestID := i\<rparr>) = bypassed b r"
  unfolding ClientIP_def remoteHost_id forwarded_for_id by (rule refl) (simp add: bypassed_def)

lemma api_mux_status:
  assumes "router_ok e" and "fresh_writer w"
  shows "sent_status (fst (api_mux rt keccak spec api (ev_unmatched e) r w s)) \<noteq> 429"
  using assms
  by (auto simp: api_mux_def router_ok_def endpoint_status split: option.split)

lemma api_mux_run:
  assumes "router_ok e" and "fresh_writer w"
  obtains w' s' where "api_mux rt keccak spec api (ev_unmatched e) r w s = (w', s', None)" "sent_status w' \<noteq> 429"
    "wd_redis s' = wd_redis s"
proof -
  have "tame wd_redis (api_mux rt keccak spec api (ev_unmatched e))"
    using assms(1) by (simp add: router_ok_def tame_api_mux)
  then obtain w' s' where run: "api_mux rt keccak spec api (ev_unmatched e) r w s = (w', s', None)" "wd_redis s' = wd_redis s"
    by (rule tame.tame_run)
  with api_mux_status [OF assms, of rt keccak spec api r s] that show thesis by simp
qed

lemma limited_mux:
  assumes "router_ok e" and "limited e r" and "fresh_writer w" and "rl_Enabled (s_RateLimit (app_config app))"
    and "world_allow e (app_limiter (app_config app)) (ClientIP r (http_TrustedProxies (s_HTTP (app_config app)))) s = (Inr d, s1)"
  obtains w' s' where "app_mux e app conns r w s = (w', s', None)"
    "sent_status w' = 429 \<longleftrightarrow> \<not> d_Allowed d" "wd_redis s' = wd_redis s1"
proof -
  obtain pc ix oc where conns: "conns = (pc, ix, oc)" by (cases conns)
  let ?cfg = "app_config app"
  let ?api = "api_mux (ev_router e) (ev_keccak e) (ev_spec e) (app_api e app pc ix oc) (ev_unmatched e)"
  let ?cb = "[Some (\<lambda>ipClass. upd_metrics (count_rejected ipClass))]"
  have mux: "app_mux e app conns r w s = ratelimit_Middleware (world_allow e (app_limiter ?cfg))
      (http_TrustedProxies (s_HTTP ?cfg)) api_bypass ?cb ?api r w s"
    using assms(2,4) by (simp add: app_mux_def conns root_mux_def limited_def app_apiMW_def use_all_def app_limiter_def)
  have nb: "\<not> bypassed api_bypass r" using assms(2) by (simp add: limited_def)
  let ?w = "set_header ''X-RateLimit-Remaining'' (Itoa (d_Remaining d)) (set_header ''X-RateLimit-Limit'' (Itoa (d_Limit d)) w)"
  show thesis
  proof (cases "d_Allowed d")
    case True
    obtain w' s' where "?api r ?w s1 = (w', s', None)" "sent_status w' \<noteq> 429" "wd_redis s' = wd_redis s1"
      by (rule api_mux_run [OF assms(1), of ?w]) (use assms(3) in simp_all)
    moreover have "app_mux e app conns r w s = ?api r ?w s1"
      by (simp add: mux ratelimit_Middleware_def nb assms(5) True Let_def)
    ultimately show ?thesis using that True by simp
  next
    case False
    let ?v = "set_header ''Content-Type'' ''application/json; charset=utf-8''
        (set_header ''Retry-After'' (Itoa (whole_seconds (d_RetryAfter d))) ?w)"
    have "app_mux e app conns r w s = (json_Encode (json_rate_limited d) (WriteHeader 429 ?v), run_callbacks ?cb s1, None)"
      by (simp add: mux ratelimit_Middleware_def nb assms(5) False Let_def)
    moreover have "sent_status (json_Encode (json_rate_limited d) (WriteHeader 429 ?v)) = 429"
      using assms(3) by (auto simp: writer_defs sent_status_def fresh_writer_def json_Marshal_def split: sum.split)
    ultimately show ?thesis using that [of _ "run_callbacks ?cb s1"] False by simp
  qed
qed

lemma tame_weaken: "tame obs h \<Longrightarrow> tame (\<lambda>_. ()) h"
  by unfold_locales (auto dest: tame.tame)

lemma app_mux_calm:
  assumes "router_ok e"
  shows "tame (\<lambda>_. ()) (app_mux e app conns)"
proof -
  obtain pc ix oc where conns: "conns = (pc, ix, oc)" by (cases conns)
  have unmatched: "tame (\<lambda>_. ()) (ev_unmatched e)" using assms tame_weaken by (auto simp: router_ok_def)
  have mws: "mw \<in> set (app_apiMW e (app_config app)) \<Longrightarrow> tame (\<lambda>_. ()) h \<Longrightarrow> tame (\<lambda>_. ()) (mw h)" for mw h
    by (auto simp: app_apiMW_def intro!: tame_ratelimit split: if_splits)
  have ws: "tame (\<lambda>_. ()) (hub_Serve_http (ev_wsRefused e) None (world_join e))" by (rule tame_Serve_http) simp
  show ?thesis
    unfolding app_mux_def conns prod.case by (rule tame_root_mux, erule mws, assumption, rule ws, rule unmatched)
qed

subsection \<open>The verdicts of a run\<close>

text \<open>The calls of the limiter that the requests make, from the \<open>n\<close>-th call of the process on.\<close>

fun limiter_calls :: "(nat \<Rightarrow> int \<times> string \<times> go_error option) \<Rightarrow> string list \<Rightarrow> nat \<Rightarrow> Request list \<Rightarrow> request list" where
  "limiter_calls env trusted n [] = []"
| "limiter_calls env trusted n (r # rs) =
     (ClientIP r trusted, fst (env n), fst (snd (env n))) # limiter_calls env trusted (Suc n) rs"

lemma Allow_total: "\<exists>r' d. Allow R l key now uuid None r = (r', Inr d)"
  by (auto simp: Allow_def slidingWindowScript_def decode_reply_def Let_def)

lemma world_allow_step:
  assumes "wd_redis s = (r, n)" and "ev_redisCall e n = (now, uuid, None)"
  obtains r' d where "world_allow e l key s = (Inr d, s\<lparr>wd_redis := (r', Suc n)\<rparr>)"
    "Allow (ev_redis e) l key now uuid None (server_time (ev_redis e) now r) = (r', Inr d)"
proof -
  obtain r' d where "Allow (ev_redis e) l key now uuid None (server_time (ev_redis e) now r) = (r', Inr d)"
    using Allow_total [of "ev_redis e" l key now uuid "server_time (ev_redis e) now r"] by blast
  with assms that show thesis by (simp add: world_allow_def redis_allow_def)
qed

lemma serve_run_verdicts:
  assumes "router_ok e" and "rl_Enabled (s_RateLimit (app_config app))"
    and "\<And>n. snd (snd (ev_redisCall e n)) = None"
    and "\<And>r. r \<in> set rs \<Longrightarrow> limited e r"
    and "wd_redis s = (red, n)"
  shows "map (\<lambda>w. sent_status w \<noteq> 429) (fst (serve_run (app_stack e cfg (app_mux e app conns)) rs s)) =
    map allowed (snd (allow_run (ev_redis e) (app_limiter (app_config app))
      (limiter_calls (ev_redisCall e) (http_TrustedProxies (s_HTTP (app_config app))) n rs) red))"
  using assms(4,5)
proof (induction rs arbitrary: s red n)
  case (Cons r rs)
  let ?trusted = "http_TrustedProxies (s_HTTP (app_config app))" and ?l = "app_limiter (app_config app)"
  obtain now uuid where call: "ev_redisCall e n = (now, uuid, None)"
    using assms(3) [of n] by (cases "ev_redisCall e n") auto
  have lim: "limited e r" using Cons.prems by simp
  then have "q_Method r \<noteq> ''OPTIONS''" by (simp add: limited_def)
  from app_stack_through [OF app_mux_calm [OF assms(1)] this] obtain i w1 s1 w2 s2 w' s' where thr: "fresh_writer w1" "inner_world s1 = inner_world s"
      "app_mux e app conns (r\<lparr>q_RequestID := Some i\<rparr>) w1 s1 = (w2, s2, None)"
      "app_stack e cfg (app_mux e app conns) r new_Response s = (w', s', None)"
      "sent_status w' = sent_status w2" "inner_world s' = inner_world s2"
    by metis
  have red: "wd_redis s1 = (red, n)" using inner_worldD [OF thr(2)] Cons.prems(2) by simp
  obtain r' d where allow: "world_allow e ?l (ClientIP (r\<lparr>q_RequestID := Some i\<rparr>) ?trusted) s1 = (Inr d, s1\<lparr>wd_redis := (r', Suc n)\<rparr>)"
      and step: "Allow (ev_redis e) ?l (ClientIP r ?trusted) now uuid None (server_time (ev_redis e) now red) = (r', Inr d)"
    unfolding request_id_irrelevant
    by (rule world_allow_step [OF red call, of ?l "ClientIP r ?trusted"])
  have lim': "limited e (r\<lparr>q_RequestID := Some i\<rparr>)" using lim assms(1) by (simp add: limited_def router_ok_def)
  have w2: "sent_status w2 = 429 \<longleftrightarrow> \<not> d_Allowed d" "wd_redis s2 = (r', Suc n)"
    by (rule limited_mux [OF assms(1) lim' thr(1) assms(2) allow, of conns], use thr(3) in simp)+
  have "map (\<lambda>w. sent_status w \<noteq> 429) (fst (serve_run (app_stack e cfg (app_mux e app conns)) rs s')) =
      map allowed (snd (allow_run (ev_redis e) ?l (limiter_calls (ev_redisCall e) ?trusted (Suc n) rs) r'))"
    using Cons.IH [of s' r' "Suc n"] Cons.prems(1) inner_worldD [OF thr(6)] w2(2) by simp
  then show ?case
    using w2(1) by (simp add: thr(4,5) call step allowed_def Let_def split_beta)
qed simp

end
