(* ===== verification/Accounting.thy ===== *)
theory Accounting
  imports Requests
begin

text \<open>
  The two cases in which the request counter and the answer part ways. An honest handler that returns
  is counted under the status it sent; a handler that panics is not counted at all, since the metrics
  middleware stands inside \<open>Recovery\<close> and has no \<open>defer\<close>; and an upgrade that fails after the inner
  recorder noted its 101 is counted as a success.
\<close>

subsection \<open>The stack, seen from a request that reaches the router\<close>

lemma accounts_parts:
  "wd_access (snd (world_now e s)) = wd_access s" "wd_metrics (snd (world_now e s)) = wd_metrics s"
  "wd_panics (snd (world_now e s)) = wd_panics s"
  "wd_access (snd (world_uuid e s)) = wd_access s" "wd_metrics (snd (world_uuid e s)) = wd_metrics s"
  "wd_panics (snd (world_uuid e s)) = wd_panics s"
  "wd_access (upd_metrics f s) = wd_access s" "wd_panics (upd_metrics f s) = wd_panics s"
  "wd_metrics (upd_metrics f s) = f (wd_metrics s)"
  by (simp_all add: world_now_def world_uuid_def upd_metrics_def)

text \<open>What the three books say: access lines, panics, and the request counter.\<close>

definition books :: "'r world \<Rightarrow> access_line list \<times> (string \<times> string) list \<times> (string \<times> string \<times> string \<Rightarrow> nat)" where
  "books s = (wd_access s, wd_panics s, m_HTTPRequestsTotal (wd_metrics s))"

lemma books_frame [simp]:
  "books (snd (world_now e s)) = books s" "books (snd (world_uuid e s)) = books s"
  "books (upd_metrics (observe_duration l d) s) = books s"
  by (simp_all add: books_def accounts_parts observe_duration_def)

lemma books_update:
  "books (upd_metrics (count_request l) s) =
     (wd_access s, wd_panics s, (m_HTTPRequestsTotal (wd_metrics s))(l := Suc (m_HTTPRequestsTotal (wd_metrics s) l)))"
  "books (s\<lparr>wd_access := wd_access s @ [line]\<rparr>) = (wd_access s @ [line], snd (books s))"
  "books (s\<lparr>wd_panics := wd_panics s @ [pan]\<rparr>) = (wd_access s, wd_panics s @ [pan], m_HTTPRequestsTotal (wd_metrics s))"
  by (simp_all add: books_def accounts_parts count_request_def)

text \<open>
  What the router gets when the server passes on a request that is no preflight: the request with its
  id, a writer with the two recorders, and the world after one id and two readings of the clock.
\<close>

definition entry_id :: "('conn, 'r) env \<Rightarrow> Request \<Rightarrow> 'r world \<Rightarrow> string" where
  "entry_id e r s = (let h = Header_Get (q_Header r) RequestIDHeader in if h = '''' then ev_uuid e (wd_uuids s) else h)"

definition entry_world :: "('conn, 'r) env \<Rightarrow> Request \<Rightarrow> 'r world \<Rightarrow> 'r world" where
  "entry_world e r s = snd (world_now e (snd (world_now e
     (if Header_Get (q_Header r) RequestIDHeader = '''' then snd (world_uuid e s) else s))))"

definition entry_writer :: "HTTPConfig \<Rightarrow> Request \<Rightarrow> string \<Rightarrow> Response" where
  "entry_writer cfg r i = cors_headers cfg (Header_Get (q_Header r) ''Origin'')
     (push_recorder (push_recorder (set_header RequestIDHeader i new_Response)))"

lemma entry_writer_frame [simp]:
  "w_Sent (entry_writer cfg r i) = None" "w_Recorders (entry_writer cfg r i) = [(200, False), (200, False)]"
  by (simp_all add: entry_writer_def new_Response_def)

lemma books_entry [simp]: "books (entry_world e r s) = books s"
  by (simp add: entry_world_def)

lemma app_stack_entry:
  fixes s :: "'r world"
  assumes "q_Method r \<noteq> ''OPTIONS''"
    and "mux (r\<lparr>q_RequestID := Some (entry_id e r s)\<rparr>) (entry_writer cfg r (entry_id e r s)) (entry_world e r s) = (w1, s1, p)"
  defines "l \<equiv> \<lambda>status. (q_Method r, metrics_path (ev_pattern e) (r\<lparr>q_RequestID := Some (entry_id e r s)\<rparr>), Itoa status)"
  obtains w' s' line where "app_stack e cfg mux r new_Response s = (w', s', None)"
    "al_request_id line = entry_id e r s" "al_path line = q_Path r" "al_method line = q_Method r"
    "al_status line = fst (hd (w_Recorders (case p of None \<Rightarrow> snd (pop_recorder w1)
       | Some v \<Rightarrow> http_Error ''internal server error'' 500 (snd (pop_recorder w1)))))"
    "sent_status w' = sent_status (case p of None \<Rightarrow> w1 | Some v \<Rightarrow> http_Error ''internal server error'' 500 (snd (pop_recorder w1)))"
    "books s' = (wd_access s1 @ [line], wd_panics s1 @ (case p of None \<Rightarrow> [] | Some v \<Rightarrow> [(q_Path r, v)]),
       (case p of None \<Rightarrow> (m_HTTPRequestsTotal (wd_metrics s1))(l (fst (hd (w_Recorders w1))) :=
            Suc (m_HTTPRequestsTotal (wd_metrics s1) (l (fst (hd (w_Recorders w1))))))
        | Some v \<Rightarrow> m_HTTPRequestsTotal (wd_metrics s1)))"
proof -
  define r1 where "r1 = r\<lparr>q_RequestID := Some (entry_id e r s)\<rparr>"
  define w0 where "w0 = set_header RequestIDHeader (entry_id e r s) new_Response"
  define s0 where "s0 = (if Header_Get (q_Header r) RequestIDHeader = '''' then snd (world_uuid e s) else s)"
  define emit where "emit = (\<lambda>l (s :: 'r world). s\<lparr>wd_access := wd_access s @ [l]\<rparr>)"
  define pan where "pan = (\<lambda>path v (s :: 'r world). s\<lparr>wd_panics := wd_panics s @ [(path, v)]\<rparr>)"
  define met where "met = metrics_Middleware (ev_pattern e) (world_now e) upd_metrics (CORS cfg mux)"
  have enter: "app_stack e cfg mux r new_Response s = AccessLog (world_now e) emit (Recovery pan met) r1 w0 s0"
    by (simp add: app_stack_def RequestID_def entry_id_def r1_def w0_def s0_def world_uuid_def emit_def pan_def met_def Let_def)
  have r1: "q_Method r1 = q_Method r" "q_Path r1 = q_Path r" "q_Header r1 = q_Header r" "RequestIDFromContext r1 = entry_id e r s"
    by (simp_all add: r1_def RequestIDFromContext_def)
  have core: "CORS cfg mux r1 (push_recorder (push_recorder w0)) (snd (world_now e (snd (world_now e s0)))) = (w1, s1, p)"
    using assms(2) by (simp add: CORS_def Let_def r1 assms(1)) (simp add: r1_def w0_def s0_def entry_writer_def entry_world_def)
  obtain t0 sa where ta: "world_now e s0 = (t0, sa)" by fastforce
  obtain t1 sb where tb: "world_now e sa = (t1, sb)" by fastforce
  show thesis
  proof (cases p)
    case None
    let ?status = "fst (hd (w_Recorders w1))"
    obtain t2 sc where tc: "world_now e s1 = (t2, sc)" by fastforce
    let ?sd = "upd_metrics (observe_duration (q_Method r1, metrics_path (ev_pattern e) r1) (t2 - t1)) (upd_metrics (count_request (q_Method r1, metrics_path (ev_pattern e) r1, Itoa ?status)) sc)"
    obtain t3 se where te: "world_now e ?sd = (t3, se)" by fastforce
    have met: "met r1 (push_recorder w0) sa = (snd (pop_recorder w1), ?sd, None)"
      using core by (simp add: met_def metrics_Middleware_def ta tb tc None pop_recorder_def Let_def)
    let ?line = "\<lparr>al_method = q_Method r1, al_path = q_Path r1, al_status = fst (pop_recorder (snd (pop_recorder w1))),
        al_duration_ms = go_quot (t3 - t0) 1000000, al_request_id = RequestIDFromContext r1, al_remote = q_RemoteAddr r1\<rparr>"
    have res: "app_stack e cfg mux r new_Response s = (snd (pop_recorder (snd (pop_recorder w1))), emit ?line se, None)"
      by (simp add: enter AccessLog_def ta Recovery_def met te split_beta Let_def)
    have sc: "books sc = books s1" using books_frame(1) [of e s1] tc by simp
    have "books se = books ?sd" using books_frame(1) [of e ?sd] te by simp
    then have se: "books se = books (upd_metrics (count_request (q_Method r1, metrics_path (ev_pattern e) r1, Itoa ?status)) sc)" by simp
    show thesis
      by (rule that [OF res, of ?line]) (use se sc in \<open>simp_all add: None r1 emit_def books_update pop_recorder_def sent_status_def, simp add: books_def accounts_parts count_request_def l_def r1_def\<close>)
  next
    case (Some v)
    let ?w2 = "http_Error ''internal server error'' 500 (snd (pop_recorder w1))" and ?sd = "pan (q_Path r1) v s1"
    have rec: "Recovery pan met r1 (push_recorder w0) sa = (?w2, ?sd, None)"
      using core by (simp add: Recovery_def met_def metrics_Middleware_def ta tb Some Let_def)
    obtain t3 se where te: "world_now e ?sd = (t3, se)" by fastforce
    let ?line = "\<lparr>al_method = q_Method r1, al_path = q_Path r1, al_status = fst (pop_recorder ?w2),
        al_duration_ms = go_quot (t3 - t0) 1000000, al_request_id = RequestIDFromContext r1, al_remote = q_RemoteAddr r1\<rparr>"
    have res: "app_stack e cfg mux r new_Response s = (snd (pop_recorder ?w2), emit ?line se, None)"
      by (simp add: enter AccessLog_def ta rec te split_beta Let_def)
    have se: "books se = books ?sd" using books_frame(1) [of e ?sd] te by simp
    show thesis
      by (rule that [OF res, of ?line]) (use se in \<open>simp_all add: Some r1 emit_def books_update pan_def pop_recorder_def sent_status_def, simp add: books_def\<close>)
  qed
qed

subsection \<open>Properties\<close>

definition sample_world :: "redis_store world" where
  "sample_world = \<lparr>wd_redis = (empty_store, 0), wd_metrics = the (metrics_New None), wd_access = [], wd_panics = [],
     wd_hw = idle_world, wd_ticks = 0, wd_uuids = 0\<rparr>"

definition sample_get :: Request where
  "sample_get = (preflight '''')\<lparr>q_Method := ''GET''\<rparr>"

text \<open>
  Property C39. A panic is answered and logged, but not counted: when the handler of a request panics
  before it has answered, the client gets status 500, the panic is logged once with the request's
  path, the access log has one line with status 500 and the request's id; and no sample of the request
  counter changes, so the counter misses exactly the requests that failed worst.
\<close>

theorem panic_answered_not_counted:
  assumes "q_Method r \<noteq> ''OPTIONS''"
    and "\<And>r' w s'. w_Sent w = None \<Longrightarrow> \<exists>w2 s2. mux r' w s' = (w2, s2, Some v) \<and> w_Sent w2 = None
      \<and> w_Recorders w2 = w_Recorders w \<and> wd_access s2 = wd_access s' \<and> wd_panics s2 = wd_panics s'
      \<and> wd_metrics s2 = wd_metrics s'"
  shows "\<exists>w' s' line. app_stack e cfg mux r new_Response s = (w', s', None) \<and> sent_status w' = 500
    \<and> wd_panics s' = wd_panics s @ [(q_Path r, v)]
    \<and> wd_access s' = wd_access s @ [line] \<and> al_status line = 500 \<and> al_path line = q_Path r
    \<and> al_request_id line = entry_id e r s
    \<and> m_HTTPRequestsTotal (wd_metrics s') = m_HTTPRequestsTotal (wd_metrics s)"
proof -
  obtain w2 s2 where mux: "mux (r\<lparr>q_RequestID := Some (entry_id e r s)\<rparr>) (entry_writer cfg r (entry_id e r s)) (entry_world e r s)
        = (w2, s2, Some v)"
      and w2: "w_Sent w2 = None" "w_Recorders w2 = [(200, False), (200, False)]" and s2: "books s2 = books s"
    using assms(2) [of "entry_writer cfg r (entry_id e r s)" "r\<lparr>q_RequestID := Some (entry_id e r s)\<rparr>" "entry_world e r s"]
      books_entry [of e r s] by (auto simp: books_def)
  let ?w = "http_Error ''internal server error'' 500 (snd (pop_recorder w2))"
  have "sent_status ?w = 500" "fst (hd (w_Recorders ?w)) = 500"
    using w2 by (simp_all add: writer_defs pop_recorder_def sent_status_def http_Error_def recorder_WriteHeader_def Let_def)
  then show ?thesis
    using s2
    by - (rule app_stack_entry [where mux = mux and r = r and e = e and cfg = cfg and s = s, OF assms(1) mux],
      auto simp: books_def)
qed

theorem panic_answered_not_counted_witness:
  "\<exists>w' s' line. app_stack sample_env (s_HTTP sample_config) (\<lambda>r w s. (w, s, Some ''nil pointer'')) sample_get new_Response sample_world
      = (w', s', None)
    \<and> sent_status w' = 500 \<and> wd_access s' = [line] \<and> al_status line = 500
    \<and> wd_panics s' = [(''/api/v1/assets'', ''nil pointer'')] \<and> (\<forall>l. m_HTTPRequestsTotal (wd_metrics s') l = 0)"
  using panic_answered_not_counted [of sample_get "\<lambda>r w s. (w, s, Some ''nil pointer'')" "''nil pointer''" sample_env
      "s_HTTP sample_config" sample_world]
  by (auto simp: sample_get_def preflight_def sample_world_def metrics_New_total)

text \<open>
  Property C40. A failed upgrade is counted as a success: on a connection that cannot be hijacked the
  client is answered 500, and the access log says so; but the metrics recorder has noted 101 before it
  passed the call on, so the request counter is incremented under status 101.
\<close>

theorem failed_upgrade_miscounted:
  assumes "q_Method r \<noteq> ''OPTIONS''" and "\<And>i. refused (r\<lparr>q_RequestID := i\<rparr>) = None"
  shows "\<exists>w' s' line. app_stack e cfg (hub_Serve_http refused (Some msg) join) r new_Response s = (w', s', None)
    \<and> sent_status w' = 500 \<and> wd_access s' = wd_access s @ [line] \<and> al_status line = 500
    \<and> (let l = (q_Method r, metrics_path (ev_pattern e) (r\<lparr>q_RequestID := Some (entry_id e r s)\<rparr>), ''101'')
       in m_HTTPRequestsTotal (wd_metrics s') = (m_HTTPRequestsTotal (wd_metrics s))(l := Suc (m_HTTPRequestsTotal (wd_metrics s) l)))"
proof -
  let ?w = "entry_writer cfg r (entry_id e r s)"
  define w2 where "w2 = http_Error msg 500 (?w\<lparr>w_Recorders := [(101, True), (200, False)]\<rparr>)"
  have mux: "hub_Serve_http refused (Some msg) join (r\<lparr>q_RequestID := Some (entry_id e r s)\<rparr>) ?w (entry_world e r s)
      = (w2, entry_world e r s, None)"
    by (simp add: hub_Serve_http_def assms(2) w2_def recorder_Hijack_def)
  have w2: "sent_status w2 = 500" "w_Recorders w2 = [(101, True), (500, True)]"
    by (simp_all add: w2_def writer_defs sent_status_def http_Error_def recorder_WriteHeader_def Let_def)
  have "Itoa 101 = ''101''" by code_simp
  then show ?thesis
    using books_entry [of e r s] w2
    by - (rule app_stack_entry [where mux = "hub_Serve_http refused (Some msg) join" and r = r and e = e and cfg = cfg and s = s,
        OF assms(1) mux],
      auto simp: books_def pop_recorder_def Let_def)
qed

theorem failed_upgrade_miscounted_witness:
  "\<exists>w' s' line. app_stack sample_env (s_HTTP sample_config) (hub_Serve_http (\<lambda>_. None) (Some ''no hijack'') id) sample_get new_Response sample_world
      = (w', s', None)
    \<and> sent_status w' = 500 \<and> wd_access s' = [line] \<and> al_status line = 500
    \<and> m_HTTPRequestsTotal (wd_metrics s') (''GET'', ''unknown'', ''101'') = 1"
  using failed_upgrade_miscounted [of sample_get "\<lambda>_. None" sample_env "s_HTTP sample_config" "''no hijack''" id sample_world]
  by (auto simp: sample_get_def preflight_def sample_world_def metrics_New_total metrics_path_def sample_env_def Let_def)

end
