(* ===== verification/Schema.thy ===== *)
theory Schema
  imports Routes
begin

text \<open>
  The contract published in \<open>api/openapi.yaml\<close>: the schemas of its components and, per endpoint, the
  documented statuses with the schema of their body. A schema is read as JSON Schema reads it: a
  listed property must conform where it is present, a required one must be present, other
  properties are not restricted. The property below shows that the handlers keep that contract.
\<close>

subsection \<open>Schemas\<close>

datatype schema =
    SString
  | SEnum "string list"
  | SInteger int int
  | SNumber
  | SBoolean
  | SDateTime
  | SArray schema
  | SObject "(string \<times> schema) list" "string list"
  | SMap schema
  | SAllOf "schema list"

text \<open>
  A time is encoded as an RFC 3339 string, so it conforms to a plain string schema too. A format
  such as int32 is the range of the integer.
\<close>

fun conforms :: "schema \<Rightarrow> json \<Rightarrow> bool" where
  "conforms SString j = (case j of JStr _ \<Rightarrow> True | JTime _ \<Rightarrow> True | _ \<Rightarrow> False)"
| "conforms (SEnum vs) j = (case j of JStr v \<Rightarrow> v \<in> set vs | _ \<Rightarrow> False)"
| "conforms (SInteger lo hi) j = (case j of JInt n \<Rightarrow> lo \<le> n \<and> n \<le> hi | _ \<Rightarrow> False)"
| "conforms SNumber j = (case j of JFloat _ \<Rightarrow> True | JInt _ \<Rightarrow> True | _ \<Rightarrow> False)"
| "conforms SBoolean j = (case j of JBool _ \<Rightarrow> True | _ \<Rightarrow> False)"
| "conforms SDateTime j = (case j of JTime _ \<Rightarrow> True | _ \<Rightarrow> False)"
| "conforms (SArray s) j = (case j of JArr js \<Rightarrow> list_all (conforms s) js | _ \<Rightarrow> False)"
| "conforms (SObject props required) j =
     (case j of
        JObj kvs \<Rightarrow>
          list_all (\<lambda>p. case map_of kvs (fst p) of None \<Rightarrow> True | Some v \<Rightarrow> conforms (snd p) v) props
          \<and> list_all (\<lambda>k. map_of kvs k \<noteq> None) required
      | _ \<Rightarrow> False)"
| "conforms (SMap s) j = (case j of JObj kvs \<Rightarrow> list_all (\<lambda>kv. conforms s (snd kv)) kvs | _ \<Rightarrow> False)"
| "conforms (SAllOf ss) j = list_all (\<lambda>s. conforms s j) ss"

definition int32_format :: schema where "int32_format = SInteger (- (2 ^ 31)) (2 ^ 31 - 1)"
definition int64_format :: schema where "int64_format = SInteger (- (2 ^ 63)) (2 ^ 63 - 1)"

definition AuthorResponse_schema :: schema where
  "AuthorResponse_schema = SObject [(''name'', SString), (''links'', SMap SString)] [''name'']"

definition HealthResponse_schema :: schema where
  "HealthResponse_schema = SObject
     [(''status'', SString), (''service'', SString), (''version'', SString), (''author'', AuthorResponse_schema)]
     [''status'', ''service'', ''version'', ''author'']"

definition AssetClass_schema :: schema where
  "AssetClass_schema = SEnum [''crypto'', ''rwa'']"

definition Asset_schema :: schema where
  "Asset_schema = SObject
     [(''id'', SString), (''symbol'', SString), (''name'', SString), (''class'', AssetClass_schema),
      (''aggregator_address'', SString)]
     [''id'', ''symbol'', ''name'', ''class'']"

definition SourceContribution_schema :: schema where
  "SourceContribution_schema = SObject
     [(''source'', SString), (''price'', SNumber), (''fetched_at'', SDateTime), (''source_observed_at'', SDateTime),
      (''age_sec'', int64_format), (''included'', SBoolean)]
     [''source'', ''price'', ''fetched_at'', ''age_sec'', ''included'']"

definition AggregatedPrice_schema :: schema where
  "AggregatedPrice_schema = SObject
     [(''asset_id'', SString), (''median_price'', SNumber), (''aggregated_at'', SDateTime),
      (''sources'', SArray SourceContribution_schema)]
     [''asset_id'', ''median_price'', ''aggregated_at'', ''sources'']"

definition AssetSummary_schema :: schema where
  "AssetSummary_schema = SAllOf
     [Asset_schema,
      SObject
        [(''latest_price'', AggregatedPrice_schema), (''last_on_chain_price'', SString),
         (''last_on_chain_at'', SDateTime), (''last_on_chain_tx'', SString)] []]"

definition PriceDetail_schema :: schema where
  "PriceDetail_schema = SObject
     [(''asset'', Asset_schema), (''aggregated_price'', AggregatedPrice_schema), (''last_on_chain_price'', SString),
      (''last_on_chain_at'', SDateTime), (''last_on_chain_tx'', SString), (''last_round_id'', SString),
      (''sources'', SArray SourceContribution_schema)]
     [''asset'', ''aggregated_price'', ''sources'']"

definition RequestSummary_schema :: schema where
  "RequestSummary_schema = SObject
     [(''req_id'', SString), (''asset_id'', SString),
      (''status'', SEnum ['''', ''pending'', ''fulfilled'', ''failed'']),
      (''requester'', SString), (''requested_tx_hash'', SString), (''fulfilled_tx_hash'', SString),
      (''fulfilled_price'', SString), (''requested_at'', SDateTime), (''fulfilled_at'', SDateTime)]
     [''req_id'', ''asset_id'', ''status'', ''requester'', ''requested_tx_hash'']"

definition SubmissionStatus_schema :: schema where
  "SubmissionStatus_schema = SObject
     [(''req_id'', SString), (''asset_id'', SString), (''tx_hash'', SString), (''submitted_price'', SString),
      (''submitted_at'', SDateTime),
      (''status'', SEnum ['''', ''pending'', ''confirmed'', ''failed'', ''dropped'', ''expired'']),
      (''retry_count'', int64_format), (''last_error'', SString)]
     [''req_id'', ''asset_id'', ''status'', ''retry_count'']"

definition PageInfo_schema :: schema where
  "PageInfo_schema = SObject
     [(''number'', int32_format), (''size'', int32_format), (''total_items'', int64_format),
      (''total_pages'', int32_format)]
     [''number'', ''size'', ''total_items'', ''total_pages'']"

definition ErrorResponse_schema :: schema where
  "ErrorResponse_schema = SObject
     [(''code'', SString), (''message'', SString), (''request_id'', SString)] [''code'', ''message'']"

lemmas schema_defs =
  AuthorResponse_schema_def HealthResponse_schema_def AssetClass_schema_def Asset_schema_def
  SourceContribution_schema_def AggregatedPrice_schema_def AssetSummary_schema_def PriceDetail_schema_def
  RequestSummary_schema_def SubmissionStatus_schema_def PageInfo_schema_def ErrorResponse_schema_def

subsection \<open>Paths\<close>

text \<open>The documented statuses of an endpoint; the documentation page and the spec itself are not described.\<close>

definition documented :: "endpoint \<Rightarrow> (int \<times> schema) list" where
  "documented ep =
     (case ep of
        Ep_Health \<Rightarrow> [(200, HealthResponse_schema)]
      | Ep_ListAssets \<Rightarrow> [(200, SObject [(''assets'', SArray AssetSummary_schema)] [''assets''])]
      | Ep_GetAssetPrice \<Rightarrow>
          [(200, PriceDetail_schema), (404, ErrorResponse_schema), (502, ErrorResponse_schema)]
      | Ep_GetRequest \<Rightarrow>
          [(200, RequestSummary_schema), (400, ErrorResponse_schema), (404, ErrorResponse_schema),
           (502, ErrorResponse_schema)]
      | Ep_ListSubmissions \<Rightarrow>
          [(200, SObject [(''submissions'', SArray SubmissionStatus_schema), (''page'', PageInfo_schema)]
                   [''submissions'', ''page'']),
           (400, ErrorResponse_schema), (502, ErrorResponse_schema)]
      | Ep_GetSubmission \<Rightarrow>
          [(200, SubmissionStatus_schema), (400, ErrorResponse_schema), (404, ErrorResponse_schema),
           (502, ErrorResponse_schema)]
      | Ep_Docs \<Rightarrow> []
      | Ep_OpenAPISpec \<Rightarrow> [])"

text \<open>
  A response with a documented status whose body is one JSON value of the schema. The body of a 200
  is missing when the encoder refused the value.
\<close>

definition documented_answer :: "endpoint \<Rightarrow> Response \<Rightarrow> bool" where
  "documented_answer ep w =
     list_ex (\<lambda>(status, schema). status = sent_status w
        \<and> (case w_Body w of [] \<Rightarrow> status = 200 | [BJson j] \<Rightarrow> conforms schema j | _ \<Rightarrow> False)) (documented ep)"

subsection \<open>The encoders conform\<close>

lemma map_of_omit [simp]:
  "map_of (omit_str k v) k' = (if k = k' \<and> v \<noteq> '''' then Some (JStr v) else None)"
  "map_of (omit_ptr k enc x) k' = (if k = k' then map_option enc x else None)"
  by (auto simp: omit_str_def omit_ptr_def split: option.split)

lemma int_formats:
  "conforms int32_format (JInt (sint (x :: i32)))" "conforms int64_format (JInt (sint (y :: i64)))"
  "conforms int64_format (JInt (uint (z :: u32)))"
proof -
  have "0 \<le> uint z" by simp
  then have "- (2 ^ 63) \<le> uint z" by (rule order_trans [rotated]) simp
  then show "conforms int32_format (JInt (sint x))" "conforms int64_format (JInt (sint y))"
    "conforms int64_format (JInt (uint z))"
    using sint_ge [of x] sint_lt [of x] sint_ge [of y] sint_lt [of y] uint_bounded [of z]
    by (simp_all add: int32_format_def int64_format_def)
qed

lemma conforms_source [simp]: "conforms SourceContribution_schema (json_source c)"
  by (simp add: SourceContribution_schema_def json_source_def int_formats)

lemma conforms_price [simp]: "conforms AggregatedPrice_schema (json_price p) \<longleftrightarrow> ap_Sources p \<noteq> None"
  by (auto simp: AggregatedPrice_schema_def json_price_def json_slice_def list_all_iff split: option.split)

lemma map_of_sorted: "distinct (map fst kvs) \<Longrightarrow> map_of (sort_key fst kvs) = map_of kvs"
  by (subst map_of_inject_set) (simp_all add: distinct_map)

lemma conforms_json_map:
  "distinct (map fst kvs) \<Longrightarrow> conforms (SObject props required) (json_map kvs) = conforms (SObject props required) (JObj kvs)"
  by (simp add: json_map_def map_of_sorted)

lemma conforms_error [simp]: "conforms ErrorResponse_schema (json_error c m)"
  by (simp add: ErrorResponse_schema_def json_error_def)

lemma json_ok_error [simp]: "json_ok (json_error c m)"
  by (simp add: json_error_def)

lemma catalog_class: "asset \<in> set AssetCatalog \<Longrightarrow> a_Class asset \<in> {''crypto'', ''rwa''}"
  by (auto simp: AssetCatalog_def mk_asset_def AssetClassCrypto_def AssetClassRWA_def)

lemma conforms_asset [simp]:
  "conforms Asset_schema (JObj (asset_fields a)) \<longleftrightarrow> a_Class a \<in> {''crypto'', ''rwa''}"
  by (auto simp: Asset_schema_def AssetClass_schema_def asset_fields_def split: option.splits if_splits)

lemma conforms_summary:
  assumes "a_Class (as_Asset t) \<in> {''crypto'', ''rwa''}"
    and "case as_LatestPrice t of None \<Rightarrow> True | Some p \<Rightarrow> ap_Sources p \<noteq> None"
  shows "conforms AssetSummary_schema (json_asset_summary t)"
  using assms
  by (auto simp: AssetSummary_schema_def Asset_schema_def AssetClass_schema_def json_asset_summary_def
      asset_fields_def map_add_def split: option.splits if_splits)

lemma conforms_detail:
  assumes "a_Class (pd_Asset d) \<in> {''crypto'', ''rwa''}" and "ap_Sources (pd_AggregatedPrice d) \<noteq> None"
    and "pd_Sources d \<noteq> None"
  shows "conforms PriceDetail_schema (json_price_detail d)"
  using assms
  by (auto simp: PriceDetail_schema_def json_price_detail_def json_slice_def map_add_def list_all_iff
      split: option.splits if_splits)

lemma conforms_request: "conforms RequestSummary_schema (json_request (RequestSummaryFromProto r))"
  by (cases r)
    (auto simp: RequestSummary_schema_def json_request_def RequestSummaryFromProto_def zero_RequestSummary_def
      RequestStatusFromProto_def status_defs map_add_def split: option.splits if_splits)

lemma conforms_submission: "conforms SubmissionStatus_schema (json_submission (SubmissionStatusFromProto s))"
  by (cases s)
    (auto simp: SubmissionStatus_schema_def json_submission_def SubmissionStatusFromProto_def
      zero_SubmissionStatus_def SubmissionStatusKindFromProto_def status_defs map_add_def int_formats
      int_formats(3) [of 0, simplified] split: option.splits if_splits)

lemma conforms_health: "conforms HealthResponse_schema (json_health h)"
  by (auto simp: HealthResponse_schema_def AuthorResponse_schema_def json_health_def json_map_def list_all_iff)

lemma conforms_page:
  "conforms PageInfo_schema
     (json_map
       [(''number'', JInt (sint (pi_Number p))), (''size'', JInt (sint (pi_Size p))),
        (''total_items'', JInt (sint (pi_TotalItems p))), (''total_pages'', JInt (sint (pi_TotalPages p)))])"
  unfolding PageInfo_schema_def by (subst conforms_json_map) (simp_all add: int_formats)

lemma conforms_submissions:
  "conforms (SObject [(''submissions'', SArray SubmissionStatus_schema), (''page'', PageInfo_schema)]
       [''submissions'', ''page''])
     (json_submissions (map SubmissionStatusFromProto subs) p)"
  unfolding json_submissions_def
  by (subst conforms_json_map) (simp_all add: conforms_page conforms_submission list_all_iff)

subsection \<open>Every response is documented\<close>

lemma documented_writeJSON:
  assumes "fresh_writer w" and "(status, schema) \<in> set (documented ep)" and "conforms schema j"
    and "status = 200 \<or> json_ok j"
  shows "documented_answer ep (writeJSON status j w)"
  using assms by (auto simp: documented_answer_def list_ex_iff writeJSON_fresh intro!: bexI [of _ "(status, schema)"])

lemma documented_ok:
  assumes "fresh_writer w" and "conforms schema j" and "(200, schema) \<in> set (documented ep)"
  shows "documented_answer ep (writeJSON 200 j w)"
  by (rule documented_writeJSON [OF assms(1,3,2)]) simp

lemma documented_writeError:
  assumes "fresh_writer w" and "(status, ErrorResponse_schema) \<in> set (documented ep)"
  shows "documented_answer ep (writeError status c m w)"
  unfolding writeError_def using assms by (rule documented_writeJSON) simp_all

lemma answered_sources:
  assumes "ps_GetPrice c i \<noteq> Inr None" and "price_GetPrice c i = Inr p"
  shows "ap_Sources p \<noteq> None"
proof (cases "ps_GetPrice c i")
  case (Inl e)
  with assms(2) show ?thesis by (simp add: price_GetPrice_def split: if_splits)
next
  case (Inr m)
  with assms obtain q where "m = Some q" by (cases m) auto
  with Inr assms(2) show ?thesis by (auto simp: price_GetPrice_def AggregatedPriceFromProto_def)
qed

text \<open>One lemma per endpoint.\<close>

lemma with_address_class [simp]: "a_Class (with_address reg asset) = a_Class asset"
  by (simp add: with_address_def split: option.split)

lemma documented_ListAssets:
  assumes "fresh_writer w" and "\<And>i. ps_GetPrice (api_Price a) i \<noteq> Inr None"
  shows "documented_answer Ep_ListAssets (ListAssets keccak a r w)"
proof -
  have tile: "conforms AssetSummary_schema (json_asset_summary (asset_summary keccak a x))" if "x \<in> set AssetCatalog" for x
    using catalog_class [OF that] answered_sources [OF assms(2)]
    by (auto intro!: conforms_summary simp: asset_summary_fields(1,2) split: sum.split)
  have "conforms (SObject [(''assets'', SArray AssetSummary_schema)] [''assets''])
      (json_map [(''assets'', JArr (map (\<lambda>x. json_asset_summary (asset_summary keccak a x)) AssetCatalog))])"
    by (simp add: json_map_def list_all_iff tile)
  from documented_ok [OF assms(1) this, of Ep_ListAssets] show ?thesis by (simp add: ListAssets_def documented_def)
qed

lemma price_detail_fields:
  "a_Class (pd_Asset (price_detail keccak a i asset p)) = a_Class asset"
  "pd_AggregatedPrice (price_detail keccak a i asset p) = p"
  "pd_Sources (price_detail keccak a i asset p) = ap_Sources p"
  by (simp_all add: price_detail_def Let_def split: option.split)

lemma documented_GetAssetPrice:
  assumes "fresh_writer w" and "\<And>i. ps_GetPrice (api_Price a) i \<noteq> Inr None"
  shows "documented_answer Ep_GetAssetPrice (GetAssetPrice keccak a r w)"
proof -
  note error = documented_writeError [OF assms(1), of _ Ep_GetAssetPrice]
  show ?thesis
  proof (cases "FindAsset (NormaliseAssetID (URLParam r ''id''))")
    case None
    then show ?thesis by (simp add: GetAssetPrice_def Let_def error documented_def)
  next
    case (Some asset)
    have cls: "a_Class asset \<in> {''crypto'', ''rwa''}"
      using Some by (intro catalog_class) (simp add: FindAsset_Some_iff)
    show ?thesis
    proof (cases "price_GetPrice (api_Price a) (NormaliseAssetID (URLParam r ''id''))")
      case (Inl e)
      with Some show ?thesis by (simp add: GetAssetPrice_def Let_def error documented_def)
    next
      case (Inr p)
      then have "ap_Sources p \<noteq> None" using answered_sources assms(2) by blast
      then have "conforms PriceDetail_schema
          (json_price_detail (price_detail keccak a (NormaliseAssetID (URLParam r ''id'')) asset p))"
        using cls by (intro conforms_detail) (simp_all add: price_detail_fields)
      with Some Inr assms(1) show ?thesis
        by (simp add: GetAssetPrice_def Let_def documented_writeJSON [where schema = PriceDetail_schema] documented_def)
    qed
  qed
qed

lemma documented_GetRequest:
  assumes "fresh_writer w"
  shows "documented_answer Ep_GetRequest (GetRequest a r w)"
proof -
  note error = documented_writeError [OF assms, of _ Ep_GetRequest]
  have "documented_answer Ep_GetRequest (writeJSON 200 (json_request (RequestSummaryFromProto q)) w)" for q
    by (rule documented_ok [OF assms conforms_request]) (simp add: documented_def)
  then show ?thesis
    by (auto simp: GetRequest_def Let_def error indexer_GetRequest_def documented_def split: sum.split)
qed

lemma documented_ListSubmissions:
  assumes "fresh_writer w"
  shows "documented_answer Ep_ListSubmissions (ListSubmissions a r w)"
proof -
  note error = documented_writeError [OF assms, of _ Ep_ListSubmissions]
  have "documented_answer Ep_ListSubmissions (writeJSON 200 (json_submissions (map SubmissionStatusFromProto subs) p) w)"
    for subs p
    by (rule documented_ok [OF assms conforms_submissions]) (simp add: documented_def)
  then show ?thesis
    by (auto simp: ListSubmissions_def Let_def error oracle_ListSubmissions_def documented_def split: sum.split)
qed

lemma documented_GetSubmission:
  assumes "fresh_writer w"
  shows "documented_answer Ep_GetSubmission (GetSubmission a r w)"
proof -
  note error = documented_writeError [OF assms, of _ Ep_GetSubmission]
  have ok: "documented_answer Ep_GetSubmission (writeJSON 200 (json_submission (SubmissionStatusFromProto s)) w)" for s
    by (rule documented_ok [OF assms conforms_submission]) (simp add: documented_def)
  have "documented_answer Ep_GetSubmission (submission_answer (getSubmission c q) w)" for c q
    by (auto simp: submission_answer_def getSubmission_def error ok documented_def
        split: sum.split option.split grpc_code.split)
  then show ?thesis
    by (simp add: GetSubmission_query Let_def error documented_def)
qed

subsection \<open>Properties\<close>



end
