(* ===== verification/Writers.thy ===== *)
theory Writers
  imports Middleware
begin

text \<open>
  The response writers as the code nests them: \<open>statusRecorder\<close> of \<open>internal/middleware/logger.go\<close>
  and \<open>metricsRecorder\<close> of \<open>internal/metrics/middleware.go\<close> each wrap another writer, down to the
  connection of net/http. A method that a recorder defines runs its own code and then calls the
  wrapped writer; the others are those of the embedded writer. The property shows that the flat
  \<open>Response\<close> with its stack of recorders, on which handlers and middleware are modelled, computes the
  same.
\<close>

subsection \<open>Nested writers\<close>

text \<open>
  The connection: live headers, what was sent, the body, and whether it can be hijacked. \<open>Flush\<close>
  sends the headers with status 200 if none went out yet.
\<close>

record conn =
  cn_Header :: header
  cn_Sent :: "(int \<times> header) option"
  cn_Body :: "body list"
  cn_Hijacker :: bool

record recorder =
  rec_status :: int
  rec_wrote :: bool

datatype writer =
    Conn conn
  | StatusRecorder recorder writer
  | MetricsRecorder recorder writer

definition conn_send :: "int \<Rightarrow> conn \<Rightarrow> conn" where
  "conn_send code c = (case cn_Sent c of None \<Rightarrow> c\<lparr>cn_Sent := Some (code, cn_Header c)\<rparr> | Some _ \<Rightarrow> c)"

definition statusRecorder_WriteHeader :: "int \<Rightarrow> recorder \<Rightarrow> recorder" where
  "statusRecorder_WriteHeader code s = (if \<not> rec_wrote s then s\<lparr>rec_status := code, rec_wrote := True\<rparr> else s)"

definition metricsRecorder_WriteHeader :: "int \<Rightarrow> recorder \<Rightarrow> recorder" where
  "metricsRecorder_WriteHeader code s = (if \<not> rec_wrote s then s\<lparr>rec_status := code, rec_wrote := True\<rparr> else s)"

fun writer_WriteHeader :: "int \<Rightarrow> writer \<Rightarrow> writer" where
  "writer_WriteHeader code (Conn c) = Conn (conn_send code c)"
| "writer_WriteHeader code (StatusRecorder s u) =
     StatusRecorder (statusRecorder_WriteHeader code s) (writer_WriteHeader code u)"
| "writer_WriteHeader code (MetricsRecorder s u) =
     MetricsRecorder (metricsRecorder_WriteHeader code s) (writer_WriteHeader code u)"

text \<open>\<open>Header\<close> and \<open>Write\<close> are promoted from the embedded writer.\<close>

fun on_conn :: "(conn \<Rightarrow> conn) \<Rightarrow> writer \<Rightarrow> writer" where
  "on_conn f (Conn c) = Conn (f c)"
| "on_conn f (StatusRecorder s u) = StatusRecorder s (on_conn f u)"
| "on_conn f (MetricsRecorder s u) = MetricsRecorder s (on_conn f u)"

definition writer_SetHeader :: "string \<Rightarrow> string \<Rightarrow> writer \<Rightarrow> writer" where
  "writer_SetHeader k v = on_conn (\<lambda>c. c\<lparr>cn_Header := Header_Set (cn_Header c) k v\<rparr>)"

definition writer_Write :: "body \<Rightarrow> writer \<Rightarrow> writer" where
  "writer_Write b = on_conn (\<lambda>c. let c' = conn_send 200 c in c'\<lparr>cn_Body := cn_Body c' @ [b]\<rparr>)"

text \<open>Whether the dynamic type of a writer implements \<open>http.Hijacker\<close>.\<close>

fun implements_Hijacker :: "writer \<Rightarrow> bool" where
  "implements_Hijacker (Conn c) = cn_Hijacker c"
| "implements_Hijacker (StatusRecorder _ _) = True"
| "implements_Hijacker (MetricsRecorder _ _) = True"

definition statusRecorder_note101 :: "recorder \<Rightarrow> recorder" where
  "statusRecorder_note101 s = (if \<not> rec_wrote s then s\<lparr>rec_status := 101, rec_wrote := True\<rparr> else s)"

definition metricsRecorder_note101 :: "recorder \<Rightarrow> recorder" where
  "metricsRecorder_note101 s = (if \<not> rec_wrote s then s\<lparr>rec_status := 101, rec_wrote := True\<rparr> else s)"

fun writer_Hijack :: "writer \<Rightarrow> writer \<times> go_error option" where
  "writer_Hijack (Conn c) = (Conn c, None)"
| "writer_Hijack (StatusRecorder s u) =
     (if \<not> implements_Hijacker u
      then (StatusRecorder s u,
            Some (ErrText ''middleware.statusRecorder: underlying ResponseWriter does not implement http.Hijacker''))
      else let (u', err) = writer_Hijack u in (StatusRecorder (statusRecorder_note101 s) u', err))"
| "writer_Hijack (MetricsRecorder s u) =
     (if \<not> implements_Hijacker u
      then (MetricsRecorder s u,
            Some (ErrText ''metrics.metricsRecorder: underlying ResponseWriter does not implement http.Hijacker''))
      else let (u', err) = writer_Hijack u in (MetricsRecorder (metricsRecorder_note101 s) u', err))"

text \<open>Every writer of the stack implements \<open>http.Flusher\<close>, so a flush reaches the connection.\<close>

primrec writer_Flush :: "writer \<Rightarrow> writer" where
  "writer_Flush (Conn c) = Conn (conn_send 200 c)"
| "writer_Flush (StatusRecorder s u) = StatusRecorder s (writer_Flush u)"
| "writer_Flush (MetricsRecorder s u) = MetricsRecorder s (writer_Flush u)"

text \<open>What the two middlewares build around the writer they are given.\<close>

definition new_statusRecorder :: "writer \<Rightarrow> writer" where
  "new_statusRecorder w = StatusRecorder \<lparr>rec_status = 200, rec_wrote = False\<rparr> w"

definition new_metricsRecorder :: "writer \<Rightarrow> writer" where
  "new_metricsRecorder w = MetricsRecorder \<lparr>rec_status = 200, rec_wrote = False\<rparr> w"

subsection \<open>The flat response\<close>

fun recorders :: "writer \<Rightarrow> (int \<times> bool) list" where
  "recorders (Conn c) = []"
| "recorders (StatusRecorder s u) = (rec_status s, rec_wrote s) # recorders u"
| "recorders (MetricsRecorder s u) = (rec_status s, rec_wrote s) # recorders u"

fun connection :: "writer \<Rightarrow> conn" where
  "connection (Conn c) = c"
| "connection (StatusRecorder s u) = connection u"
| "connection (MetricsRecorder s u) = connection u"

definition flat :: "writer \<Rightarrow> Response" where
  "flat w = (let c = connection w in
     \<lparr>w_Header = cn_Header c, w_Sent = cn_Sent c, w_Body = cn_Body c, w_Recorders = recorders w\<rparr>)"

lemma on_conn_parts [simp]:
  "recorders (on_conn f w) = recorders w" "connection (on_conn f w) = f (connection w)"
  by (induction w) simp_all

lemma WriteHeader_parts [simp]:
  "recorders (writer_WriteHeader code w) = map (recorder_WriteHeader code) (recorders w)"
  "connection (writer_WriteHeader code w) = conn_send code (connection w)"
  by (induction w) (simp_all add: recorder_WriteHeader_def statusRecorder_WriteHeader_def metricsRecorder_WriteHeader_def)

lemma Flush_parts [simp]:
  "recorders (writer_Flush w) = recorders w" "connection (writer_Flush w) = conn_send 200 (connection w)"
  by (induction w) simp_all

lemma implements_Hijacker_iff:
  "implements_Hijacker w \<longleftrightarrow> recorders w \<noteq> [] \<or> cn_Hijacker (connection w)"
  by (cases w) simp_all

lemma Hijack_connection: "connection (fst (writer_Hijack w)) = connection w"
  by (induction w) (simp_all add: Let_def split_beta)

lemma Hijack_recorders:
  "implements_Hijacker w \<Longrightarrow>
     hijack (cn_Hijacker (connection w)) (recorders w) = (recorders (fst (writer_Hijack w)), snd (writer_Hijack w) = None)"
proof (induction w)
  case (Conn c)
  then show ?case by simp
next
  case (StatusRecorder s u)
  then show ?case
    by (cases "implements_Hijacker u")
      (auto simp: Let_def split_beta implements_Hijacker_iff statusRecorder_note101_def recorder_Hijack_def)
next
  case (MetricsRecorder s u)
  then show ?case
    by (cases "implements_Hijacker u")
      (auto simp: Let_def split_beta implements_Hijacker_iff metricsRecorder_note101_def recorder_Hijack_def)
qed

lemma flat_parts: "w_Recorders (flat w) = recorders w" "w_Sent (flat w) = cn_Sent (connection w)"
  by (simp_all add: flat_def Let_def)

lemma flat_ops:
  "flat (writer_SetHeader k v w) = set_header k v (flat w)"
  "flat (writer_WriteHeader code w) = WriteHeader code (flat w)"
  "flat (writer_Write b w) = Write b (flat w)"
  by (simp_all add: flat_def writer_SetHeader_def writer_Write_def set_header_def WriteHeader_def Write_def
      conn_WriteHeader_def conn_send_def Let_def split: option.split)

text \<open>The calls a handler makes on its writer.\<close>

datatype writer_call = CallSet string string | CallWriteHeader int | CallWrite body

fun call_writer :: "writer_call \<Rightarrow> writer \<Rightarrow> writer" where
  "call_writer (CallSet k v) = writer_SetHeader k v"
| "call_writer (CallWriteHeader code) = writer_WriteHeader code"
| "call_writer (CallWrite b) = writer_Write b"

fun call_flat :: "writer_call \<Rightarrow> Response \<Rightarrow> Response" where
  "call_flat (CallSet k v) = set_header k v"
| "call_flat (CallWriteHeader code) = WriteHeader code"
| "call_flat (CallWrite b) = Write b"

lemma flat_call: "flat (call_writer op w) = call_flat op (flat w)"
  by (cases op) (simp_all add: flat_ops)

lemma flat_calls: "flat (fold call_writer ops w) = fold call_flat ops (flat w)"
  by (induction ops arbitrary: w) (simp_all add: flat_call)

subsection \<open>Properties\<close>


end
