(* ===== verification/Logger.thy ===== *)
theory Logger
  imports Prelude
begin

text \<open>
  The shared logger of \<open>pkg/logger/logger.go\<close>: a pointer that the first call of \<open>Log\<close> sets under a
  \<open>sync.Once\<close>. \<open>Once\<close> is its documented contract: \<open>Do\<close> runs its function on the first call only, and
  no call returns before that run has ended. What logrus creates and formats is a parameter. Any
  number of goroutines call \<open>Log\<close>; a call is two steps, \<open>Do\<close> and the read of the pointer.
\<close>

subsection \<open>The package\<close>

record TextFormatter =
  tf_FullTimestamp :: bool

record 'l logrus =
  lr_New :: 'l
  lr_SetFormatter :: "TextFormatter \<Rightarrow> 'l \<Rightarrow> 'l"

record 'l log_vars =
  lg_once :: bool
  lg_instance :: "nat option"
  lg_heap :: "nat \<rightharpoonup> 'l"
  lg_next :: nat

definition log_start :: "'l log_vars" where
  "log_start = \<lparr>lg_once = False, lg_instance = None, lg_heap = Map.empty, lg_next = 0\<rparr>"

definition shared_logger :: "'l logrus \<Rightarrow> 'l" where
  "shared_logger lib = lr_SetFormatter lib \<lparr>tf_FullTimestamp = True\<rparr> (lr_New lib)"

text \<open>The function given to \<open>once.Do\<close>, and \<open>once.Do\<close> itself.\<close>

definition log_init :: "'l logrus \<Rightarrow> 'l log_vars \<Rightarrow> 'l log_vars" where
  "log_init lib s =
     s\<lparr>lg_heap := (lg_heap s)(lg_next s \<mapsto> shared_logger lib), lg_next := Suc (lg_next s), lg_instance := Some (lg_next s)\<rparr>"

definition once_Do :: "('l log_vars \<Rightarrow> 'l log_vars) \<Rightarrow> 'l log_vars \<Rightarrow> 'l log_vars" where
  "once_Do f s = (if lg_once s then s else (f s)\<lparr>lg_once := True\<rparr>)"

definition Log :: "'l logrus \<Rightarrow> 'l log_vars \<Rightarrow> nat option \<times> 'l log_vars" where
  "Log lib s = (let s1 = once_Do (log_init lib) s in (lg_instance s1, s1))"

subsection \<open>Many goroutines\<close>

datatype log_call = Calling | PastOnce | Returned_ptr "nat option"

type_synonym 'l log_sys = "'l log_vars \<times> (nat \<Rightarrow> log_call)"

inductive log_step :: "'l logrus \<Rightarrow> 'l log_sys \<Rightarrow> 'l log_sys \<Rightarrow> bool" for lib :: "'l logrus" where
  log_do: "pc g = Calling \<Longrightarrow> log_step lib (s, pc) (once_Do (log_init lib) s, pc(g := PastOnce))"
| log_read: "pc g = PastOnce \<Longrightarrow> log_step lib (s, pc) (s, pc(g := Returned_ptr (lg_instance s)))"
| log_again: "pc g = Returned_ptr v \<Longrightarrow> log_step lib (s, pc) (s, pc(g := Calling))"

definition log_begin :: "'l log_sys \<Rightarrow> bool" where
  "log_begin s \<longleftrightarrow> s = (log_start, \<lambda>_. Calling)"

text \<open>Before the first \<open>Do\<close> nothing exists; afterwards there is one logger, and every result points to it.\<close>

definition log_inv :: "'l logrus \<Rightarrow> 'l log_sys \<Rightarrow> bool" where
  "log_inv lib = (\<lambda>(s, pc).
     (if lg_once s then lg_instance s = Some 0 \<and> lg_heap s = [0 \<mapsto> shared_logger lib] \<and> lg_next s = 1
      else s = log_start \<and> (\<forall>g. pc g = Calling))
     \<and> (\<forall>g v. pc g = Returned_ptr v \<longrightarrow> v = Some 0))"

lemma once_Do_log: "once_Do (log_init lib) log_start =
    \<lparr>lg_once = True, lg_instance = Some 0, lg_heap = [0 \<mapsto> shared_logger lib], lg_next = 1\<rparr>"
  by (simp add: once_Do_def log_init_def log_start_def)

interpretation log_system: invariant_system log_begin "log_step lib" "log_inv lib" for lib :: "'l logrus"
proof unfold_locales
  show "log_inv lib s" if "log_begin s" for s :: "'l log_sys"
    using that by (simp add: log_begin_def log_inv_def log_start_def)
  show "log_inv lib t" if "log_inv lib s" "log_step lib s t" for s t
  proof -
    obtain v pc where s: "s = (v, pc)" by fastforce
    have step: "log_step lib (v, pc) t" and inv: "log_inv lib (v, pc)" using that s by simp_all
    from step show ?thesis
    proof cases
      case (log_do g)
      show ?thesis
      proof (cases "lg_once v")
        case True
        then show ?thesis using log_do inv by (simp add: log_inv_def once_Do_def)
      next
        case False
        then have "v = log_start" using inv by (simp add: log_inv_def)
        then show ?thesis using log_do inv by (simp add: log_inv_def once_Do_log)
      qed
    next
      case (log_read g)
      then show ?thesis using inv by (auto simp: log_inv_def split: if_splits)
    next
      case (log_again g w)
      then show ?thesis using inv by (auto simp: log_inv_def split: if_splits)
    qed
  qed
qed

subsection \<open>Properties\<close>

text \<open>
  The logger is shared: whichever goroutines call \<open>Log\<close>, and however their calls
  interleave, every call returns the same pointer, never nil, which a further call would return too;
  the logger behind it has the formatter with full timestamps, and no other is ever created.
\<close>

theorem Log_singleton:
  assumes "reachable log_begin (log_step lib) (s, pc)" and "pc g = Returned_ptr v"
  shows "\<exists>p. v = Some p \<and> Log lib s = (Some p, s)
    \<and> lg_heap s = [p \<mapsto> lr_SetFormatter lib \<lparr>tf_FullTimestamp = True\<rparr> (lr_New lib)]"
proof -
  have inv: "log_inv lib (s, pc)" by (rule log_system.inv_reachable [OF assms(1)])
  then have "lg_once s" "v = Some 0" using assms(2) by (auto simp: log_inv_def split: if_splits)
  with inv show ?thesis by (simp add: log_inv_def Log_def once_Do_def shared_logger_def)
qed

theorem Log_singleton_witness:
  "let lib = \<lparr>lr_New = ''plain'', lr_SetFormatter = (\<lambda>f l. if tf_FullTimestamp f then ''full'' else l)\<rparr> in
   \<exists>s. reachable log_begin (log_step lib) (s, (\<lambda>_. Calling)(4 := PastOnce, 2 := Returned_ptr (Some 0)))
     \<and> Log lib s = (Some 0, s) \<and> lg_heap s = [0 \<mapsto> ''full'']"
proof -
  let ?lib = "\<lparr>lr_New = ''plain'', lr_SetFormatter = (\<lambda>f l. if tf_FullTimestamp f then ''full'' else l)\<rparr>"
  let ?s = "once_Do (log_init ?lib) log_start"
  let ?idle = "\<lambda>_ :: nat. Calling"
  have inst: "lg_instance ?s = Some 0" "once_Do (log_init ?lib) ?s = ?s" by (simp_all add: once_Do_log) (simp add: once_Do_def)
  have "reachable log_begin (log_step ?lib) (log_start, ?idle)" by (rule reachable_init) (simp add: log_begin_def)
  then have "reachable log_begin (log_step ?lib) (?s, ?idle(4 := PastOnce))"
    by (rule reachable_step) (rule log_do, simp)
  then have "reachable log_begin (log_step ?lib) (once_Do (log_init ?lib) ?s, ?idle(4 := PastOnce, 2 := PastOnce))"
    by (rule reachable_step) (rule log_do, simp)
  then have "reachable log_begin (log_step ?lib) (?s, ?idle(4 := PastOnce, 2 := PastOnce))" unfolding inst(2) .
  then have "reachable log_begin (log_step ?lib) (?s, (?idle(4 := PastOnce, 2 := PastOnce))(2 := Returned_ptr (lg_instance ?s)))"
    by (rule reachable_step) (rule log_read, simp)
  then have r: "reachable log_begin (log_step ?lib) (?s, ?idle(4 := PastOnce, 2 := Returned_ptr (Some 0)))"
    by (simp add: inst(1))
  from Log_singleton [OF r, of 2 "Some 0"] r show ?thesis by (auto simp: Let_def)
qed

end
