(* ===== verification/Json_Text.thy ===== *)
theory Json_Text
  imports Go_Strings "HOL-Library.AList"
begin

text \<open>
  \<open>json.Unmarshal\<close> into a \<open>map[string]string\<close>, which the configuration uses for map-typed
  environment variables. The text is a byte string. Accepted are an object whose values are strings
  or null (which leaves the empty string) and a lone null (the nil map); any other text is either
  no JSON or not of the type, and both are errors. Escapes, surrogate pairs and invalid UTF-8 are
  decoded as the package does; a repeated key keeps its last value.
\<close>

subsection \<open>String literals\<close>

definition quote_byte :: char where "quote_byte = CHR 0x22"
definition backslash :: char where "backslash = CHR 0x5C"

definition hex_byte :: "char \<Rightarrow> nat option" where
  "hex_byte c =
     (if is_digit_byte c then Some (byte_val c - 48)
      else if 97 \<le> byte_val c \<and> byte_val c \<le> 102 then Some (byte_val c - 87)
      else if 65 \<le> byte_val c \<and> byte_val c \<le> 70 then Some (byte_val c - 55)
      else None)"

text \<open>The value of the first four bytes as hexadecimal digits.\<close>

definition hex4 :: "string \<Rightarrow> nat option" where
  "hex4 s =
     (if length (take 4 s) = 4 \<and> list_all (\<lambda>c. hex_byte c \<noteq> None) (take 4 s)
      then Some (foldl (\<lambda>acc c. 16 * acc + the (hex_byte c)) 0 (take 4 s)) else None)"

definition unescape :: "char \<Rightarrow> char option" where
  "unescape e =
     (if e = quote_byte \<or> e = backslash \<or> e = CHR ''/'' then Some e
      else if e = CHR ''b'' then Some (CHR 0x08)
      else if e = CHR ''f'' then Some (CHR 0x0C)
      else if e = CHR ''n'' then Some (CHR 0x0A)
      else if e = CHR ''r'' then Some (CHR 0x0D)
      else if e = CHR ''t'' then Some (CHR 0x09)
      else None)"

text \<open>The bytes between the quotes, with the escapes still in place, and what follows the literal.\<close>

function raw_string :: "string \<Rightarrow> (string \<times> string) option" where
  "raw_string s =
     (case s of
        [] \<Rightarrow> None
      | c # cs \<Rightarrow>
          if c = quote_byte then Some ([], cs)
          else if c = backslash then
            (case cs of
               [] \<Rightarrow> None
             | e # rest \<Rightarrow>
                 if e = CHR ''u''
                 then if hex4 rest = None then None
                      else map_option (apfst (\<lambda>raw. c # e # take 4 rest @ raw)) (raw_string (drop 4 rest))
                 else if unescape e = None then None
                 else map_option (apfst (\<lambda>raw. c # e # raw)) (raw_string rest))
          else if byte_val c < 32 then None
          else map_option (apfst (\<lambda>raw. c # raw)) (raw_string cs))"
  by pat_completeness auto
termination
  by (relation "measure length") auto

declare raw_string.simps [simp del]

text \<open>UTF-8: the encoding of a code point, and the length of a valid sequence at the front.\<close>

definition utf8_encode :: "nat \<Rightarrow> string" where
  "utf8_encode r =
     (if r < 0x80 then [char_of r]
      else if r < 0x800 then [char_of (0xC0 + r div 64), char_of (0x80 + r mod 64)]
      else if r < 0x10000
      then [char_of (0xE0 + r div 4096), char_of (0x80 + r div 64 mod 64), char_of (0x80 + r mod 64)]
      else [char_of (0xF0 + r div 262144), char_of (0x80 + r div 4096 mod 64), char_of (0x80 + r div 64 mod 64),
            char_of (0x80 + r mod 64)])"

definition replacement :: string where "replacement = utf8_encode 0xFFFD"

definition byte_in :: "nat \<Rightarrow> nat \<Rightarrow> string \<Rightarrow> nat \<Rightarrow> bool" where
  "byte_in lo hi s i = (if i < length s then lo \<le> byte_val (s ! i) \<and> byte_val (s ! i) \<le> hi else False)"

definition utf8_len :: "string \<Rightarrow> nat" where
  "utf8_len s =
     (let b = byte_in; cont = byte_in 0x80 0xBF s in
      if b 0xC2 0xDF s 0 \<and> cont 1 then 2
      else if (b 0xE0 0xE0 s 0 \<and> b 0xA0 0xBF s 1 \<or> b 0xE1 0xEC s 0 \<and> cont 1 \<or> b 0xED 0xED s 0 \<and> b 0x80 0x9F s 1
               \<or> b 0xEE 0xEF s 0 \<and> cont 1) \<and> cont 2 then 3
      else if (b 0xF0 0xF0 s 0 \<and> b 0x90 0xBF s 1 \<or> b 0xF1 0xF3 s 0 \<and> cont 1 \<or> b 0xF4 0xF4 s 0 \<and> b 0x80 0x8F s 1)
              \<and> cont 2 \<and> cont 3 then 4
      else 0)"

text \<open>The second half of a surrogate pair, written as an escape of its own.\<close>

definition low_surrogate :: "string \<Rightarrow> nat option" where
  "low_surrogate s =
     (if take 2 s = [backslash, CHR ''u'']
      then case hex4 (drop 2 s) of
          None \<Rightarrow> None
        | Some r \<Rightarrow> if 0xDC00 \<le> r \<and> r < 0xE000 then Some r else None
      else None)"

function unquote :: "string \<Rightarrow> string" where
  "unquote s =
     (case s of
        [] \<Rightarrow> []
      | c # cs \<Rightarrow>
          if c = backslash then
            (case cs of
               [] \<Rightarrow> []
             | e # rest \<Rightarrow>
                 if e = CHR ''u'' then
                   (case hex4 rest of
                      None \<Rightarrow> []
                    | Some r \<Rightarrow>
                        if 0xD800 \<le> r \<and> r < 0xE000 then
                          (case if r < 0xDC00 then low_surrogate (drop 4 rest) else None of
                             Some r1 \<Rightarrow>
                               utf8_encode (0x10000 + (r - 0xD800) * 1024 + (r1 - 0xDC00)) @ unquote (drop 10 rest)
                           | None \<Rightarrow> replacement @ unquote (drop 4 rest))
                        else utf8_encode r @ unquote (drop 4 rest))
                 else (case unescape e of None \<Rightarrow> [] | Some x \<Rightarrow> x # unquote rest))
          else if byte_val c < 0x80 then c # unquote cs
          else if utf8_len s = 0 then replacement @ unquote cs
          else take (utf8_len s) s @ unquote (drop (utf8_len s) s))"
  by pat_completeness auto
termination
  by (relation "measure length") auto

declare unquote.simps [simp del]

definition json_string :: "string \<Rightarrow> (string \<times> string) option" where
  "json_string s =
     (case s of
        [] \<Rightarrow> None
      | c # cs \<Rightarrow> if c = quote_byte then map_option (apfst unquote) (raw_string cs) else None)"

definition string_or_null :: "string \<Rightarrow> (string \<times> string) option" where
  "string_or_null s = (if take 4 s = ''null'' then Some ('''', drop 4 s) else json_string s)"

subsection \<open>Objects of strings\<close>

definition skip_space :: "string \<Rightarrow> string" where
  "skip_space s = dropWhile (\<lambda>c. c = CHR 0x20 \<or> c = CHR 0x09 \<or> c = CHR 0x0A \<or> c = CHR 0x0D) s"

text \<open>One byte of punctuation, after white space.\<close>

definition expect :: "char \<Rightarrow> string \<Rightarrow> string option" where
  "expect p s = (case skip_space s of [] \<Rightarrow> None | c # cs \<Rightarrow> if c = p then Some cs else None)"

definition member :: "string \<Rightarrow> ((string \<times> string) \<times> string) option" where
  "member s =
     (case json_string (skip_space s) of
        None \<Rightarrow> None
      | Some (k, s1) \<Rightarrow>
          (case expect (CHR '':'') s1 of
             None \<Rightarrow> None
           | Some s2 \<Rightarrow> map_option (\<lambda>(v, s3). ((k, v), s3)) (string_or_null (skip_space s2))))"

lemma length_skip_space: "length (skip_space s) \<le> length s"
  by (simp add: skip_space_def length_dropWhile_le)

lemma length_expect: "expect p s = Some t \<Longrightarrow> length t < length s"
  using length_skip_space [of s] by (auto simp: expect_def split: list.splits if_splits)

lemma length_raw_string: "raw_string s = Some (raw, t) \<Longrightarrow> length t < length s"
proof (induction "length s" arbitrary: s raw rule: less_induct)
  case less
  have step: "length t < length s" if "raw_string u = Some (r, t)" "length u < length s" for u r
    using less.hyps [OF that(2,1)] that(2) by simp
  from less.prems show ?case
    by (subst (asm) raw_string.simps)
      (auto split: list.splits if_splits option.splits dest!: step simp del: not_less)
qed

lemma length_member: "member s = Some (kv, t) \<Longrightarrow> length t < length s"
proof -
  assume "member s = Some (kv, t)"
  then obtain k s1 s2 v where m: "json_string (skip_space s) = Some (k, s1)" "expect (CHR '':'') s1 = Some s2"
      "string_or_null (skip_space s2) = Some (v, t)"
    by (auto simp: member_def split: option.splits)
  have str: "length y < length x" if "json_string x = Some (z, y)" for x y z
    using that by (auto simp: json_string_def dest: length_raw_string split: list.splits if_splits)
  have "length t \<le> length (skip_space s2)"
    using m(3) str by (auto simp: string_or_null_def split: if_splits dest: less_imp_le)
  with str [OF m(1)] length_expect [OF m(2)] length_skip_space [of s] length_skip_space [of s2]
  show ?thesis by linarith
qed

function members :: "(string \<times> string) list \<Rightarrow> string \<Rightarrow> ((string \<times> string) list \<times> string) option" where
  "members m s =
     (case member s of
        None \<Rightarrow> None
      | Some ((k, v), s1) \<Rightarrow>
          let m' = AList.update k v m in
          (case expect (CHR '','') s1 of
             Some s2 \<Rightarrow> members m' s2
           | None \<Rightarrow> map_option (\<lambda>s2. (m', s2)) (expect (CHR ''}'') s1)))"
  by pat_completeness auto
termination
  by (relation "measure (length \<circ> snd)") (auto dest!: length_member length_expect)

declare members.simps [simp del]

definition object_of_strings :: "string \<Rightarrow> ((string \<times> string) list \<times> string) option" where
  "object_of_strings s =
     (case expect (CHR ''{'') s of
        None \<Rightarrow> if take 4 (skip_space s) = ''null'' then Some ([], drop 4 (skip_space s)) else None
      | Some s1 \<Rightarrow> (case expect (CHR ''}'') s1 of Some s2 \<Rightarrow> Some ([], s2) | None \<Rightarrow> members [] s1))"

definition json_Unmarshal :: "string \<Rightarrow> (string \<times> string) list go_result" where
  "json_Unmarshal s =
     (case object_of_strings s of
        None \<Rightarrow> Inl (ErrText ''json: cannot unmarshal'')
      | Some (m, rest) \<Rightarrow> if skip_space rest = [] then Inr m else Inl (ErrText ''json: cannot unmarshal''))"

subsection \<open>The text of a map\<close>

text \<open>
  How an operator writes a map of ASCII strings: quotes and backslashes escaped, control bytes as
  \<open>\u00XX\<close>, every other byte as it is.
\<close>

definition escape_byte :: "char \<Rightarrow> string" where
  "escape_byte c =
     (if c = quote_byte \<or> c = backslash then [backslash, c]
      else if byte_val c < 32
      then backslash # ''u00'' @ [hex_digit (byte_val c div 16), hex_digit (byte_val c mod 16)]
      else [c])"

definition quote_text :: "string \<Rightarrow> string" where
  "quote_text s = quote_byte # concat (map escape_byte s) @ [quote_byte]"

fun members_text :: "(string \<times> string) list \<Rightarrow> string" where
  "members_text [] = ''}''"
| "members_text ((k, v) # kvs) =
     quote_text k @ '':'' @ quote_text v @ (if kvs = [] then ''}'' else CHR '','' # members_text kvs)"

definition links_text :: "(string \<times> string) list \<Rightarrow> string" where
  "links_text kvs = CHR ''{'' # members_text kvs"

definition is_ascii :: "string \<Rightarrow> bool" where
  "is_ascii s \<longleftrightarrow> list_all (\<lambda>c. byte_val c < 128) s"

lemma punctuation [simp]:
  "quote_byte \<noteq> backslash" "backslash \<noteq> quote_byte" "quote_byte \<noteq> CHR ''u''" "backslash \<noteq> CHR ''u''"
  "byte_val quote_byte = 34" "byte_val backslash = 92"
  "unescape quote_byte = Some quote_byte" "unescape backslash = Some backslash"
  by (simp_all add: quote_byte_def backslash_def byte_val_def unescape_def)

lemma hex_byte_digit: "d < 16 \<Longrightarrow> hex_byte (hex_digit d) = Some d"
  by (auto simp: hex_byte_def hex_digit_def is_digit_byte_def)

lemma hex4_byte:
  assumes "n < 256"
  shows "hex4 (CHR ''0'' # CHR ''0'' # hex_digit (n div 16) # hex_digit (n mod 16) # t) = Some n"
proof -
  have "n div 16 < 16" "n mod 16 < 16" using assms by simp_all
  moreover have "hex_byte CHR ''0'' = Some 0" by code_simp
  ultimately show ?thesis by (simp add: hex4_def hex_byte_digit)
qed

text \<open>The three ways a byte is written.\<close>

lemma byte_cases:
  obtains (esc) "c = quote_byte \<or> c = backslash"
  | (ctl) "c \<noteq> quote_byte" "c \<noteq> backslash" "byte_val c < 32"
  | (plain) "c \<noteq> quote_byte" "c \<noteq> backslash" "\<not> byte_val c < 32"
  by blast

lemma append_fun: "(@) (x # xs) = (\<lambda>ys. x # xs @ ys)"
  by (simp add: fun_eq_iff)

lemma raw_string_quote: "raw_string (quote_byte # t) = Some ([], t)"
  by (subst raw_string.simps) simp

lemma raw_string_escape:
  "raw_string (escape_byte c @ t) = map_option (apfst ((@) (escape_byte c))) (raw_string t)"
proof (cases c rule: byte_cases)
  case esc
  then show ?thesis by (subst raw_string.simps) (auto simp: escape_byte_def append_fun)
next
  case ctl
  then show ?thesis
    using hex4_byte [of "byte_val c" t]
    by (subst raw_string.simps) (simp add: escape_byte_def append_fun)
next
  case plain
  then show ?thesis by (subst raw_string.simps) (simp add: escape_byte_def append_fun)
qed

lemma raw_string_text: "raw_string (concat (map escape_byte s) @ quote_byte # t) = Some (concat (map escape_byte s), t)"
  by (induction s) (simp_all add: raw_string_quote raw_string_escape)

lemma unquote_escape:
  assumes "byte_val c < 128"
  shows "unquote (escape_byte c @ t) = c # unquote t"
proof (cases c rule: byte_cases)
  case esc
  then show ?thesis by (subst unquote.simps) (auto simp: escape_byte_def)
next
  case ctl
  then show ?thesis
    using hex4_byte [of "byte_val c" t]
    by (subst unquote.simps) (simp add: escape_byte_def utf8_encode_def)
next
  case plain
  then show ?thesis using assms by (subst unquote.simps) (simp add: escape_byte_def)
qed

lemma unquote_text: "is_ascii s \<Longrightarrow> unquote (concat (map escape_byte s)) = s"
proof (induction s)
  case Nil
  show ?case by (subst unquote.simps) simp
next
  case (Cons c s)
  then show ?case by (simp add: is_ascii_def unquote_escape)
qed

lemma json_string_text: "is_ascii s \<Longrightarrow> json_string (quote_text s @ t) = Some (s, t)"
  by (simp add: json_string_def quote_text_def raw_string_text unquote_text)

lemma quote_text_head:
  "skip_space (quote_text s @ t) = quote_text s @ t" "take 4 (quote_text s @ t) \<noteq> ''null''"
  "expect p (quote_text s @ t) = (if p = quote_byte then Some (concat (map escape_byte s) @ quote_byte # t) else None)"
  by (simp_all add: quote_text_def skip_space_def quote_byte_def expect_def)

lemma string_or_null_text: "is_ascii s \<Longrightarrow> string_or_null (quote_text s @ t) = Some (s, t)"
  by (simp only: string_or_null_def quote_text_head(2) json_string_text if_False)

lemma skip_space_here: "p \<notin> {CHR 0x20, CHR 0x09, CHR 0x0A, CHR 0x0D} \<Longrightarrow> skip_space (p # t) = p # t"
  by (simp add: skip_space_def)

lemma expect_here: "p \<notin> {CHR 0x20, CHR 0x09, CHR 0x0A, CHR 0x0D} \<Longrightarrow> expect q (p # t) = (if p = q then Some t else None)"
  by (simp add: expect_def skip_space_def)

lemma member_text:
  "is_ascii k \<Longrightarrow> is_ascii v \<Longrightarrow> member (quote_text k @ CHR '':'' # quote_text v @ t) = Some ((k, v), t)"
  by (simp add: member_def quote_text_head json_string_text expect_here string_or_null_text)

lemma update_fresh: "k \<notin> fst ` set m \<Longrightarrow> AList.update k v m = m @ [(k, v)]"
  by (induction m) auto

lemma members_text_eq:
  assumes "kvs \<noteq> []" and "list_all (\<lambda>(k, v). is_ascii k \<and> is_ascii v) kvs" and "distinct (map fst (m @ kvs))"
  shows "members m (members_text kvs) = Some (m @ kvs, [])"
  using assms
proof (induction kvs arbitrary: m)
  case (Cons kv kvs)
  obtain k v where kv: "kv = (k, v)" by (cases kv)
  have step: "AList.update k v m = m @ [(k, v)]" using Cons.prems(3) by (intro update_fresh) (auto simp: kv)
  show ?case
  proof (cases "kvs = []")
    case True
    then show ?thesis
      using Cons.prems(2) by (subst members.simps) (simp add: kv member_text step expect_here)
  next
    case False
    have "members (m @ [(k, v)]) (members_text kvs) = Some ((m @ [(k, v)]) @ kvs, [])"
      using Cons.prems False by (intro Cons.IH) (auto simp: kv)
    then show ?thesis
      using Cons.prems(2) False by (subst members.simps) (simp add: kv member_text step expect_here)
  qed
qed simp

lemma json_Unmarshal_text:
  assumes "list_all (\<lambda>(k, v). is_ascii k \<and> is_ascii v) kvs" and "distinct (map fst kvs)"
  shows "json_Unmarshal (links_text kvs) = Inr kvs"
proof (cases kvs)
  case Nil
  then show ?thesis by (simp add: json_Unmarshal_def object_of_strings_def links_text_def expect_here skip_space_def)
next
  case (Cons kv rest)
  then have "expect (CHR ''}'') (members_text kvs) = None"
    by (cases kv) (simp add: quote_text_head quote_byte_def)
  with Cons members_text_eq [of kvs "[]"] assms show ?thesis
    by (simp add: json_Unmarshal_def object_of_strings_def links_text_def expect_here skip_space_def)
qed

text \<open>The text of a map is never blank.\<close>

lemma links_text_ends: "links_text kvs \<noteq> []" "hd (links_text kvs) = CHR ''{''" "last (links_text kvs) = CHR ''}''"
proof -
  have "members_text kvs \<noteq> [] \<and> last (members_text kvs) = CHR ''}''"
    by (induction kvs rule: members_text.induct) (auto simp: quote_text_def)
  then show "links_text kvs \<noteq> []" "hd (links_text kvs) = CHR ''{''" "last (links_text kvs) = CHR ''}''"
    by (simp_all add: links_text_def)
qed

lemma TrimSpace_links: "TrimSpace (links_text kvs) = links_text kvs"
  using links_text_ends [of kvs] by (intro TrimSpace_plain) (simp add: plain_byte_def byte_val_def)

end
