(* ===== verification/Commands.thy ===== *)
theory Commands
  imports Application Json_Text
begin

text \<open>
  The command line: loading the configuration and the root command (\<open>cmd/root/root.go\<close>), the serve
  command (\<open>cmd/serve/serve.go\<close>) and the entry point (\<open>cmd/evm-oracle-demo-api.go\<close>). viper,
  mapstructure and pflag are the record \<open>viper\<close>; cobra's \<open>Execute\<close> is a parameter of \<open>main\<close>. What
  the code relies on is stated as the hypotheses \<open>conversions\<close> and \<open>runs_hooks\<close>.
\<close>

subsection \<open>Loading the configuration\<close>

datatype kind = KString | KInt | KBool | KStrings | KMap

fun kind_of :: "cfg_value \<Rightarrow> kind" where
  "kind_of (VString _) = KString"
| "kind_of (VInt _) = KInt"
| "kind_of (VBool _) = KBool"
| "kind_of (VStrings _) = KStrings"
| "kind_of (VMap _) = KMap"

text \<open>The fields of \<open>Scheme\<close> under their tags, with the kind of their Go type.\<close>

definition scheme_fields :: "(string \<times> kind) list" where
  "scheme_fields =
     [(''env'', KString), (''http.host'', KString), (''http.port'', KInt), (''http.read_timeout'', KString),
      (''http.write_timeout'', KString), (''http.idle_timeout'', KString), (''http.cors_origins'', KStrings),
      (''http.cors_allow_all'', KBool), (''http.trusted_proxies'', KStrings), (''healthz.host'', KString),
      (''healthz.port'', KInt), (''redis.addr'', KString), (''redis.password'', KString), (''redis.db'', KInt),
      (''grpc_client.price_service_addr'', KString), (''grpc_client.indexer_service_addr'', KString),
      (''grpc_client.oracle_service_addr'', KString), (''grpc_client.dial_timeout'', KString),
      (''grpc_client.use_tls'', KBool), (''grpc_client.keep_alive.time'', KString),
      (''grpc_client.keep_alive.timeout'', KString), (''grpc_client.keep_alive.permit_without_stream'', KBool),
      (''grpc_client.subscribe.asset_ids'', KStrings), (''grpc_client.subscribe.reconnect_backoff'', KString),
      (''rate_limit.enabled'', KBool), (''rate_limit.requests_per_minute'', KInt), (''rate_limit.burst_size'', KInt),
      (''author.name'', KString), (''author.links'', KMap), (''telemetry.log_level'', KString),
      (''telemetry.log_format'', KString)]"

record flag =
  fl_Name :: string
  fl_Changed :: bool
  fl_Value :: string

text \<open>
  \<open>vp_readErr\<close> is the error of \<open>ReadInConfig\<close> with whether it is a \<open>ConfigFileNotFoundError\<close>.
  \<open>vp_settings\<close> is the value of a key after defaults, file and environment are merged, and of the
  given bound flags; an environment variable arrives as text. The two hooks and the assignment of a
  value to a field of a kind are mapstructure's, \<open>vp_Set\<close> is pflag's and \<open>vp_show\<close> is \<open>%v\<close>.
\<close>

record viper =
  vp_readErr :: "(bool \<times> go_error) option"
  vp_bindErr :: "go_error option"
  vp_settings :: "flag list \<Rightarrow> string \<rightharpoonup> cfg_value"
  vp_durationHook :: "kind \<Rightarrow> cfg_value \<Rightarrow> cfg_value go_result"
  vp_sliceHook :: "string \<Rightarrow> kind \<Rightarrow> cfg_value \<Rightarrow> cfg_value go_result"
  vp_assign :: "kind \<Rightarrow> cfg_value \<Rightarrow> cfg_value go_result"
  vp_Set :: "flag \<Rightarrow> string \<Rightarrow> flag go_result"
  vp_show :: "cfg_value \<Rightarrow> string"

text \<open>The text \<open>%q\<close> gives of the value is left out of the message.\<close>

definition stringToStringMapJSONHook :: "kind \<Rightarrow> cfg_value \<Rightarrow> cfg_value go_result" where
  "stringToStringMapJSONHook to data =
     (case data of
        VString raw \<Rightarrow>
          if to \<noteq> KMap then Inr data
          else if TrimSpace raw = '''' then Inr (VMap [])
          else (case json_Unmarshal raw of
                  Inl err \<Rightarrow> Inl (ErrWrap ''decode map-typed config from JSON string'' err)
                | Inr out \<Rightarrow> Inr (VMap out))
      | _ \<Rightarrow> Inr data)"

text \<open>\<open>ComposeDecodeHookFunc\<close>: each hook gets the result of the one before, an error ends it.\<close>

fun ComposeDecodeHookFunc ::
  "(kind \<Rightarrow> cfg_value \<Rightarrow> cfg_value go_result) list \<Rightarrow> kind \<Rightarrow> cfg_value \<Rightarrow> cfg_value go_result" where
  "ComposeDecodeHookFunc [] to v = Inr v"
| "ComposeDecodeHookFunc (hook # hooks) to v =
     (case hook to v of Inl err \<Rightarrow> Inl err | Inr v' \<Rightarrow> ComposeDecodeHookFunc hooks to v')"

definition decode_hooks :: "viper \<Rightarrow> kind \<Rightarrow> cfg_value \<Rightarrow> cfg_value go_result" where
  "decode_hooks vp = ComposeDecodeHookFunc [vp_durationHook vp, vp_sliceHook vp '','', stringToStringMapJSONHook]"

text \<open>One field: no value leaves it alone, an error is kept and leaves it alone too.\<close>

definition decode_field :: "viper \<Rightarrow> (string \<rightharpoonup> cfg_value) \<Rightarrow> string \<times> kind \<Rightarrow> cfg_value go_result option" where
  "decode_field vp st field =
     map_option
       (\<lambda>v. case decode_hooks vp (snd field) v of Inl err \<Rightarrow> Inl err | Inr v' \<Rightarrow> vp_assign vp (snd field) v')
       (st (fst field))"

definition decoded :: "viper \<Rightarrow> (string \<rightharpoonup> cfg_value) \<Rightarrow> string \<rightharpoonup> cfg_value" where
  "decoded vp st k =
     (case map_of scheme_fields k of
        None \<Rightarrow> None
      | Some kind \<Rightarrow> (case decode_field vp st (k, kind) of Some (Inr v) \<Rightarrow> Some v | _ \<Rightarrow> None))"

definition decode_errs :: "viper \<Rightarrow> (string \<rightharpoonup> cfg_value) \<Rightarrow> go_error list" where
  "decode_errs vp st =
     concat (map (\<lambda>field. case decode_field vp st field of Some (Inl err) \<Rightarrow> [err] | _ \<Rightarrow> []) scheme_fields)"

text \<open>\<open>viper.Unmarshal\<close> into the zero scheme.\<close>

definition viper_Unmarshal :: "viper \<Rightarrow> (string \<rightharpoonup> cfg_value) \<Rightarrow> go_error option \<times> Scheme" where
  "viper_Unmarshal vp st = (errors_Join (decode_errs vp st), Unmarshal (decoded vp st))"

text \<open>Flags the user did not give take the value viper has for their name; \<open>Set\<close>'s error is dropped.\<close>

definition bindFlags :: "viper \<Rightarrow> flag list \<Rightarrow> flag list" where
  "bindFlags vp flags =
     map (\<lambda>f. case vp_settings vp [] (fl_Name f) of
                None \<Rightarrow> f
              | Some val \<Rightarrow>
                  if \<not> fl_Changed f then (case vp_Set vp f (vp_show vp val) of Inl err \<Rightarrow> f | Inr f' \<Rightarrow> f') else f) flags"

definition initializeConfig :: "viper \<Rightarrow> flag list \<Rightarrow> Scheme \<Rightarrow> go_error option \<times> Scheme" where
  "initializeConfig vp flags cfg =
     (case vp_readErr vp of
        Some (False, err) \<Rightarrow> (Some (ErrWrap ''read config file'' err), cfg)
      | _ \<Rightarrow>
          (case vp_bindErr vp of
             Some err \<Rightarrow> (Some (ErrWrap ''bind flags'' err), cfg)
           | None \<Rightarrow> viper_Unmarshal vp (vp_settings vp (bindFlags vp flags))))"

subsection \<open>Commands\<close>

text \<open>The end of \<open>RunE\<close>: returned, still serving, or a panic.\<close>

datatype run_end = Ended "go_error option" | Serving | Panicked

record 's command =
  cmd_Use :: string
  cmd_Short :: string
  cmd_Version :: string
  cmd_PersistentPreRunE :: "('s \<Rightarrow> 's \<times> go_error option) option"
  cmd_PreRun :: "('s \<Rightarrow> 's) option"
  cmd_RunE :: "('s \<Rightarrow> 's \<times> run_end) option"
  cmd_PostRun :: "('s \<Rightarrow> 's) option"

datatype log_line = LogInfo string | LogInfoErr string go_error | LogError string

record ('conn, 'r, 'd) process =
  pr_app :: "('conn, 'r, 'd) App"
  pr_effects :: "effect list"
  pr_lines :: "log_line list"

definition root_Cmd :: "viper \<Rightarrow> flag list \<Rightarrow> ('conn, 'r, 'd) App \<Rightarrow> ('conn, 'r, 'd) process command" where
  "root_Cmd vp flags app =
     \<lparr>cmd_Use = ''evm-oracle-demo-api'',
      cmd_Short = ''EVM Oracle Demo - REST + WebSocket BFF over the oracle gRPC plane'',
      cmd_Version = App_Version app,
      cmd_PersistentPreRunE =
        Some (\<lambda>p. let (err, cfg) = initializeConfig vp flags (App_Config (pr_app p))
                  in (p\<lparr>pr_app := (pr_app p)\<lparr>app_config := cfg\<rparr>\<rparr>, err)),
      cmd_PreRun = None, cmd_RunE = None, cmd_PostRun = None\<rparr>"

text \<open>\<open>RunE\<close>; \<open>live\<close> is what requests and feeds have made of the hub by the time \<open>Serve\<close> returns.\<close>

definition serve_Cmd_RunE ::
  "('conn, 'r) env \<Rightarrow> serve_event list \<Rightarrow> (json Hub \<Rightarrow> json Hub)
   \<Rightarrow> ('conn, 'r, 'd) process \<Rightarrow> ('conn, 'r, 'd) process \<times> run_end" where
  "serve_Cmd_RunE e evs live p =
     (case serve_RunE e evs (pr_app p) (pr_effects p) of
        None \<Rightarrow> (p, Panicked)
      | Some (app, log, res) \<Rightarrow>
          (p\<lparr>pr_app := app\<lparr>app_hub := map_option live (app_hub app)\<rparr>, pr_effects := log\<rparr>,
           case res of None \<Rightarrow> Serving | Some err \<Rightarrow> Ended err))"

definition serve_Cmd_PostRun ::
  "('conn, 'r) env \<Rightarrow> nat list \<Rightarrow> ('conn, 'r, 'd) process \<Rightarrow> ('conn, 'r, 'd) process" where
  "serve_Cmd_PostRun e snapshot p =
     (case app_Stop e snapshot (pr_app p) (pr_effects p) of
        (err, app, log) \<Rightarrow>
          p\<lparr>pr_app := app, pr_effects := log,
            pr_lines := pr_lines p @ (if err \<noteq> None then [LogError ''cant stop app''] else []) @ [LogInfo ''App stopped'']\<rparr>)"

definition serve_Cmd ::
  "('conn, 'r) env \<Rightarrow> serve_event list \<Rightarrow> (json Hub \<Rightarrow> json Hub) \<Rightarrow> nat list \<Rightarrow> ('conn, 'r, 'd) process command" where
  "serve_Cmd e evs live snapshot =
     \<lparr>cmd_Use = ''serve'', cmd_Short = ''Run Application'', cmd_Version = '''', cmd_PersistentPreRunE = None,
      cmd_PreRun = Some (\<lambda>p. p\<lparr>pr_lines := pr_lines p @ [LogInfo (App_Version (pr_app p))]\<rparr>),
      cmd_RunE = Some (serve_Cmd_RunE e evs live),
      cmd_PostRun = Some (serve_Cmd_PostRun e snapshot)\<rparr>"

subsection \<open>The entry point\<close>

text \<open>
  Cobra's \<open>Execute\<close> on a root command with one subcommand, called with the subcommand's name.
  Its documentation gives the order of the hooks, that a persistent hook is inherited from the parent
  command, and that an error ends the run.
\<close>

type_synonym 's execute = "'s command \<Rightarrow> 's command list \<Rightarrow> 's \<Rightarrow> 's \<times> run_end"

definition opt_hook :: "('s \<Rightarrow> 's) option \<Rightarrow> 's \<Rightarrow> 's" where
  "opt_hook h s = (case h of None \<Rightarrow> s | Some f \<Rightarrow> f s)"

definition hook_order :: "'s command \<Rightarrow> 's command \<Rightarrow> 's \<Rightarrow> 's \<times> run_end" where
  "hook_order root sub s =
     (let (s1, err) =
            (case cmd_PersistentPreRunE sub of
               Some f \<Rightarrow> f s
             | None \<Rightarrow> (case cmd_PersistentPreRunE root of None \<Rightarrow> (s, None) | Some f \<Rightarrow> f s)) in
      if err \<noteq> None then (s1, Ended err)
      else
        let s2 = opt_hook (cmd_PreRun sub) s1;
            (s3, res) = (case cmd_RunE sub of None \<Rightarrow> (s2, Ended None) | Some f \<Rightarrow> f s2)
        in if res = Ended None then (opt_hook (cmd_PostRun sub) s3, res) else (s3, res))"

definition runs_hooks :: "'s execute \<Rightarrow> bool" where
  "runs_hooks execute \<longleftrightarrow> (\<forall>root sub s. execute root [sub] s = hook_order root sub s)"

text \<open>How \<open>main\<close> ends: the exit status, if the process ends; 2 is that of a panic.\<close>

fun main_end :: "('conn, 'r, 'd) process \<times> run_end \<Rightarrow> nat option \<times> effect list \<times> log_line list" where
  "main_end (p, Ended None) = (Some 0, pr_effects p, pr_lines p)"
| "main_end (p, Ended (Some err)) = (Some 1, pr_effects p, pr_lines p @ [LogInfoErr ''An error occurred'' err])"
| "main_end (p, Serving) = (None, pr_effects p, pr_lines p)"
| "main_end (p, Panicked) = (Some 2, pr_effects p, pr_lines p)"

definition main ::
  "('conn, 'r, 'd) process execute \<Rightarrow> 'd Version go_result \<Rightarrow> viper \<Rightarrow> flag list \<Rightarrow> ('conn, 'r) env \<Rightarrow> serve_event list
   \<Rightarrow> (json Hub \<Rightarrow> json Hub) \<Rightarrow> nat list \<Rightarrow> nat option \<times> effect list \<times> log_line list" where
  "main execute newVersion vp flags e evs live snapshot =
     (case NewApplication newVersion of
        Inl err \<Rightarrow> (Some 1, [], [LogInfoErr ''An error occurred'' err])
      | Inr app \<Rightarrow>
          main_end (execute (root_Cmd vp flags app) [serve_Cmd e evs live snapshot]
            \<lparr>pr_app = app, pr_effects = [], pr_lines = []\<rparr>))"

subsection \<open>Decoding facts\<close>

text \<open>
  What mapstructure documents: the duration hook concerns no field of the scheme, the slice hook only
  text for a slice, and a value of the field's own kind is stored as it is.
\<close>

definition conversions :: "viper \<Rightarrow> bool" where
  "conversions vp \<longleftrightarrow>
     (\<forall>k v. vp_durationHook vp k v = Inr v \<and> (kind_of v = k \<longrightarrow> vp_assign vp k v = Inr v)
        \<and> (k \<noteq> KStrings \<or> kind_of v \<noteq> KString \<longrightarrow> vp_sliceHook vp '','' k v = Inr v))"

definition config_loads :: "viper \<Rightarrow> bool" where
  "config_loads vp \<longleftrightarrow> (case vp_readErr vp of Some (False, err) \<Rightarrow> False | _ \<Rightarrow> True) \<and> vp_bindErr vp = None"

lemma initializeConfig_loads:
  "config_loads vp \<Longrightarrow> initializeConfig vp flags cfg = viper_Unmarshal vp (vp_settings vp (bindFlags vp flags))"
  by (auto simp: config_loads_def initializeConfig_def split: option.splits prod.splits bool.splits)

lemma decode_typed:
  assumes "conversions vp" and "kind_of v = k"
  shows "decode_hooks vp k v = Inr v"
proof -
  have "vp_sliceHook vp '','' k v = Inr v"
    using assms by (cases "k = KStrings") (auto simp: conversions_def)
  then show ?thesis
    using assms by (cases v) (simp_all add: decode_hooks_def conversions_def stringToStringMapJSONHook_def)
qed

lemma assign_typed: "conversions vp \<Longrightarrow> kind_of v = k \<Longrightarrow> vp_assign vp k v = Inr v"
  by (simp add: conversions_def)

lemma decode_links:
  assumes "conversions vp"
  shows "decode_hooks vp KMap (VString raw) = stringToStringMapJSONHook KMap (VString raw)"
  using assms by (simp add: decode_hooks_def conversions_def split: sum.split)

lemma scheme_fields_distinct: "distinct (map fst scheme_fields)"
  by (simp add: scheme_fields_def)

lemma links_field: "map_of scheme_fields ''author.links'' = Some KMap"
  by (simp add: scheme_fields_def)

text \<open>The decoded settings when every value but that of \<open>author.links\<close> has its field's kind.\<close>

definition typed_but_links :: "(string \<rightharpoonup> cfg_value) \<Rightarrow> bool" where
  "typed_but_links st \<longleftrightarrow>
     list_all (\<lambda>(k, kind). k = ''author.links'' \<or> (case st k of None \<Rightarrow> True | Some v \<Rightarrow> kind_of v = kind)) scheme_fields"

lemma decode_field_typed:
  assumes "conversions vp" and "typed_but_links st" and "(k, kind) \<in> set scheme_fields" and "k \<noteq> ''author.links''"
  shows "decode_field vp st (k, kind) = map_option Inr (st k)"
proof (cases "st k")
  case None
  then show ?thesis by (simp add: decode_field_def)
next
  case (Some v)
  then have "kind_of v = kind" using assms(2-4) by (auto simp: typed_but_links_def list_all_iff)
  then show ?thesis
    using Some by (simp add: decode_field_def decode_typed [OF assms(1)] assign_typed [OF assms(1)])
qed

lemma Unmarshal_cong:
  "(\<And>k. k \<in> fst ` set scheme_fields \<Longrightarrow> st k = st' k) \<Longrightarrow> Unmarshal st = Unmarshal st'"
  by (simp add: Unmarshal_def get_defs scheme_fields_def)

lemma decoded_typed:
  assumes "conversions vp" and "typed_but_links st"
    and "decode_field vp st (''author.links'', KMap) = res"
  shows "Unmarshal (decoded vp st) =
      Unmarshal (st(''author.links'' := (case res of Some (Inr v) \<Rightarrow> Some v | _ \<Rightarrow> None)))"
    and "decode_errs vp st = (case res of Some (Inl err) \<Rightarrow> [err] | _ \<Rightarrow> [])"
proof -
  show "Unmarshal (decoded vp st) =
      Unmarshal (st(''author.links'' := (case res of Some (Inr v) \<Rightarrow> Some v | _ \<Rightarrow> None)))"
  proof (rule Unmarshal_cong)
    fix k assume k: "k \<in> fst ` set scheme_fields"
    then obtain kind where kind: "(k, kind) \<in> set scheme_fields" by auto
    then have "map_of scheme_fields k = Some kind" using scheme_fields_distinct by simp
    with decode_field_typed [OF assms(1,2) kind] links_field assms(3)
    show "decoded vp st k = (st(''author.links'' := (case res of Some (Inr v) \<Rightarrow> Some v | _ \<Rightarrow> None))) k"
      by (auto simp: decoded_def split: option.splits)
  qed
  have "(case decode_field vp st field of Some (Inl err) \<Rightarrow> [err] | _ \<Rightarrow> []) =
      (if fst field = ''author.links'' then (case res of Some (Inl err) \<Rightarrow> [err] | _ \<Rightarrow> []) else [])"
    if "field \<in> set scheme_fields" for field
  proof (cases "fst field = ''author.links''")
    case True
    then obtain kind where field: "field = (''author.links'', kind)" by (cases field) simp
    with that have "map_of scheme_fields ''author.links'' = Some kind"
      using scheme_fields_distinct by (intro map_of_is_SomeI) simp_all
    then show ?thesis by (simp add: field links_field assms(3))
  next
    case False
    with decode_field_typed [OF assms(1,2), of "fst field" "snd field"] that show ?thesis
      by (simp split: option.split)
  qed
  then have "decode_errs vp st =
      concat (map (\<lambda>field. if fst field = ''author.links'' then (case res of Some (Inl err) \<Rightarrow> [err] | _ \<Rightarrow> []) else []) scheme_fields)"
    by (simp add: decode_errs_def cong: map_cong)
  then show "decode_errs vp st = (case res of Some (Inl err) \<Rightarrow> [err] | _ \<Rightarrow> [])"
    by (simp add: scheme_fields_def)
qed

lemma Unmarshal_links:
  "Unmarshal (st(''author.links'' := x)) = (Unmarshal st)\<lparr>s_Author := \<lparr>author_Name = get_string st ''author.name'',
     author_Links = (case x of Some (VMap m) \<Rightarrow> m | _ \<Rightarrow> [])\<rparr>\<rparr>"
  by (simp add: Unmarshal_def get_defs)

text \<open>A store of typed values that is read without conversions.\<close>

definition sample_viper :: "(string \<rightharpoonup> cfg_value) \<Rightarrow> viper" where
  "sample_viper st =
     \<lparr>vp_readErr = Some (True, ErrText ''no config file''), vp_bindErr = None, vp_settings = (\<lambda>_. st),
      vp_durationHook = (\<lambda>_. Inr), vp_sliceHook = (\<lambda>_ _. Inr),
      vp_assign = (\<lambda>k v. if kind_of v = k then Inr v else Inl (ErrText ''unconvertible'')),
      vp_Set = (\<lambda>f v. Inr f), vp_show = (\<lambda>_. '''')\<rparr>"

lemma sample_viper_contract: "conversions (sample_viper st)" "config_loads (sample_viper st)"
  by (simp_all add: conversions_def config_loads_def sample_viper_def)

lemma sample_viper_loads:
  assumes "typed_but_links st" and "st ''author.links'' = Some (VMap m)"
  shows "initializeConfig (sample_viper st) flags cfg = (None, Unmarshal st)"
proof -
  have "decode_field (sample_viper st) st (''author.links'', KMap) = Some (Inr (VMap m))"
    using assms(2) by (simp add: decode_field_def decode_typed [OF sample_viper_contract(1)]
        assign_typed [OF sample_viper_contract(1)])
  from decoded_typed [OF sample_viper_contract(1) assms(1) this] show ?thesis
    using initializeConfig_loads [OF sample_viper_contract(2), of st flags cfg] assms(2)
    by (simp add: viper_Unmarshal_def fun_upd_idem) (simp add: sample_viper_def)
qed

subsection \<open>Lifecycle facts\<close>

lemma run_serve_fails:
  assumes "app_Init e (pr_app p) (pr_effects p) = Some (Some err, app, log)"
  shows "\<exists>app'. serve_Cmd_RunE e evs live p =
      (p\<lparr>pr_app := app', pr_effects := log\<rparr>, Ended (Some (ErrWrap ''application initialisation'' err)))"
  using assms by (auto simp: serve_Cmd_RunE_def serve_RunE_def)

lemma run_serve_ready:
  assumes "app_Init e (pr_app p) (pr_effects p) = Some (None, app, log)" and "built e (pr_app p) app"
  shows "\<exists>h. serve_Cmd_RunE e evs live p =
      (p\<lparr>pr_app := app\<lparr>app_hub := Some h\<rparr>, pr_effects := log\<rparr>,
       case serve_select evs of None \<Rightarrow> Serving | Some err \<Rightarrow> Ended err)"
  using assms(2) by (auto simp: built_def serve_Cmd_RunE_def serve_RunE_def assms(1) app_Serve_def)

definition closing :: "effect list" where
  "closing = [ServerShutdown, HealthzShutdown, HubStopped, ListenersDone,
     Closed PriceConn, Closed IndexerConn, Closed OracleConn, Closed RedisClient]"

lemma post_serve:
  assumes "built e app0 app" and "app_modules app0 = NewManager" and "\<not> app_stopped app0"
  shows "pr_effects (serve_Cmd_PostRun e xs (p\<lparr>pr_app := app\<lparr>app_hub := Some h\<rparr>, pr_effects := log\<rparr>)) = log @ closing"
  using app_Stop_built [OF assms, of xs h log] by (simp add: serve_Cmd_PostRun_def closing_def)

text \<open>The run of the serve command, given its configuration and the outcome of \<open>RunE\<close>.\<close>

lemma hook_order_config:
  assumes "initializeConfig vp flags (App_Config (pr_app p)) = (Some err, cfg)"
  shows "\<exists>app'. hook_order (root_Cmd vp flags app) (serve_Cmd e evs live xs) p = (p\<lparr>pr_app := app'\<rparr>, Ended (Some err))"
  by (intro exI [of _ "(pr_app p)\<lparr>app_config := cfg\<rparr>"]) (simp add: hook_order_def root_Cmd_def serve_Cmd_def assms)

lemma hook_order_serve:
  assumes "initializeConfig vp flags (App_Config (pr_app p)) = (None, cfg)"
    and "serve_Cmd_RunE e evs live (p\<lparr>pr_app := (pr_app p)\<lparr>app_config := cfg\<rparr>,
        pr_lines := pr_lines p @ [LogInfo (App_Version ((pr_app p)\<lparr>app_config := cfg\<rparr>))]\<rparr>) = (q, res)"
  shows "hook_order (root_Cmd vp flags app) (serve_Cmd e evs live xs) p =
    (if res = Ended None then serve_Cmd_PostRun e xs q else q, res)"
  using assms by (simp add: hook_order_def root_Cmd_def serve_Cmd_def opt_hook_def)

subsection \<open>Properties\<close>

text \<open>
  Property C17. What a run of \<open>serve\<close> leaves behind, for every configuration and environment. A broken
  build or configuration ends it with status 1 before anything is opened; a failing \<open>Init\<close> with
  status 1 and everything closed again; otherwise the four clients are open while it serves. A
  signal ends it with status 0 after both listeners and the hub are stopped and every client is
  closed once. When a listener fails it ends with status 1 and nothing is stopped or closed, since
  the hook that calls \<open>Stop\<close> runs only after a success.
\<close>

theorem process_lifecycle:
  fixes e :: "('conn, 'r) env" and newVersion :: "'d Version go_result"
  assumes "runs_hooks execute"
  shows "case main execute newVersion vp flags e evs live snapshot of (status, log, _) \<Rightarrow>
    (case (newVersion, initializeConfig vp flags (Unmarshal Map.empty)) of
       (Inr _, None, cfg) \<Rightarrow>
         if Validate cfg = None \<and> dials e (s_GRPCClient cfg) \<and> timeouts_parse (s_HTTP cfg)
         then case serve_select evs of
             None \<Rightarrow> status = None \<and> log = all_opened
           | Some None \<Rightarrow> status = Some 0 \<and> log = all_opened @ closing
           | Some (Some err) \<Rightarrow> status = Some 1 \<and> log = all_opened
         else status = Some 1 \<and> balanced log
     | _ \<Rightarrow> status = Some 1 \<and> log = [])"
proof (cases newVersion)
  case (Inl err)
  then show ?thesis by (simp add: main_def NewApplication_def)
next
  case (Inr ver)
  then obtain app :: "('conn, 'r, 'd) App" where app: "NewApplication newVersion = Inr app" "app_config app = Unmarshal Map.empty"
      "app_modules app = NewManager" "\<not> app_stopped app"
    by (simp add: NewApplication_def)
  let ?p0 = "\<lparr>pr_app = app, pr_effects = [], pr_lines = []\<rparr>"
  have main: "main execute (Inr ver) vp flags e evs live snapshot =
      main_end (hook_order (root_Cmd vp flags app) (serve_Cmd e evs live snapshot) ?p0)"
    using assms app(1) by (simp add: main_def runs_hooks_def Inr)
  obtain cerr cfg where conf: "initializeConfig vp flags (Unmarshal Map.empty) = (cerr, cfg)" by force
  then have conf0: "initializeConfig vp flags (App_Config (pr_app ?p0)) = (cerr, cfg)" by (simp add: App_Config_def app(2))
  show ?thesis
  proof (cases cerr)
    case (Some err)
    then show ?thesis
      using hook_order_config [of vp flags ?p0 err cfg app e evs live snapshot] conf conf0 by (auto simp: main Inr)
  next
    case None
    let ?app = "app\<lparr>app_config := cfg\<rparr>"
    let ?p = "\<lparr>pr_app = ?app, pr_effects = [], pr_lines = [LogInfo (App_Version ?app)]\<rparr>"
    note run = hook_order_serve [OF conf0 [unfolded None], of e evs live _ _ app snapshot, simplified]
    show ?thesis
    proof (cases rule: app_Init_cases [of e ?app "[]"])
      case (fails err app' new)
      then obtain app'' where "serve_Cmd_RunE e evs live ?p =
          (?p\<lparr>pr_app := app'', pr_effects := new\<rparr>, Ended (Some (ErrWrap ''application initialisation'' err)))"
        using run_serve_fails [of e ?p err app' new evs live] by auto
      from run [OF this [simplified]] fails(2,3) show ?thesis
        using conf None by (auto simp: main Inr)
    next
      case (ready app')
      then obtain h where serve: "serve_Cmd_RunE e evs live ?p =
          (?p\<lparr>pr_app := app'\<lparr>app_hub := Some h\<rparr>, pr_effects := all_opened\<rparr>,
           case serve_select evs of None \<Rightarrow> Serving | Some err \<Rightarrow> Ended err)"
        using run_serve_ready [of e ?p app' all_opened evs live] by auto
      have "pr_effects (serve_Cmd_PostRun e snapshot (?p\<lparr>pr_app := app'\<lparr>app_hub := Some h\<rparr>, pr_effects := all_opened\<rparr>))
          = all_opened @ closing"
        using app(3,4) by (intro post_serve [OF ready(2)]) simp_all
      with run [OF serve [simplified]] ready(3) show ?thesis
        using conf None by (auto simp: main Inr split: option.split)
    qed
  qed
qed

theorem process_lifecycle_witness:
  "\<exists>ls. main (\<lambda>root subs. hook_order root (hd subs)) (Inr (app_version sample_app))
     (sample_viper ((map_of setDefaults)(''author.name'' \<mapsto> VString ''Ada''))) [] sample_env
     [ServerReturned (Some (ErrText ''address already in use''))] id [] = (Some 1, all_opened, ls)"
proof -
  let ?st = "(map_of setDefaults)(''author.name'' \<mapsto> VString ''Ada'')"
  let ?cfg = "Unmarshal ?st"
  have conf: "initializeConfig (sample_viper ?st) [] (Unmarshal Map.empty) = (None, ?cfg)"
    by (rule sample_viper_loads [where m = "[]"])
      (simp add: typed_but_links_def scheme_fields_def setDefaults_def, simp add: setDefaults_def)
  have "Validate ?cfg = None \<and> dials sample_env (s_GRPCClient ?cfg) \<and> timeouts_parse (s_HTTP ?cfg)"
    by (simp add: Unmarshal_author default_scheme Validate_def validate_errs_def dials_def timeouts_parse_def ParseDuration_defaults
        price_Dial_def indexer_Dial_def oracle_Dial_def dial_with_def grpcdial_Options_def parse_or_def sample_env_def)
  moreover have "\<exists>err. serve_select [ServerReturned (Some (ErrText ''address already in use''))] = Some (Some err)"
    by (simp add: listener_error_def server_Serve_def)
  ultimately show ?thesis
    using process_lifecycle [where execute = "\<lambda>root subs. hook_order root (hd subs)" and newVersion = "Inr (app_version sample_app)"
        and vp = "sample_viper ?st" and flags = "[]" and e = sample_env
        and evs = "[ServerReturned (Some (ErrText ''address already in use''))]" and live = id and snapshot = "[]"]
    by (auto simp: runs_hooks_def conf split: prod.splits)
qed

text \<open>
  Property C33. A map written as JSON in the environment arrives in the configuration: with every other
  setting of its field's type, the text of a map of ASCII strings gives \<open>author.links\<close> exactly that
  map and a blank text the empty one; any other text is accepted exactly when it decodes as an
  object of strings, and otherwise loading fails. No other field is affected.
\<close>

theorem author_links_from_environment:
  assumes "conversions vp" and "config_loads vp" and "st = vp_settings vp (bindFlags vp flags)"
    and "typed_but_links st" and "st ''author.links'' = Some (VString raw)"
  shows "case initializeConfig vp flags cfg of (err, scheme) \<Rightarrow>
    let links = author_Links (s_Author scheme) in
    scheme = (Unmarshal st)\<lparr>s_Author := \<lparr>author_Name = get_string st ''author.name'', author_Links = links\<rparr>\<rparr>
    \<and> (if TrimSpace raw = '''' then err = None \<and> links = []
       else case json_Unmarshal raw of Inr m \<Rightarrow> err = None \<and> links = m | Inl _ \<Rightarrow> err \<noteq> None)
    \<and> (if raw = links_text kvs \<and> list_all (\<lambda>(k, v). is_ascii k \<and> is_ascii v) kvs \<and> distinct (map fst kvs)
       then err = None \<and> links = kvs else True)"
proof -
  define res where "res = stringToStringMapJSONHook KMap (VString raw)"
  have res: "res = (if TrimSpace raw = '''' then Inr (VMap [])
      else case json_Unmarshal raw of
          Inl err \<Rightarrow> Inl (ErrWrap ''decode map-typed config from JSON string'' err)
        | Inr m \<Rightarrow> Inr (VMap m))"
    by (simp add: res_def stringToStringMapJSONHook_def)
  have "decode_field vp st (''author.links'', KMap) =
      Some (case res of Inl err \<Rightarrow> Inl err | Inr v \<Rightarrow> vp_assign vp KMap v)"
    by (simp add: decode_field_def assms(5) decode_links [OF assms(1)] res_def cong: sum.case_cong)
  also have "\<dots> = Some res"
    by (auto simp: res assign_typed [OF assms(1)] split: sum.split)
  finally have field: "decode_field vp st (''author.links'', KMap) = Some res" .
  have "initializeConfig vp flags cfg = viper_Unmarshal vp st"
    using initializeConfig_loads [OF assms(2)] assms(3) by simp
  then have init: "initializeConfig vp flags cfg =
      (errors_Join (case res of Inl err \<Rightarrow> [err] | _ \<Rightarrow> []),
       (Unmarshal st)\<lparr>s_Author := \<lparr>author_Name = get_string st ''author.name'',
          author_Links = (case res of Inr (VMap m) \<Rightarrow> m | _ \<Rightarrow> [])\<rparr>\<rparr>)"
    using decoded_typed [OF assms(1,4) field]
    by (auto simp: viper_Unmarshal_def Unmarshal_links split: sum.split cfg_value.split)
  have rt: "TrimSpace raw \<noteq> '''' \<and> json_Unmarshal raw = Inr kvs"
    if "raw = links_text kvs" "list_all (\<lambda>(k, v). is_ascii k \<and> is_ascii v) kvs" "distinct (map fst kvs)"
    using that json_Unmarshal_text [OF that(2,3)] by (simp add: TrimSpace_links links_text_ends)
  show ?thesis
    using rt by (auto simp: init res Let_def split: sum.split)
qed

theorem author_links_from_environment_witness:
  "\<exists>scheme. initializeConfig (sample_viper ((map_of setDefaults)(''author.links'' \<mapsto>
       VString (links_text [(''github'', ''https://github.com/asolovov''), (''motto'', [CHR 0x22, CHR 0x5C, CHR 0x0A])]))))
     [] (Unmarshal Map.empty) = (None, scheme)
   \<and> author_Links (s_Author scheme) = [(''github'', ''https://github.com/asolovov''), (''motto'', [CHR 0x22, CHR 0x5C, CHR 0x0A])]"
proof -
  let ?kvs = "[(''github'', ''https://github.com/asolovov''), (''motto'', [CHR 0x22, CHR 0x5C, CHR 0x0A])]"
  let ?st = "(map_of setDefaults)(''author.links'' \<mapsto> VString (links_text ?kvs))"
  have typed: "typed_but_links ?st" by (simp add: typed_but_links_def scheme_fields_def setDefaults_def)
  have ascii: "list_all (\<lambda>(k, v). is_ascii k \<and> is_ascii v) ?kvs" "distinct (map fst ?kvs)"
    by (simp_all add: is_ascii_def byte_val_def)
  note links = author_links_from_environment [OF sample_viper_contract _ typed, where flags = "[]"
      and raw = "links_text ?kvs" and cfg = "Unmarshal Map.empty" and kvs = ?kvs]
  obtain err scheme where init: "initializeConfig (sample_viper ?st) [] (Unmarshal Map.empty) = (err, scheme)" by force
  have "vp_settings (sample_viper ?st) (bindFlags (sample_viper ?st) []) = ?st" by (simp add: sample_viper_def)
  from links [OF this [symmetric]] ascii have "err = None \<and> author_Links (s_Author scheme) = ?kvs"
    by (simp add: init Let_def)
  with init show ?thesis by simp
qed

end
