(* ===== verification/Spec2Isabelle.thy ===== *)
theory Spec2Isabelle
  imports Hub_Steps Hub_Spec Hub_Shutdown Feed_Clock Keepalive Requests Accounting Schema Writers Logger Commands
begin

text \<open>
  A verification library for the backend-for-frontend of the EVM oracle demo, the Go program under
  \<open>src/\<close>: a REST and WebSocket API over three gRPC services (prices, indexed chain events, oracle
  submissions), with Redis as the store of its rate limiter.

  \<^bold>\<open>How the program works.\<close> \<open>main\<close> builds an \<open>App\<close> and runs the root command, which loads the
  configuration, and the \<open>serve\<close> command, which calls \<open>Init\<close>, \<open>Serve\<close> and, after a success, \<open>Stop\<close>.
  \<open>Init\<close> validates the configuration, dials the upstreams, fills the registry of aggregator addresses
  and wires the HTTP server: request id, access log, panic recovery, metrics and CORS around the root
  router, the rate limiter around the API routes. Two feeds subscribe to price updates and to chain
  events; they broadcast each message through the hub to all WebSocket clients, and the event feed
  also updates the registry that the REST handlers read.

  \<^bold>\<open>Theories, from the bottom up.\<close>
  \<^item> \<open>Prelude\<close>: machine integers, Go errors as values, the first of several errors, runs of fallible
    actions, reachable states, and the locales \<open>invariant_system\<close>, \<open>simulation\<close> and \<open>working_system\<close>
    (steps that use up work).
  \<^item> \<open>Go_Strings\<close>, \<open>Go_Duration\<close>, \<open>Go_Net\<close>, \<open>Json_Text\<close>: what the code uses of Go's \<open>strings\<close>,
    \<open>strconv\<close>, \<open>time.ParseDuration\<close>, \<open>net\<close> and \<open>json.Unmarshal\<close>, on byte strings.
  \<^item> \<open>Assets\<close>, \<open>Models\<close>: \<open>internal/models\<close>, the catalog with its hash tables, and the domain types
    with their conversions from protobuf messages.
  \<^item> \<open>Config\<close>: \<open>config/scheme.go\<close> and \<open>init.go\<close>, the scheme, its defaults and \<open>Validate\<close>.
  \<^item> \<open>Clients\<close>: \<open>internal/grpcdial\<close>, \<open>priceclient\<close>, \<open>indexerclient\<close>, \<open>oracleclient\<close>. The generated
    stubs are records of functions. The locale \<open>upstream_lookup\<close> is what a handler relies on in a
    unary call, interpreted for the three lookups.
  \<^item> \<open>Registry\<close>: \<open>internal/aggregatorregistry\<close>; the locale \<open>address_book\<close> states its set and lookup
    laws.
  \<^item> \<open>Redis\<close>, \<open>Limiter\<close>: the commands of Redis the script uses, as the locale \<open>redis_server\<close> with a
    concrete store as its interpretation, and \<open>internal/ratelimit/limiter.go\<close>, \<open>redis.go\<close> over any
    such server; the specification is a sliding-window log of admitted requests.
  \<^item> \<open>Rate_Middleware\<close>: \<open>clientip.go\<close> and \<open>middleware.go\<close>, over an abstract limiter (the locale
    \<open>decision_source\<close>, interpreted with the Redis limiter).
  \<^item> \<open>Json\<close>, \<open>Http\<close>, \<open>Metrics\<close>, \<open>Middleware\<close>, \<open>Writers\<close>: encoded values (with
    \<open>internal/wshub/wire.go\<close>), responses, \<open>internal/metrics\<close> and \<open>internal/middleware\<close>. A handler is
    a function of request, writer and world that may panic. The locale \<open>honest\<close> says that its
    recorders end with the status that was sent, \<open>tame\<close> that it leaves an observation of the world
    alone. \<open>Writers\<close> has the writers nested as in the code and shows that the flat one computes the
    same.
  \<^item> \<open>Handlers\<close>, \<open>Routes\<close>, \<open>Schema\<close>: \<open>internal/handlers\<close>, and the contract of
    \<open>api/openapi.yaml\<close> that every response is shown to keep.
  \<^item> \<open>Hub\<close>, \<open>Hub_Steps\<close>, \<open>Hub_Spec\<close>, \<open>Hub_Shutdown\<close>, \<open>Feeds\<close>, \<open>Feed_Clock\<close>, \<open>Keepalive\<close>:
    \<open>internal/wshub\<close>. \<open>Hub\<close> has the operations (the send channel is the locale \<open>bounded_fifo\<close>),
    \<open>Hub_Steps\<close> their interleavings as a step relation with its invariants, \<open>Hub_Spec\<close> the broker that
    this relation refines, \<open>Hub_Shutdown\<close> the steps that are left after \<open>Stop\<close>, \<open>Feeds\<close> the
    reconnecting loops, \<open>Feed_Clock\<close> the same against a clock, and \<open>Keepalive\<close> deadlines and pings.
  \<^item> \<open>Modules\<close>, \<open>Servers\<close>, \<open>Version\<close>, \<open>Logger\<close>, \<open>Application\<close>, \<open>Commands\<close>: \<open>internal/module\<close>,
    \<open>server\<close>, \<open>healthz\<close>, \<open>pkg/version\<close>, \<open>pkg/logger\<close>, \<open>internal/application.go\<close> and \<open>cmd\<close>. The effects on connections are
    kept in a log, so that leaks and double closes can be stated.
  \<^item> \<open>Requests\<close>, \<open>Accounting\<close>, and this theory: sequences of requests through the whole stack of an
    initialised application, and the requests that its counter misses or counts wrongly.

  \<^bold>\<open>What is shown.\<close> The rate limiter admits what a sliding-window log admits, for the script alone and
  for clients of the running server. The hub is consistent under every interleaving, implements a
  broker without gaps or duplicates, bounds how far a client lags, and after \<open>Stop\<close> runs down to the
  last pump in every schedule. The feeds reconnect, forward every message in order and end at the
  instant of their cancellation. Every request is answered, logged and counted under one status, but
  for panics, which are not counted, and failed upgrades, which are counted as 101; and every response keeps the published contract; handlers are characterised on all
  branches. Start-up releases all it opened when it fails, and the exit status and remaining
  connections of a run are known for every configuration. WebSocket connections are accepted from any
  origin. Encodings are lossless, JSON text in the environment is decoded to the map it denotes, and
  concurrent callers share one logger.

  \<^bold>\<open>Bounds.\<close> \<open>ParseDuration\<close> runs with the length of its text as fuel, which is enough since every
  component consumes a byte (\<open>duration_loop_fuel\<close>). The IPv6 reader of \<open>Go_Net\<close> makes eight rounds,
  as the code does. \<open>Json_Text\<close> and the trimming of \<open>Go_Strings\<close> recurse on a text that gets shorter.
  A feed runs over the list of its subscription attempts, each with the messages it delivers, and is
  still inside the call when these have no end; \<open>feeds_stop_promptly\<close> says how many attempts are
  enough. The measure \<open>work\<close> of \<open>Hub_Shutdown\<close> counts the frames, pumps, deliveries and closes left. Integers that can overflow are words or wrapped
  explicitly.

  \<^bold>\<open>Parameters.\<close> Code that is not under \<open>src/\<close> is an argument: keccak, the gRPC stubs and dialling,
  Redis, the chi router's matching, the WebSocket upgrader, clocks and UUIDs, viper, mapstructure and
  pflag, and cobra's \<open>Execute\<close>. What the proofs need of them is a hypothesis stating their
  documentation, and each is shown satisfiable by an instance.

  \<^bold>\<open>Not modelled.\<close> The bytes of encoded JSON, the Prometheus text format, the text of log lines, the parsing and rendering of dates in \<open>pkg/version\<close>, sockets with
  \<open>ListenAndServe\<close> and \<open>Shutdown\<close> (only their results are seen), cancellation by request contexts and
  their deadlines, and the generated protobuf code. These are the standard library's or third-party
  behaviour, or pure output.
\<close>

section \<open>Properties that span components\<close>

text \<open>
  Property C1. The configured rate limit holds for clients of the running service: for any sequence of
  limited requests served by an initialised application, with Redis behaving as documented, reachable
  and empty of its keys, and the calls of the limiter in time order, a request is answered with
  something other than 429 exactly when fewer than rate plus burst requests of the same client
  address were so answered in the 60 seconds up to it. So no address gets more than rate plus burst
  of them in any 60 seconds.
\<close>

theorem rate_limit_end_to_end:
  assumes cfg: "cfg = app_config app0"
    and calls: "calls = limiter_calls (ev_redisCall e) (http_TrustedProxies (s_HTTP cfg)) n rs"
    and limit: "limit = wrap_int64 (rl_RequestsPerMinute (s_RateLimit cfg) + rl_BurstSize (s_RateLimit cfg))"
    and "app_Init e app0 log0 = Some (None, app, log)" and "app_server app = Some srv"
    and "rl_Enabled (s_RateLimit cfg)" and "router_ok e"
    and "redis_server (ev_redis e) invar zset deadline clock" and "invar red" and "wd_redis s = (red, n)"
    and "\<And>k. snd (snd (ev_redisCall e k)) = None" and "\<And>r. r \<in> set rs \<Longrightarrow> limited e r"
    and "fresh_run zset (app_limiter cfg) calls red"
  shows "map (\<lambda>w. sent_status w \<noteq> 429) (fst (serve_run (server_Handler srv) rs s))
      = window_log 60000 limit [] (map (\<lambda>(k, t, u). (k, t)) calls)
    \<and> int (length (filter (\<lambda>((k, t, u), w). (k = key \<and> now - 60000 < t \<and> t \<le> now) \<and> sent_status w \<noteq> 429)
            (zip calls (fst (serve_run (server_Handler srv) rs s))))) \<le> max 0 limit"
proof -
  have b: "built e app0 app" using Init_success [OF assms(4)] by simp
  then have app_cfg: "app_config app = cfg" by (simp add: built_def cfg)
  obtain conns where handler: "server_Handler srv = app_stack e (s_HTTP cfg) (app_mux e app conns)"
    using b assms(5) app_cfg by (auto simp: built_def)
  let ?ws = "fst (serve_run (server_Handler srv) rs s)" and ?ds = "snd (allow_run (ev_redis e) (app_limiter cfg) calls red)"
  have verdicts: "map (\<lambda>w. sent_status w \<noteq> 429) ?ws = map allowed ?ds"
    unfolding handler calls app_cfg [symmetric]
    by (rule serve_run_verdicts [where app = app]) (simp_all add: app_cfg assms(6,7,10-12))
  have "map allowed ?ds = window_log 60000 limit [] (map (\<lambda>(k, t, u). (k, t)) calls)"
    using allow_run_window_log [OF assms(8,9)] assms(13) by (simp add: app_limiter_def limit)
  moreover have "int (length (filter (\<lambda>((k, t, u), d). (k = key \<and> now - 60000 < t \<and> t \<le> now) \<and> allowed d) (zip calls ?ds))) \<le> max 0 limit"
    using allow_run_bound [OF assms(8,9), where reqs = calls and key = key and now = now] assms(13)
    by (simp add: app_limiter_def limit split_beta conj_ac)
  ultimately show ?thesis
    using verdicts count_zip_cong [OF verdicts, of "\<lambda>(k, t, u). k = key \<and> now - 60000 < t \<and> t \<le> now" calls]
    by (simp add: split_beta')
qed

definition asset_request :: Request where
  "asset_request = \<lparr>q_Method = ''GET'', q_Path = ''/api/v1/assets'', q_RemoteAddr = ''203.0.113.9:41000'',
     q_Header = Map.empty, q_Query = [], q_Params = [], q_RequestID = None\<rparr>"

lemma sample_router: "router_ok sample_env"
proof -
  have "fresh_writer w \<Longrightarrow> sent_status (fst (not_found r w s)) \<noteq> 429" for r w and s :: "redis_store world"
    by (simp add: not_found_def http_Error_def Let_def writer_defs sent_status_def fresh_writer_def)
  then show ?thesis by (simp add: router_ok_def sample_env_def not_found.tame_axioms)
qed

theorem rate_limit_end_to_end_witness:
  "\<exists>app srv. app_Init sample_env sample_app [] = Some (None, app, all_opened) \<and> app_server app = Some srv
    \<and> map (\<lambda>w. sent_status w \<noteq> 429) (fst (serve_run (server_Handler srv) [asset_request, asset_request] sample_world)) = [True, False]"
proof -
  obtain app where app: "app_Init sample_env sample_app [] = Some (None, app, all_opened)" and b: "built sample_env sample_app app"
    by (rule sample_init)
  obtain srv where srv: "app_server app = Some srv" using b by (auto simp: built_def)
  have rl: "s_RateLimit (app_config sample_app) = \<lparr>rl_Enabled = True, rl_RequestsPerMinute = 1, rl_BurstSize = 0\<rparr>"
      "http_TrustedProxies (s_HTTP (app_config sample_app)) = []"
    by (simp_all add: sample_app_def sample_config_def Unmarshal_author default_scheme)
  note router = sample_router
  have "\<not> bypassed api_bypass asset_request" by code_simp
  then have lim: "r \<in> set [asset_request, asset_request] \<Longrightarrow> limited sample_env r" for r
    by (simp add: limited_def sample_env_def asset_request_def)
  have calls: "limiter_calls (ev_redisCall sample_env) [] 0 [asset_request, asset_request]
      = [(ClientIP asset_request [], 1000, ''u0''), (ClientIP asset_request [], 1001, ''u1'')]"
    by (simp add: sample_env_def) code_simp
  have fresh: "fresh_run store_zset (app_limiter (app_config sample_app))
      (limiter_calls (ev_redisCall sample_env) (http_TrustedProxies (s_HTTP (app_config sample_app))) 0 [asset_request, asset_request]) empty_store"
    unfolding rl(2) calls by (simp add: fresh_run_def store_zset_def empty_store_def)
  have redis: "redis_server (ev_redis sample_env) store_invar store_zset st_ttl st_clock"
    using store.redis_server_axioms by (simp add: sample_env_def)
  have others: "store_invar empty_store" "wd_redis sample_world = (empty_store, 0)"
      "rl_Enabled (s_RateLimit (app_config sample_app))" "snd (snd (ev_redisCall sample_env k)) = None" for k
    by (simp_all add: store_invar_def empty_store_def sample_world_def rl sample_env_def)
  have "map (\<lambda>w. sent_status w \<noteq> 429) (fst (serve_run (server_Handler srv) [asset_request, asset_request] sample_world))
      = window_log 60000 (wrap_int64 (1 + 0)) [] (map (\<lambda>(k, t, u). (k, t))
          [(ClientIP asset_request [], 1000, ''u0''), (ClientIP asset_request [], 1001, ''u1'')])"
    using rate_limit_end_to_end [OF refl refl refl app srv others(3) router redis others(1,2,4) lim fresh]
    by (simp only: rl calls RateLimitConfig.simps)
  then show ?thesis using app srv by (auto simp: Let_def admitted_in_def in_window_def in_int64_def)
qed


definition stream_env :: "(string, redis_store) env" where
  "stream_env = sample_env\<lparr>ev_router := \<lparr>rt_underAPI = (\<lambda>r. take 5 (q_Path r) = ''/api/''), rt_match = (\<lambda>_ _. None),
     rt_isWS = (\<lambda>r. q_Path r = ''/ws/stream'')\<rparr>\<rparr>"

definition ws_request :: "string \<Rightarrow> Request" where
  "ws_request origin = asset_request\<lparr>q_Path := ''/ws/stream'', q_Header := [''Origin'' \<mapsto> [origin]]\<rparr>"


end
